theory Spec2Isabelle
  imports Complex_Main "HOL-Library.Log_Nat"
begin

section \<open>Conventions of the embedding\<close>

text \<open>
  The repository holds two Python modules: \<^verbatim>\<open>results.py\<close> (per-fold metrics and their
  average) and \<^verbatim>\<open>network.py\<close> (a PyTorch model definition). Tensor elements are
  idealised as real numbers. The metrics of a fold are kept as the real numbers that were
  written, and \<^verbatim>\<open>numpy.mean\<close>, the one computation of \<^verbatim>\<open>results.py\<close>, is carried out in
  IEEE-754 binary64 arithmetic: every operation rounds to the nearest double, overflows to
  an infinity, and can yield NaN. A Python exception is a value of
  \<open>py_error\<close>, and a call that can raise returns a sum with \<open>Inl\<close> for the exception.
\<close>

datatype py_error =
    KeyError string
  | ValueError
  | RuntimeError
  | ZeroElementTensor

text \<open>
  \<open>KeyError k\<close> is the failed lookup of key \<open>k\<close> in a dict; \<open>ValueError\<close> and
  \<open>RuntimeError\<close> are raised by the PyTorch layers. \<open>ZeroElementTensor\<close> is not a Python
  exception: PyTorch routes tensors without elements through a special path of its
  batch-normalisation kernel, which this development does not describe, and the model of
  batch normalisation stops with this outcome instead.
\<close>

section \<open>results.py\<close>

subsection \<open>Result\<close>

record Result =
  best_acc :: real
  best_epoch :: real
  precision :: real
  recall :: real
  f1_score :: real

text \<open>A classification report is a dict of dicts, \<^verbatim>\<open>Dict[str, dict]\<close>.\<close>

type_synonym report = "string \<rightharpoonup> (string \<rightharpoonup> real)"

text \<open>\<^verbatim>\<open>d[k]\<close> on a dict.\<close>

definition getitem :: "(string \<rightharpoonup> 'v) \<Rightarrow> string \<Rightarrow> py_error + 'v" where
  "getitem d k = (case d k of None \<Rightarrow> Inl (KeyError k) | Some v \<Rightarrow> Inr v)"

text \<open>\<^verbatim>\<open>d[k1][k2]\<close>: the outer lookup comes first.\<close>

definition getitem2 :: "report \<Rightarrow> string \<Rightarrow> string \<Rightarrow> py_error + real" where
  "getitem2 d k1 k2 = (case getitem d k1 of Inl e \<Rightarrow> Inl e | Inr inner \<Rightarrow> getitem inner k2)"

text \<open>
  \<^verbatim>\<open>Result.set_values_from_classification_report\<close> assigns five attributes one after the
  other. The method mutates \<^verbatim>\<open>self\<close>, so an exception leaves the object as the
  assignments before it made it: the error case carries that object.
\<close>

definition set_values_from_classification_report ::
    "Result \<Rightarrow> report \<Rightarrow> (py_error \<times> Result) + Result" where
  "set_values_from_classification_report self classification_report =
    (case getitem2 classification_report ''weighted avg'' ''f1-score'' of
       Inl e \<Rightarrow> Inl (e, self)
     | Inr v1 \<Rightarrow>
    let self = self\<lparr>f1_score := v1\<rparr> in
    (case getitem2 classification_report ''weighted avg'' ''precision'' of
       Inl e \<Rightarrow> Inl (e, self)
     | Inr v2 \<Rightarrow>
    let self = self\<lparr>precision := v2\<rparr> in
    (case getitem2 classification_report ''weighted avg'' ''recall'' of
       Inl e \<Rightarrow> Inl (e, self)
     | Inr v3 \<Rightarrow>
    let self = self\<lparr>recall := v3\<rparr> in
    (case getitem2 classification_report ''best_result'' ''best_acc'' of
       Inl e \<Rightarrow> Inl (e, self)
     | Inr v4 \<Rightarrow>
    let self = self\<lparr>best_acc := v4\<rparr> in
    (case getitem2 classification_report ''best_result'' ''best_epoch'' of
       Inl e \<Rightarrow> Inl (e, self)
     | Inr v5 \<Rightarrow> Inr (self\<lparr>best_epoch := v5\<rparr>))))))"

text \<open>
  \<^verbatim>\<open>Result.__init__\<close>: all attributes zero, then the report, if one is given. An
  exception inside the constructor leaves the caller without an object.
\<close>

definition Result_init :: "report option \<Rightarrow> py_error + Result" where
  "Result_init classification_report =
    (let self = \<lparr>best_acc = 0, best_epoch = 0, precision = 0, recall = 0, f1_score = 0\<rparr> in
     case classification_report of
       None \<Rightarrow> Inr self
     | Some cr \<Rightarrow>
         (case set_values_from_classification_report self cr of
            Inl (e, _) \<Rightarrow> Inl e
          | Inr self' \<Rightarrow> Inr self'))"

subsection \<open>IterationResults\<close>

record IterationResults =
  fold_results :: "Result list"

definition IterationResults_init :: IterationResults where
  "IterationResults_init = \<lparr>fold_results = []\<rparr>"

definition add_result :: "IterationResults \<Rightarrow> Result \<Rightarrow> IterationResults" where
  "add_result self result = self\<lparr>fold_results := fold_results self @ [result]\<rparr>"

subsection \<open>Binary64 arithmetic\<close>

text \<open>
  A value of numpy's \<^verbatim>\<open>float64\<close>: a finite double, written as the real number it is, one
  of the two infinities, or NaN. The sign of a zero is not recorded.
\<close>

datatype np_float = Float real | PosInf | NegInf | NaN

text \<open>
  The binary exponent of a non-zero real \<open>x\<close>, the \<open>e\<close> with \<open>2\<^sup>e \<le> \<bar>x\<bar> < 2\<^sup>e\<^sup>+\<^sup>1\<close>, read
  off the bit length of an integer.
\<close>

definition f64_exponent :: "real \<Rightarrow> int" where
  "f64_exponent x =
     (if 1 \<le> \<bar>x\<bar> then bitlen \<lfloor>\<bar>x\<bar>\<rfloor> - 1 else - bitlen (\<lceil>1 / \<bar>x\<bar>\<rceil> - 1))"

text \<open>Rounding to the nearest integer, a tie to the even one.\<close>

definition round_half_even :: "real \<Rightarrow> int" where
  "round_half_even m =
     (let f = \<lfloor>m\<rfloor>; d = m - of_int f
      in if d < 1 / 2 then f else if 1 / 2 < d then f + 1 else if even f then f else f + 1)"

text \<open>
  The spacing of the doubles around \<open>x\<close>: a significand has 53 bits, and below the
  smallest normal exponent, \<open>-1022\<close>, the spacing stays that of the subnormal numbers.
\<close>

definition f64_quantum :: "real \<Rightarrow> real" where
  "f64_quantum x = 2 powi (max (f64_exponent x) (- 1022) - 52)"

text \<open>
  The double nearest to a real number, ties to the even significand; a result of
  magnitude \<open>2\<^sup>1\<^sup>0\<^sup>2\<^sup>4\<close> is an infinity. It is the value that Python stores for a number
  that was written, and the result of an arithmetic operation on the exact result.
\<close>

definition f64_round :: "real \<Rightarrow> np_float" where
  "f64_round x =
     (if x = 0 then Float 0
      else let q = f64_quantum x; v = of_int (round_half_even (x / q)) * q
           in if 2 ^ 1024 \<le> v then PosInf else if v \<le> - (2 ^ 1024) then NegInf else Float v)"

text \<open>Addition and division of doubles.\<close>

fun f64_add :: "np_float \<Rightarrow> np_float \<Rightarrow> np_float" where
  "f64_add NaN _ = NaN"
| "f64_add _ NaN = NaN"
| "f64_add PosInf NegInf = NaN"
| "f64_add NegInf PosInf = NaN"
| "f64_add PosInf _ = PosInf"
| "f64_add _ PosInf = PosInf"
| "f64_add NegInf _ = NegInf"
| "f64_add _ NegInf = NegInf"
| "f64_add (Float a) (Float b) = f64_round (a + b)"

fun f64_div :: "np_float \<Rightarrow> np_float \<Rightarrow> np_float" where
  "f64_div NaN _ = NaN"
| "f64_div _ NaN = NaN"
| "f64_div (Float a) (Float b) =
     (if b = 0 then (if a = 0 then NaN else if 0 < a then PosInf else NegInf)
      else f64_round (a / b))"
| "f64_div (Float a) _ = Float 0"
| "f64_div PosInf (Float b) = (if b < 0 then NegInf else PosInf)"
| "f64_div NegInf (Float b) = (if b < 0 then PosInf else NegInf)"
| "f64_div _ _ = NaN"

subsection \<open>numpy.mean\<close>

text \<open>
  \<^verbatim>\<open>numpy.mean\<close> is library code, modelled from numpy's implementation for a list of
  Python floats, which is what the metrics of a classification report are. A Result
  keeps a metric as the real number that was written, and \<open>map f64_round\<close> is the array
  of the doubles that Python holds for them: the list becomes a contiguous \<^verbatim>\<open>float64\<close>
  array, \<^verbatim>\<open>add.reduce\<close> adds the pairwise sum of the whole array to the initial value 0,
  and the sum is divided by the number of elements. The pairwise sum of fewer than 8 elements adds them from left to
  right, starting from 0; of at most 128 elements, it keeps eight running sums over the
  blocks of eight, combines them as a binary tree and adds the remaining elements one by
  one; of more, it splits the array at a multiple of eight near the middle. On the empty
  list the division is zero by zero: numpy warns and returns NaN; it does not raise.
\<close>

fun accumulate8 :: "np_float list \<Rightarrow> np_float list \<Rightarrow> np_float list \<times> np_float list" where
  "accumulate8 r a =
     (if length a < 8 then (r, a)
      else accumulate8 (map2 f64_add r (take 8 a)) (drop 8 a))"

function pairwise_sum :: "np_float list \<Rightarrow> np_float" where
  "pairwise_sum a =
     (let n = length a in
      if n < 8 then foldl f64_add (Float 0) a
      else if n \<le> 128 then
        (let (r, rest) = accumulate8 (take 8 a) (drop 8 a);
             res = f64_add (f64_add (f64_add (r ! 0) (r ! 1)) (f64_add (r ! 2) (r ! 3)))
                           (f64_add (f64_add (r ! 4) (r ! 5)) (f64_add (r ! 6) (r ! 7)))
         in foldl f64_add res rest)
      else
        (let n2 = n div 2; n2 = n2 - n2 mod 8
         in f64_add (pairwise_sum (take n2 a)) (pairwise_sum (drop n2 a))))"
  by pat_completeness auto
termination
  by (relation "measure length") (auto simp: Let_def)

definition np_mean :: "real list \<Rightarrow> np_float" where
  "np_mean xs =
     f64_div (f64_add (Float 0) (pairwise_sum (map f64_round xs))) (f64_round (real (length xs)))"

subsection \<open>print_result\<close>

text \<open>
  What \<^verbatim>\<open>print_result\<close> writes to standard output, one value per \<^verbatim>\<open>print\<close> call,
  holding the numbers that the call formats (the formatting itself is not modelled).
\<close>

datatype printed =
    FoldHeader nat
  | FoldMetrics real real real
  | FoldBest real real
  | Separator
  | AvgHeader
  | AvgMetrics np_float np_float np_float

text \<open>The loop over \<^verbatim>\<open>enumerate(self.fold_results)\<close>; \<open>i\<close> is the index of the head.\<close>

fun print_folds :: "nat \<Rightarrow> Result list \<Rightarrow> printed list" where
  "print_folds i [] = []"
| "print_folds i (result # rest) =
     [FoldHeader (i + 1),
      FoldMetrics (precision result) (recall result) (f1_score result),
      FoldBest (best_epoch result) (best_acc result)]
     @ print_folds (i + 1) rest"

definition print_result :: "IterationResults \<Rightarrow> printed list \<times> (string \<rightharpoonup> np_float)" where
  "print_result self =
    (let out = print_folds 0 (fold_results self);
         avg_precision = np_mean (map precision (fold_results self));
         avg_recall = np_mean (map recall (fold_results self));
         avg_f1_score = np_mean (map f1_score (fold_results self));
         out = out @ [Separator, AvgHeader, AvgMetrics avg_precision avg_recall avg_f1_score]
     in (out,
         [''precision'' \<mapsto> avg_precision,
          ''recall'' \<mapsto> avg_recall,
          ''f1_score'' \<mapsto> avg_f1_score]))"

section \<open>network.py: the PyTorch layers it is built from\<close>

text \<open>
  \<^verbatim>\<open>network.py\<close> composes layers of \<^verbatim>\<open>torch.nn\<close>. The layers are library code; they are
  modelled here from their documented semantics, on the tensors that the network receives:
  two-dimensional, a batch of rows of features, with real elements (no NaN, no
  infinity, no rounding). The base class \<^verbatim>\<open>Classifier\<close> and the
  module \<^verbatim>\<open>config\<close> are not part of the sources at hand; \<^verbatim>\<open>Classifier\<close> is taken to be a
  plain \<^verbatim>\<open>torch.nn.Module\<close>, and the constants of \<^verbatim>\<open>config\<close> are a parameter.
\<close>

subsection \<open>Tensors\<close>

text \<open>
  A tensor of shape \<open>(batch, width)\<close>. The width is kept beside the rows because a tensor
  with no rows still has one.
\<close>

record tensor =
  width :: nat
  rows :: "real list list"

definition has_shape :: "tensor \<Rightarrow> nat \<Rightarrow> nat \<Rightarrow> bool" where
  "has_shape t b n = (length (rows t) = b \<and> width t = n \<and> list_all (\<lambda>r. length r = n) (rows t))"

text \<open>\<^verbatim>\<open>t * w\<close> for a one-element tensor \<open>w\<close>: broadcasting multiplies every element by it.\<close>

definition mul_scalar :: "tensor \<Rightarrow> real \<Rightarrow> tensor" where
  "mul_scalar t w = t\<lparr>rows := map (map (\<lambda>v. v * w)) (rows t)\<rparr>"

text \<open>\<^verbatim>\<open>F.relu\<close>: the maximum of zero and each element.\<close>

definition relu :: "tensor \<Rightarrow> tensor" where
  "relu t = t\<lparr>rows := map (map (max 0)) (rows t)\<rparr>"

text \<open>
  \<^verbatim>\<open>torch.cat(ts, -1)\<close> on two-dimensional tensors: the rows are joined, first tensor
  first. The batch sizes must agree, and the list must not be empty.
\<close>

fun torch_cat :: "tensor list \<Rightarrow> py_error + tensor" where
  "torch_cat [] = Inl RuntimeError"
| "torch_cat [t] = Inr t"
| "torch_cat (t # ts) =
     (case torch_cat ts of
        Inl e \<Rightarrow> Inl e
      | Inr u \<Rightarrow>
          if length (rows t) \<noteq> length (rows u) then Inl RuntimeError
          else Inr \<lparr>width = width t + width u, rows = map2 (@) (rows t) (rows u)\<rparr>)"

subsection \<open>Randomness\<close>

text \<open>
  Dropout samples a mask that says which elements are kept. The random generator is a
  stream of masks; a sampling call takes its head and leaves the tail.
\<close>

type_synonym mask = "nat \<Rightarrow> nat \<Rightarrow> bool"

type_synonym rng = "nat \<Rightarrow> mask"

subsection \<open>nn.Dropout\<close>

record dropout =
  drop_p :: real
  drop_training :: bool

text \<open>The constructor rejects a probability outside \<open>[0, 1]\<close>; a new module is in training mode.\<close>

definition Dropout_init :: "real \<Rightarrow> py_error + dropout" where
  "Dropout_init p =
     (if p < 0 \<or> 1 < p then Inl ValueError else Inr \<lparr>drop_p = p, drop_training = True\<rparr>)"

definition apply_mask :: "real \<Rightarrow> mask \<Rightarrow> tensor \<Rightarrow> tensor" where
  "apply_mask p m x =
     x\<lparr>rows := map2 (\<lambda>i r. map2 (\<lambda>j v. if m i j then v / (1 - p) else 0) [0..<length r] r)
                 [0..<length (rows x)] (rows x)\<rparr>"

text \<open>
  In evaluation mode, with probability 0, or on a tensor without elements, the input is
  returned and nothing is sampled. With probability 1 every element becomes zero.
  Otherwise the dropped elements become zero and the kept ones are divided by \<open>1 - p\<close>.
\<close>

definition Dropout_forward :: "dropout \<Rightarrow> rng \<Rightarrow> tensor \<Rightarrow> tensor \<times> rng" where
  "Dropout_forward d g x =
     (if drop_p d = 0 \<or> \<not> drop_training d \<or> rows x = [] \<or> width x = 0 then (x, g)
      else if drop_p d = 1 then (mul_scalar x 0, g)
      else (apply_mask (drop_p d) (g 0) x, g \<circ> Suc))"

subsection \<open>nn.Linear\<close>

record linear =
  in_features :: nat
  out_features :: nat
  lin_weight :: "real list list"
  lin_bias :: "real list"

text \<open>The weight has shape \<open>(out_features, in_features)\<close>, the bias has length \<open>out_features\<close>.\<close>

definition wf_linear :: "linear \<Rightarrow> bool" where
  "wf_linear l =
     (length (lin_weight l) = out_features l \<and>
      list_all (\<lambda>w. length w = in_features l) (lin_weight l) \<and>
      length (lin_bias l) = out_features l)"

text \<open>
  The constructor samples the initial weight and bias at random; the sampled values are
  an argument here, weight first.
\<close>

type_synonym draw = "(nat \<Rightarrow> nat \<Rightarrow> real) \<times> (nat \<Rightarrow> real)"

definition Linear_init :: "nat \<Rightarrow> nat \<Rightarrow> draw \<Rightarrow> linear" where
  "Linear_init i o' d =
     \<lparr>in_features = i, out_features = o',
      lin_weight = map (\<lambda>j. map (\<lambda>k. fst d j k) [0..<i]) [0..<o'],
      lin_bias = map (snd d) [0..<o']\<rparr>"

definition dot :: "real list \<Rightarrow> real list \<Rightarrow> real" where
  "dot u v = sum_list (map2 (*) u v)"

text \<open>\<open>y = x W\<^sup>T + b\<close>; an input of the wrong width is a shape mismatch.\<close>

definition Linear_forward :: "linear \<Rightarrow> tensor \<Rightarrow> py_error + tensor" where
  "Linear_forward l x =
     (if width x \<noteq> in_features l then Inl RuntimeError
      else Inr \<lparr>width = out_features l,
                rows = map (\<lambda>r. map2 (\<lambda>w b. dot r w + b) (lin_weight l) (lin_bias l)) (rows x)\<rparr>)"

subsection \<open>nn.BatchNorm1d\<close>

record batchnorm =
  num_features :: nat
  bn_eps :: real
  bn_momentum :: real
  bn_weight :: "real list"
  bn_bias :: "real list"
  running_mean :: "real list"
  running_var :: "real list"
  num_batches_tracked :: nat
  bn_training :: bool

definition wf_batchnorm :: "batchnorm \<Rightarrow> bool" where
  "wf_batchnorm bn =
     (length (bn_weight bn) = num_features bn \<and> length (bn_bias bn) = num_features bn \<and>
      length (running_mean bn) = num_features bn \<and> length (running_var bn) = num_features bn)"

definition BatchNorm1d_init :: "nat \<Rightarrow> batchnorm" where
  "BatchNorm1d_init n =
     \<lparr>num_features = n, bn_eps = 1 / 100000, bn_momentum = 1 / 10,
      bn_weight = replicate n 1, bn_bias = replicate n 0,
      running_mean = replicate n 0, running_var = replicate n 1,
      num_batches_tracked = 0, bn_training = True\<rparr>"

definition column :: "tensor \<Rightarrow> nat \<Rightarrow> real list" where
  "column x j = map (\<lambda>r. r ! j) (rows x)"

definition batch_mean :: "real list \<Rightarrow> real" where
  "batch_mean xs = sum_list xs / real (length xs)"

text \<open>The biased variance, with divisor \<open>N\<close>.\<close>

definition batch_var :: "real list \<Rightarrow> real" where
  "batch_var xs = batch_mean (map (\<lambda>v. (v - batch_mean xs)\<^sup>2) xs)"

definition normalize :: "tensor \<Rightarrow> real list \<Rightarrow> real list \<Rightarrow> batchnorm \<Rightarrow> tensor" where
  "normalize x mu var bn =
     x\<lparr>rows := map (\<lambda>r. map (\<lambda>j. (r ! j - mu ! j) / sqrt (var ! j + bn_eps bn) * bn_weight bn ! j
                                   + bn_bias bn ! j) [0..<width x]) (rows x)\<rparr>"

text \<open>
  The forward pass on an input of shape \<open>(N, C)\<close>. In training mode a batch of one row is
  refused (\<^verbatim>\<open>Expected more than 1 value per channel when training\<close>); this check comes
  before the comparison of \<open>C\<close> with \<open>num_features\<close>. In training mode the batch statistics
  normalise the input and the running statistics move towards them, the variance with
  divisor \<open>N - 1\<close>; in evaluation mode the running statistics normalise the input and the
  module does not change.
\<close>

definition BatchNorm1d_forward :: "batchnorm \<Rightarrow> tensor \<Rightarrow> py_error + tensor \<times> batchnorm" where
  "BatchNorm1d_forward bn x =
     (if bn_training bn \<and> length (rows x) = 1 then Inl ValueError
      else if length (rows x) = 0 \<or> width x = 0 then Inl ZeroElementTensor
      else if width x \<noteq> num_features bn then Inl RuntimeError
      else if bn_training bn then
        (let n = real (length (rows x));
             mu = map (\<lambda>j. batch_mean (column x j)) [0..<width x];
             var = map (\<lambda>j. batch_var (column x j)) [0..<width x];
             m = bn_momentum bn
         in Inr (normalize x mu var bn,
                 bn\<lparr>running_mean := map2 (\<lambda>old new. (1 - m) * old + m * new) (running_mean bn) mu,
                    running_var := map2 (\<lambda>old new. (1 - m) * old + m * (new * n / (n - 1)))
                                     (running_var bn) var,
                    num_batches_tracked := num_batches_tracked bn + 1\<rparr>))
      else Inr (normalize x (running_mean bn) (running_var bn) bn, bn))"

section \<open>network.py\<close>

text \<open>
  A call that raises is propagated to the caller. The state of the modules after a call
  that raised is not tracked.
\<close>

definition and_then :: "'e + 'a \<Rightarrow> ('a \<Rightarrow> 'e + 'b) \<Rightarrow> 'e + 'b" where
  "and_then m f = (case m of Inl e \<Rightarrow> Inl e | Inr v \<Rightarrow> f v)"

subsection \<open>ModalityFusion\<close>

text \<open>Each weight is \<^verbatim>\<open>nn.Parameter(torch.ones(1))\<close>, a tensor of one element.\<close>

record ModalityFusion =
  weight_1 :: real
  weight_2 :: real
  weight_3 :: real

definition ModalityFusion_init :: ModalityFusion where
  "ModalityFusion_init = \<lparr>weight_1 = 1, weight_2 = 1, weight_3 = 1\<rparr>"

definition ModalityFusion_forward ::
    "ModalityFusion \<Rightarrow> tensor \<Rightarrow> tensor \<Rightarrow> tensor \<Rightarrow> py_error + tensor" where
  "ModalityFusion_forward self text_t audio_t video_t =
     (let text_w = mul_scalar text_t (weight_1 self);
          audio_w = mul_scalar audio_t (weight_2 self);
          video_w = mul_scalar video_t (weight_3 self)
      in torch_cat [text_w, audio_w, video_w])"

subsection \<open>SubNet\<close>

record SubNet =
  norm_layer :: batchnorm
  drop_layer :: dropout
  linear_1 :: linear
  linear_2 :: linear
  linear_3 :: linear

text \<open>\<open>draws k\<close> holds the initial values of the \<open>k\<close>-th linear layer.\<close>

definition SubNet_init :: "nat \<Rightarrow> nat \<Rightarrow> real \<Rightarrow> (nat \<Rightarrow> draw) \<Rightarrow> py_error + SubNet" where
  "SubNet_init in_size hidden_size dropout_p draws =
     and_then (Dropout_init dropout_p) (\<lambda>d.
       Inr \<lparr>norm_layer = BatchNorm1d_init in_size,
            drop_layer = d,
            linear_1 = Linear_init in_size hidden_size (draws 0),
            linear_2 = Linear_init hidden_size hidden_size (draws 1),
            linear_3 = Linear_init hidden_size hidden_size (draws 2)\<rparr>)"

definition SubNet_forward :: "SubNet \<Rightarrow> rng \<Rightarrow> tensor \<Rightarrow> py_error + tensor \<times> SubNet \<times> rng" where
  "SubNet_forward self g x =
     and_then (BatchNorm1d_forward (norm_layer self) x) (\<lambda>(normed, norm').
     let (dropped, g) = Dropout_forward (drop_layer self) g normed in
     and_then (Linear_forward (linear_1 self) dropped) (\<lambda>z_1. let y_1 = relu z_1 in
     and_then (Linear_forward (linear_2 self) y_1) (\<lambda>z_2. let y_2 = relu z_2 in
     and_then (Linear_forward (linear_3 self) y_2) (\<lambda>z_3. let y_3 = relu z_3 in
     Inr (y_3, self\<lparr>norm_layer := norm'\<rparr>, g)))))"

subsection \<open>WeightedMultiModalFusionNetwork\<close>

text \<open>The constants that \<^verbatim>\<open>network.py\<close> reads from \<^verbatim>\<open>config\<close>.\<close>

record config =
  VIDEO_DIM :: nat
  VIDEO_HIDDEN :: nat
  VIDEO_DROPOUT :: real
  AUDIO_DIM :: nat
  AUDIO_HIDDEN :: nat
  AUDIO_DROPOUT :: real
  TEXT_DIM :: nat
  TEXT_HIDDEN :: nat
  TEXT_DROPOUT :: real
  CONTEXT_HIDDEN :: nat
  CONTEXT_DROPOUT :: real
  SPEAKER_HIDDEN :: nat
  SPEAKER_DROPOUT :: real
  POST_FUSION_DROPOUT :: real
  POST_FUSION_DIM :: nat

record WeightedMultiModalFusionNetwork =
  video_subnet :: SubNet
  audio_subnet :: SubNet
  text_subnet :: SubNet
  context_subnet :: SubNet
  speaker_subnet :: SubNet
  fusion :: ModalityFusion
  post_fusion_dropout :: dropout
  post_fusion_layer_1 :: linear
  post_fusion_layer_2 :: linear
  post_fusion_layer_3 :: linear
  fc :: linear

text \<open>
  \<^verbatim>\<open>WeightedMultiModalFusionNetwork.__init__\<close>. \<open>draws s\<close> holds the initial values of the
  linear layers of the \<open>s\<close>-th subnet, and \<open>draws 5\<close> those of the four layers after the
  fusion.
\<close>

definition WeightedMultiModalFusionNetwork_init ::
    "config \<Rightarrow> nat \<Rightarrow> (nat \<Rightarrow> nat \<Rightarrow> draw)
       \<Rightarrow> py_error + WeightedMultiModalFusionNetwork" where
  "WeightedMultiModalFusionNetwork_init cfg speaker_num draws =
     and_then (SubNet_init (VIDEO_DIM cfg) (VIDEO_HIDDEN cfg) (VIDEO_DROPOUT cfg) (draws 0)) (\<lambda>vs.
     and_then (SubNet_init (AUDIO_DIM cfg) (AUDIO_HIDDEN cfg) (AUDIO_DROPOUT cfg) (draws 1)) (\<lambda>as.
     and_then (SubNet_init (TEXT_DIM cfg) (TEXT_HIDDEN cfg) (TEXT_DROPOUT cfg) (draws 2)) (\<lambda>ts.
     and_then (SubNet_init (TEXT_DIM cfg) (CONTEXT_HIDDEN cfg) (CONTEXT_DROPOUT cfg) (draws 3)) (\<lambda>cs.
     and_then (SubNet_init speaker_num (SPEAKER_HIDDEN cfg) (SPEAKER_DROPOUT cfg) (draws 4)) (\<lambda>ss.
     and_then (Dropout_init (POST_FUSION_DROPOUT cfg)) (\<lambda>pd.
       Inr \<lparr>video_subnet = vs, audio_subnet = as, text_subnet = ts, context_subnet = cs,
            speaker_subnet = ss,
            fusion = ModalityFusion_init,
            post_fusion_dropout = pd,
            post_fusion_layer_1 =
              Linear_init (TEXT_HIDDEN cfg + VIDEO_HIDDEN cfg + AUDIO_HIDDEN cfg)
                (POST_FUSION_DIM cfg) (draws 5 0),
            post_fusion_layer_2 =
              Linear_init (POST_FUSION_DIM cfg) (POST_FUSION_DIM cfg) (draws 5 1),
            post_fusion_layer_3 =
              Linear_init (POST_FUSION_DIM cfg + SPEAKER_HIDDEN cfg + CONTEXT_HIDDEN cfg)
                (POST_FUSION_DIM cfg) (draws 5 2),
            fc = Linear_init (POST_FUSION_DIM cfg) 2 (draws 5 3)\<rparr>))))))"

text \<open>
  \<^verbatim>\<open>WeightedMultiModalFusionNetwork.forward\<close>. The call returns the output, the network
  with the batch-norm statistics that the call left, and the random generator.
\<close>

definition WeightedMultiModalFusionNetwork_forward ::
    "WeightedMultiModalFusionNetwork \<Rightarrow> rng
       \<Rightarrow> tensor \<Rightarrow> tensor \<Rightarrow> tensor \<Rightarrow> tensor \<Rightarrow> tensor
       \<Rightarrow> py_error + tensor \<times> WeightedMultiModalFusionNetwork \<times> rng" where
  "WeightedMultiModalFusionNetwork_forward self g text_x video_x audio_x speaker_x context_x =
     and_then (SubNet_forward (video_subnet self) g video_x) (\<lambda>(video_h, video_subnet', g).
     and_then (SubNet_forward (audio_subnet self) g audio_x) (\<lambda>(audio_h, audio_subnet', g).
     and_then (SubNet_forward (text_subnet self) g text_x) (\<lambda>(text_h, text_subnet', g).
     and_then (SubNet_forward (speaker_subnet self) g speaker_x) (\<lambda>(speaker_h, speaker_subnet', g).
     and_then (SubNet_forward (context_subnet self) g context_x) (\<lambda>(context_h, context_subnet', g).
     and_then (ModalityFusion_forward (fusion self) text_h audio_h video_h) (\<lambda>fusion_h.
     let (x, g) = Dropout_forward (post_fusion_dropout self) g fusion_h in
     and_then (Linear_forward (post_fusion_layer_1 self) x) (\<lambda>x. let x = relu x in
     let (x, g) = Dropout_forward (post_fusion_dropout self) g x in
     and_then (Linear_forward (post_fusion_layer_2 self) x) (\<lambda>x. let x = relu x in
     and_then (torch_cat [x, speaker_h, context_h]) (\<lambda>late_fusion.
     let (x, g) = Dropout_forward (post_fusion_dropout self) g late_fusion in
     and_then (Linear_forward (post_fusion_layer_3 self) x) (\<lambda>x. let x = relu x in
     let (x, g) = Dropout_forward (post_fusion_dropout self) g x in
     and_then (Linear_forward (fc self) x) (\<lambda>out.
     Inr (out,
          self\<lparr>video_subnet := video_subnet', audio_subnet := audio_subnet',
               text_subnet := text_subnet', speaker_subnet := speaker_subnet',
               context_subnet := context_subnet'\<rparr>,
          g))))))))))))"

text \<open>\<^verbatim>\<open>nn.Module.eval()\<close> switches every submodule to evaluation mode.\<close>

definition SubNet_eval :: "SubNet \<Rightarrow> SubNet" where
  "SubNet_eval s =
     s\<lparr>norm_layer := (norm_layer s)\<lparr>bn_training := False\<rparr>,
       drop_layer := (drop_layer s)\<lparr>drop_training := False\<rparr>\<rparr>"

definition network_eval ::
    "WeightedMultiModalFusionNetwork \<Rightarrow> WeightedMultiModalFusionNetwork" where
  "network_eval self =
     self\<lparr>video_subnet := SubNet_eval (video_subnet self),
          audio_subnet := SubNet_eval (audio_subnet self),
          text_subnet := SubNet_eval (text_subnet self),
          context_subnet := SubNet_eval (context_subnet self),
          speaker_subnet := SubNet_eval (speaker_subnet self),
          post_fusion_dropout := (post_fusion_dropout self)\<lparr>drop_training := False\<rparr>\<rparr>"

subsection \<open>What the constructors establish\<close>

text \<open>
  The optimiser changes the values of the parameters after construction, in place. What
  stays is the layout that the constructors gave: the sizes of the layers and the shapes
  of their parameter tensors.
\<close>

definition sized_linear :: "linear \<Rightarrow> nat \<Rightarrow> nat \<Rightarrow> bool" where
  "sized_linear l i o' = (in_features l = i \<and> out_features l = o' \<and> wf_linear l)"

text \<open>A subnet as \<^verbatim>\<open>SubNet(in_size, hidden_size, dropout)\<close> lays it out.\<close>

definition SubNet_sized :: "nat \<Rightarrow> nat \<Rightarrow> SubNet \<Rightarrow> bool" where
  "SubNet_sized in_size hidden_size s =
     (num_features (norm_layer s) = in_size \<and> wf_batchnorm (norm_layer s) \<and>
      sized_linear (linear_1 s) in_size hidden_size \<and>
      sized_linear (linear_2 s) hidden_size hidden_size \<and>
      sized_linear (linear_3 s) hidden_size hidden_size)"

text \<open>A network as \<^verbatim>\<open>WeightedMultiModalFusionNetwork(speaker_num)\<close> lays it out under \<open>cfg\<close>.\<close>

definition has_config :: "config \<Rightarrow> nat \<Rightarrow> WeightedMultiModalFusionNetwork \<Rightarrow> bool" where
  "has_config cfg speaker_num self =
     (SubNet_sized (VIDEO_DIM cfg) (VIDEO_HIDDEN cfg) (video_subnet self) \<and>
      SubNet_sized (AUDIO_DIM cfg) (AUDIO_HIDDEN cfg) (audio_subnet self) \<and>
      SubNet_sized (TEXT_DIM cfg) (TEXT_HIDDEN cfg) (text_subnet self) \<and>
      SubNet_sized (TEXT_DIM cfg) (CONTEXT_HIDDEN cfg) (context_subnet self) \<and>
      SubNet_sized speaker_num (SPEAKER_HIDDEN cfg) (speaker_subnet self) \<and>
      sized_linear (post_fusion_layer_1 self)
        (TEXT_HIDDEN cfg + VIDEO_HIDDEN cfg + AUDIO_HIDDEN cfg) (POST_FUSION_DIM cfg) \<and>
      sized_linear (post_fusion_layer_2 self) (POST_FUSION_DIM cfg) (POST_FUSION_DIM cfg) \<and>
      sized_linear (post_fusion_layer_3 self)
        (POST_FUSION_DIM cfg + SPEAKER_HIDDEN cfg + CONTEXT_HIDDEN cfg) (POST_FUSION_DIM cfg) \<and>
      sized_linear (fc self) (POST_FUSION_DIM cfg) 2)"

text \<open>
  Evaluation mode: no dropout layer and no batch-norm layer is in training mode. The
  weaker \<open>norms_in_eval\<close> asks this of the batch-norm layers only.
\<close>

definition SubNet_in_eval :: "SubNet \<Rightarrow> bool" where
  "SubNet_in_eval s = (\<not> bn_training (norm_layer s) \<and> \<not> drop_training (drop_layer s))"

definition norms_in_eval :: "WeightedMultiModalFusionNetwork \<Rightarrow> bool" where
  "norms_in_eval self =
     (\<not> bn_training (norm_layer (video_subnet self)) \<and>
      \<not> bn_training (norm_layer (audio_subnet self)) \<and>
      \<not> bn_training (norm_layer (text_subnet self)) \<and>
      \<not> bn_training (norm_layer (context_subnet self)) \<and>
      \<not> bn_training (norm_layer (speaker_subnet self)))"

definition in_eval_mode :: "WeightedMultiModalFusionNetwork \<Rightarrow> bool" where
  "in_eval_mode self =
     (SubNet_in_eval (video_subnet self) \<and> SubNet_in_eval (audio_subnet self) \<and>
      SubNet_in_eval (text_subnet self) \<and> SubNet_in_eval (context_subnet self) \<and>
      SubNet_in_eval (speaker_subnet self) \<and> \<not> drop_training (post_fusion_dropout self))"

section \<open>Reference values and specification-side definitions\<close>

text \<open>
  The keys that the specification requires of a classification report: a
  \<^verbatim>\<open>"weighted avg"\<close> entry with \<^verbatim>\<open>"precision"\<close>, \<^verbatim>\<open>"recall"\<close> and \<^verbatim>\<open>"f1-score"\<close>, and a
  \<^verbatim>\<open>"best_result"\<close> entry with \<^verbatim>\<open>"best_acc"\<close> and \<^verbatim>\<open>"best_epoch"\<close>.
\<close>

definition has_required_keys :: "report \<Rightarrow> bool" where
  "has_required_keys cr =
    ((case cr ''weighted avg'' of
        None \<Rightarrow> False
      | Some wa \<Rightarrow> wa ''precision'' \<noteq> None \<and> wa ''recall'' \<noteq> None \<and> wa ''f1-score'' \<noteq> None)
     \<and>
     (case cr ''best_result'' of
        None \<Rightarrow> False
      | Some br \<Rightarrow> br ''best_acc'' \<noteq> None \<and> br ''best_epoch'' \<noteq> None))"

text \<open>The report of the specification's example, and the same report without its second entry.\<close>

definition example_report :: report where
  "example_report =
     [''weighted avg'' \<mapsto> [''precision'' \<mapsto> 0.8, ''recall'' \<mapsto> 0.7, ''f1-score'' \<mapsto> 0.75],
      ''best_result'' \<mapsto> [''best_acc'' \<mapsto> 0.9, ''best_epoch'' \<mapsto> 3]]"

definition report_without_best :: report where
  "report_without_best =
     [''weighted avg'' \<mapsto> [''precision'' \<mapsto> 0.8, ''recall'' \<mapsto> 0.7, ''f1-score'' \<mapsto> 0.75]]"

text \<open>Two folds, with precision 0.8 and 0.6.\<close>

definition fold_a :: Result where
  "fold_a = \<lparr>best_acc = 0.9, best_epoch = 3, precision = 0.8, recall = 0.7, f1_score = 0.75\<rparr>"

definition fold_b :: Result where
  "fold_b = \<lparr>best_acc = 0.85, best_epoch = 5, precision = 0.6, recall = 0.5, f1_score = 0.55\<rparr>"

text \<open>Three folds, with precision 0.1, 0.2 and 0.3.\<close>

definition fold_c :: Result where
  "fold_c = \<lparr>best_acc = 0.5, best_epoch = 1, precision = 0.1, recall = 0.1, f1_score = 0.1\<rparr>"

definition fold_d :: Result where
  "fold_d = \<lparr>best_acc = 0.5, best_epoch = 2, precision = 0.2, recall = 0.2, f1_score = 0.2\<rparr>"

definition fold_e :: Result where
  "fold_e = \<lparr>best_acc = 0.5, best_epoch = 3, precision = 0.3, recall = 0.3, f1_score = 0.3\<rparr>"

subsection \<open>The distance of numpy.mean from the arithmetic mean\<close>

text \<open>
  The bound on the distance between the double that \<^verbatim>\<open>numpy.mean\<close> returns for \<open>xs\<close> and
  the arithmetic mean of \<open>xs\<close>: a relative part, \<open>(n + 3) / 2\<^sup>5\<^sup>2\<close> of the mean of the absolute
  values, and an absolute part for results in the subnormal range.
\<close>

definition mean_error_bound :: "real list \<Rightarrow> real" where
  "mean_error_bound xs =
     (real (length xs) + 3) / 2 ^ 52 * (sum_list (map abs xs) / real (length xs)) + 3 / 2 ^ 1075"

definition near_mean :: "real list \<Rightarrow> np_float \<Rightarrow> bool" where
  "near_mean xs r =
     (case r of
        Float v \<Rightarrow> \<bar>v - sum_list xs / real (length xs)\<bar> \<le> mean_error_bound xs
      | _ \<Rightarrow> False)"

text \<open>
  The quantities of the error analysis. Every finite double is a multiple of \<open>2\<^sup>-\<^sup>1\<^sup>0\<^sup>7\<^sup>4\<close>;
  \<open>err_factor d\<close> is the relative error that \<open>d\<close> roundings in sequence can build up;
  \<open>approx d A B s\<close> says that \<open>s\<close> is a finite double that stands for the exact sum \<open>A\<close> of
  numbers whose absolute values sum to \<open>B\<close>, after at most \<open>d\<close> roundings. \<open>approx_vec\<close> is
  the same for the eight running sums of \<open>accumulate8\<close>, and \<open>feed\<close> adds a block of
  eight numbers to the exact sums that they stand for.
\<close>

definition on_grid :: "real \<Rightarrow> bool" where
  "on_grid v = (\<exists>k::int. v = of_int k * 2 powi (- 1074))"

definition err_factor :: "nat \<Rightarrow> real" where
  "err_factor d = (1 + 1 / 2 ^ 53) ^ d - 1"

definition approx :: "nat \<Rightarrow> real \<Rightarrow> real \<Rightarrow> np_float \<Rightarrow> bool" where
  "approx d A B s =
     (\<exists>v. s = Float v \<and> on_grid v \<and> \<bar>v - A\<bar> \<le> err_factor d * B \<and> \<bar>A\<bar> \<le> B)"

definition approx_vec :: "nat \<Rightarrow> (real \<times> real) list \<Rightarrow> np_float list \<Rightarrow> bool" where
  "approx_vec d XS rs = list_all2 (\<lambda>X s. approx d (fst X) (snd X) s) XS rs"

definition feed :: "(real \<times> real) list \<Rightarrow> real list \<Rightarrow> (real \<times> real) list" where
  "feed XS c = map2 (\<lambda>X x. (fst X + x, snd X + \<bar>x\<bar>)) XS c"

subsection \<open>The order of operations, as the specification lists it\<close>

text \<open>
  The specification describes the two forward passes as a sequence of operations applied
  one after the other. A stage is one such operation; \<open>Concat_stage a b\<close> joins the running
  value with \<open>a\<close> and \<open>b\<close>, in this order.
\<close>

datatype stage =
    Dropout_stage
  | Linear_stage linear
  | ReLU_stage
  | Concat_stage tensor tensor

fun run_stage :: "dropout \<Rightarrow> stage \<Rightarrow> tensor \<times> rng \<Rightarrow> py_error + tensor \<times> rng" where
  "run_stage d Dropout_stage (x, g) = Inr (Dropout_forward d g x)"
| "run_stage d (Linear_stage l) (x, g) = and_then (Linear_forward l x) (\<lambda>y. Inr (y, g))"
| "run_stage d ReLU_stage (x, g) = Inr (relu x, g)"
| "run_stage d (Concat_stage a b) (x, g) = and_then (torch_cat [x, a, b]) (\<lambda>y. Inr (y, g))"

fun run_stages :: "dropout \<Rightarrow> stage list \<Rightarrow> tensor \<times> rng \<Rightarrow> py_error + tensor \<times> rng" where
  "run_stages d [] xg = Inr xg"
| "run_stages d (s # ss) xg = and_then (run_stage d s xg) (run_stages d ss)"

text \<open>
  SubNet: batch normalisation, then dropout, then three linear projections with a
  rectified-linear activation after each.
\<close>

definition SubNet_stages :: "SubNet \<Rightarrow> stage list" where
  "SubNet_stages s =
     [Dropout_stage,
      Linear_stage (linear_1 s), ReLU_stage,
      Linear_stage (linear_2 s), ReLU_stage,
      Linear_stage (linear_3 s), ReLU_stage]"

definition SubNet_spec :: "SubNet \<Rightarrow> rng \<Rightarrow> tensor \<Rightarrow> py_error + tensor \<times> SubNet \<times> rng" where
  "SubNet_spec s g x =
     and_then (BatchNorm1d_forward (norm_layer s) x) (\<lambda>(normed, norm').
     and_then (run_stages (drop_layer s) (SubNet_stages s) (normed, g)) (\<lambda>(y, g).
     Inr (y, s\<lparr>norm_layer := norm'\<rparr>, g)))"

text \<open>
  The network after the fusion: dropout, linear, ReLU, dropout, linear, ReLU,
  concatenation with the speaker and context encodings, dropout, linear, ReLU, dropout,
  and the final linear layer without activation.
\<close>

definition head_stages :: "WeightedMultiModalFusionNetwork \<Rightarrow> tensor \<Rightarrow> tensor \<Rightarrow> stage list" where
  "head_stages self speaker_h context_h =
     [Dropout_stage, Linear_stage (post_fusion_layer_1 self), ReLU_stage,
      Dropout_stage, Linear_stage (post_fusion_layer_2 self), ReLU_stage,
      Concat_stage speaker_h context_h,
      Dropout_stage, Linear_stage (post_fusion_layer_3 self), ReLU_stage,
      Dropout_stage, Linear_stage (fc self)]"

text \<open>
  Each input goes through its own subnet; text, audio and video are fused; the stages
  above follow. The specification leaves the order of the five encoders open, and the order
  of the code is used.
\<close>

definition WeightedMultiModalFusionNetwork_spec ::
    "WeightedMultiModalFusionNetwork \<Rightarrow> rng
       \<Rightarrow> tensor \<Rightarrow> tensor \<Rightarrow> tensor \<Rightarrow> tensor \<Rightarrow> tensor
       \<Rightarrow> py_error + tensor \<times> WeightedMultiModalFusionNetwork \<times> rng" where
  "WeightedMultiModalFusionNetwork_spec self g text_x video_x audio_x speaker_x context_x =
     and_then (SubNet_spec (video_subnet self) g video_x) (\<lambda>(video_h, vs, g).
     and_then (SubNet_spec (audio_subnet self) g audio_x) (\<lambda>(audio_h, as, g).
     and_then (SubNet_spec (text_subnet self) g text_x) (\<lambda>(text_h, ts, g).
     and_then (SubNet_spec (speaker_subnet self) g speaker_x) (\<lambda>(speaker_h, ss, g).
     and_then (SubNet_spec (context_subnet self) g context_x) (\<lambda>(context_h, cs, g).
     and_then (ModalityFusion_forward (fusion self) text_h audio_h video_h) (\<lambda>fusion_h.
     and_then (run_stages (post_fusion_dropout self) (head_stages self speaker_h context_h)
                 (fusion_h, g)) (\<lambda>(out, g).
     Inr (out,
          self\<lparr>video_subnet := vs, audio_subnet := as, text_subnet := ts,
               speaker_subnet := ss, context_subnet := cs\<rparr>,
          g))))))))"

subsection \<open>Example tensors and an example network\<close>

text \<open>\<^verbatim>\<open>torch.ones(b, n)\<close>.\<close>

definition ones :: "nat \<Rightarrow> nat \<Rightarrow> tensor" where
  "ones b n = \<lparr>width = n, rows = replicate b (replicate n 1)\<rparr>"

definition example_config :: config where
  "example_config =
     \<lparr>VIDEO_DIM = 2, VIDEO_HIDDEN = 1, VIDEO_DROPOUT = 1 / 2,
      AUDIO_DIM = 1, AUDIO_HIDDEN = 1, AUDIO_DROPOUT = 1 / 2,
      TEXT_DIM = 3, TEXT_HIDDEN = 2, TEXT_DROPOUT = 1 / 2,
      CONTEXT_HIDDEN = 1, CONTEXT_DROPOUT = 1 / 2,
      SPEAKER_HIDDEN = 1, SPEAKER_DROPOUT = 1 / 2,
      POST_FUSION_DROPOUT = 1 / 2, POST_FUSION_DIM = 2\<rparr>"

definition example_draws :: "nat \<Rightarrow> nat \<Rightarrow> draw" where
  "example_draws s k = (\<lambda>j i. 1, \<lambda>j. 0)"

text \<open>The network that the constructor returns for two speakers, in training mode.\<close>

definition example_net :: WeightedMultiModalFusionNetwork where
  "example_net = projr (WeightedMultiModalFusionNetwork_init example_config 2 example_draws)"

text \<open>A subnet for inputs of width 3 and hidden size 2, as the constructor returns it.\<close>

definition example_subnet :: SubNet where
  "example_subnet = projr (SubNet_init 3 2 (1 / 2) (example_draws 0))"

text \<open>Two random generators: one drops every element, the other keeps every element.\<close>

definition drop_all :: rng where
  "drop_all k i j = False"

definition keep_all :: rng where
  "keep_all k i j = True"

text \<open>Three encodings of a batch of two, of widths 2, 1 and 3.\<close>

definition text_ex :: tensor where
  "text_ex = \<lparr>width = 2, rows = [[1, 2], [3, 4]]\<rparr>"

definition audio_ex :: tensor where
  "audio_ex = \<lparr>width = 1, rows = [[5], [6]]\<rparr>"

definition video_ex :: tensor where
  "video_ex = \<lparr>width = 3, rows = [[7, 8, 9], [10, 11, 12]]\<rparr>"

section \<open>Properties of the binary64 arithmetic\<close>

subsection \<open>Exponent and rounding\<close>

lemma powi_neg: "0 \<le> n \<Longrightarrow> (2::real) powi (- n) = 1 / 2 ^ nat n"
  by (simp add: power_int_minus_divide power_int_nonneg_exp)

lemma f64_exponent_bounds:
  assumes "x \<noteq> 0"
  shows "2 powi (f64_exponent x) \<le> \<bar>x\<bar>" and "\<bar>x\<bar> < 2 powi (f64_exponent x + 1)"
proof -
  let ?a = "\<bar>x\<bar>"
  have a: "0 < ?a" using assms by simp
  show "2 powi (f64_exponent x) \<le> \<bar>x\<bar>" and "\<bar>x\<bar> < 2 powi (f64_exponent x + 1)"
  proof (atomize(full), cases "1 \<le> ?a")
    case True
    let ?m = "\<lfloor>?a\<rfloor>"
    from True have m: "0 < ?m" by linarith
    have b1: "bitlen ?m \<ge> 1" using m by (simp add: bitlen_alt_def)
    from bitlen_bounds [OF m] have lo: "2 ^ nat (bitlen ?m - 1) \<le> ?m" and hi: "?m < 2 ^ nat (bitlen ?m)"
      by simp_all
    have e: "f64_exponent x = bitlen ?m - 1" using True by (simp add: f64_exponent_def)
    have "(2::real) powi (bitlen ?m - 1) = 2 ^ nat (bitlen ?m - 1)"
      using b1 by (simp add: power_int_def)
    also have "\<dots> = of_int (2 ^ nat (bitlen ?m - 1))" by simp
    also have "\<dots> \<le> of_int ?m" using lo by (simp only: of_int_le_iff)
    also have "\<dots> \<le> ?a" by simp
    finally have 1: "2 powi (f64_exponent x) \<le> ?a" by (simp add: e)
    have "?m + 1 \<le> 2 ^ nat (bitlen ?m)" using hi by simp
    then have "real_of_int (?m + 1) \<le> of_int (2 ^ nat (bitlen ?m))" by (simp only: of_int_le_iff)
    then have "real_of_int ?m + 1 \<le> 2 ^ nat (bitlen ?m)" by simp
    moreover have "?a < of_int ?m + 1" by linarith
    ultimately have "?a < 2 ^ nat (bitlen ?m)" by linarith
    also have "(2::real) ^ nat (bitlen ?m) = 2 powi (bitlen ?m)"
      using b1 by (simp add: power_int_def)
    finally have 2: "?a < 2 powi (f64_exponent x + 1)" by (simp add: e)
    from 1 2 show "2 powi (f64_exponent x) \<le> \<bar>x\<bar> \<and> \<bar>x\<bar> < 2 powi (f64_exponent x + 1)" by simp
  next
    case False
    let ?y = "1 / ?a"
    let ?t = "\<lceil>?y\<rceil> - 1"
    from False a have y: "1 < ?y" by simp
    then have t: "0 < ?t" by linarith
    let ?b = "bitlen ?t"
    have b1: "?b \<ge> 1" using t by (simp add: bitlen_alt_def)
    from bitlen_bounds [OF t] have lo: "2 ^ nat (?b - 1) \<le> ?t" and hi: "?t < 2 ^ nat ?b"
      by simp_all
    have e: "f64_exponent x = - ?b" using False by (simp add: f64_exponent_def)
    have "\<lceil>?y\<rceil> \<le> 2 ^ nat ?b" using hi by simp
    then have "real_of_int \<lceil>?y\<rceil> \<le> of_int (2 ^ nat ?b)" by (simp only: of_int_le_iff)
    then have "?y \<le> 2 ^ nat ?b" by (simp add: ceiling_le_iff) 
    then have "1 \<le> 2 ^ nat ?b * ?a" using a by (simp add: field_simps)
    then have "1 / 2 ^ nat ?b \<le> ?a" by (simp add: field_simps)
    moreover have "(2::real) powi (- ?b) = 1 / 2 ^ nat ?b"
      using b1 by (intro powi_neg) simp
    ultimately have 1: "2 powi (f64_exponent x) \<le> ?a" by (simp add: e)
    have "2 ^ nat (?b - 1) < \<lceil>?y\<rceil>" using lo by simp
    then have "real_of_int (2 ^ nat (?b - 1)) < ?y" by (simp only: less_ceiling_iff)
    then have "2 ^ nat (?b - 1) * ?a < 1" using a by (simp add: field_simps)
    then have "?a < 1 / 2 ^ nat (?b - 1)" by (simp add: field_simps)
    moreover have "(2::real) powi (f64_exponent x + 1) = 1 / 2 ^ nat (?b - 1)"
    proof -
      have eq: "f64_exponent x + 1 = - (?b - 1)" using e by simp
      have "0 \<le> ?b - 1" using b1 by simp
      then show ?thesis unfolding eq by (rule powi_neg)
    qed
    ultimately have 2: "?a < 2 powi (f64_exponent x + 1)" by simp
    from 1 2 show "2 powi (f64_exponent x) \<le> \<bar>x\<bar> \<and> \<bar>x\<bar> < 2 powi (f64_exponent x + 1)" by simp
  qed
qed

lemma f64_exponent_eqI:
  assumes lo: "2 powi e \<le> \<bar>x\<bar>" and hi: "\<bar>x\<bar> < 2 powi (e + 1)"
  shows "f64_exponent x = e"
proof -
  have x: "x \<noteq> 0"
  proof
    assume "x = 0"
    with lo have "2 powi e \<le> (0::real)" by simp
    moreover have "0 < (2::real) powi e" by simp
    ultimately show False by linarith
  qed
  note b = f64_exponent_bounds [OF x]
  let ?e = "f64_exponent x"
  have "\<not> ?e < e"
  proof
    assume "?e < e"
    then have "(2::real) powi (?e + 1) \<le> 2 powi e" by (intro power_int_increasing) simp_all
    with b(2) lo show False by linarith
  qed
  moreover have "\<not> e < ?e"
  proof
    assume "e < ?e"
    then have "(2::real) powi (e + 1) \<le> 2 powi ?e" by (intro power_int_increasing) simp_all
    with b(1) hi show False by linarith
  qed
  ultimately show ?thesis by simp
qed

lemma round_half_even_error: "\<bar>of_int (round_half_even m) - m\<bar> \<le> 1 / 2"
  unfolding round_half_even_def Let_def by (simp; linarith)

lemma round_half_even_near:
  assumes "\<bar>of_int k - m\<bar> < 1 / 2"
  shows "round_half_even m = k"
proof -
  have "\<lfloor>m\<rfloor> = k \<or> \<lfloor>m\<rfloor> = k - 1" using assms by linarith
  then show ?thesis
    using assms unfolding round_half_even_def Let_def by (auto; linarith)
qed

lemma round_half_even_of_int [simp]: "round_half_even (of_int k) = k"
  by (rule round_half_even_near) simp

lemma round_half_even_tie_up:
  assumes "m = of_int k - 1 / 2" and "even k"
  shows "round_half_even m = k"
proof -
  have f: "\<lfloor>m\<rfloor> = k - 1" using assms(1) by linarith
  show ?thesis using assms unfolding round_half_even_def Let_def f by simp
qed

lemma round_half_even_tie_down:
  assumes "m = of_int k + 1 / 2" and "even k"
  shows "round_half_even m = k"
proof -
  have f: "\<lfloor>m\<rfloor> = k" using assms(1) by linarith
  show ?thesis using assms unfolding round_half_even_def Let_def f by simp
qed

lemma f64_round_eqI:
  assumes lo: "2 powi e \<le> \<bar>x\<bar>" and hi: "\<bar>x\<bar> < 2 powi (e + 1)"
    and k: "round_half_even (x / 2 powi (max e (- 1022) - 52)) = k"
    and fin: "\<bar>real_of_int k * 2 powi (max e (- 1022) - 52)\<bar> < 2 ^ 1024"
  shows "f64_round x = Float (of_int k * 2 powi (max e (- 1022) - 52))"
proof -
  have x: "x \<noteq> 0"
  proof
    assume "x = 0"
    with lo have "2 powi e \<le> (0::real)" by simp
    moreover have "0 < (2::real) powi e" by simp
    ultimately show False by linarith
  qed
  have q: "f64_quantum x = 2 powi (max e (- 1022) - 52)"
    by (simp add: f64_quantum_def f64_exponent_eqI [OF lo hi])
  from fin have "\<not> 2 ^ 1024 \<le> real_of_int k * 2 powi (max e (- 1022) - 52)"
    and "\<not> real_of_int k * 2 powi (max e (- 1022) - 52) \<le> - (2 ^ 1024)"
    by linarith+
  then show ?thesis
    using x by (simp add: f64_round_def q k Let_def)
qed

subsection \<open>The error of one rounding\<close>

lemma powi_less_imp_less: "(2::real) powi m < 2 powi n \<Longrightarrow> m < n"
proof (rule ccontr)
  assume a: "(2::real) powi m < 2 powi n" and "\<not> m < n"
  then have "n \<le> m" by simp
  then have "(2::real) powi n \<le> 2 powi m" by (intro power_int_increasing) simp_all
  with a show False by linarith
qed

lemma powi_split: "(2::real) powi (a + b) = 2 powi a * 2 powi b"
  by (rule power_int_add) simp

lemma powi_split_diff: "(2::real) powi (a - b) = 2 powi a / 2 powi b"
  by (rule power_int_diff) simp

lemma f64_quantum_pos: "0 < f64_quantum x"
  by (simp add: f64_quantum_def)

lemma f64_quantum_normal:
  assumes "2 powi (- 1022) \<le> \<bar>x\<bar>"
  shows "f64_quantum x \<le> \<bar>x\<bar> * 2 powi (- 52)"
proof -
  have x: "x \<noteq> 0"
  proof
    assume "x = 0"
    with assms have "2 powi (- 1022) \<le> (0::real)" by simp
    moreover have "0 < (2::real) powi (- 1022)" by simp
    ultimately show False by linarith
  qed
  note b = f64_exponent_bounds [OF x]
  from assms b(2) have "(2::real) powi (- 1022) < 2 powi (f64_exponent x + 1)" by linarith
  then have "- 1022 < f64_exponent x + 1" by (rule powi_less_imp_less)
  then have "max (f64_exponent x) (- 1022) = f64_exponent x" by simp
  then have "f64_quantum x = 2 powi (f64_exponent x) * 2 powi (- 52)"
    by (simp add: f64_quantum_def powi_split_diff power_int_minus_divide)
  also have "\<dots> \<le> \<bar>x\<bar> * 2 powi (- 52)"
    using b(1) by (intro mult_right_mono) simp_all
  finally show ?thesis .
qed

lemma f64_quantum_subnormal:
  assumes "x \<noteq> 0" and "\<bar>x\<bar> < 2 powi (- 1022)"
  shows "f64_quantum x = 2 powi (- 1074)"
proof -
  note b = f64_exponent_bounds [OF assms(1)]
  from assms(2) b(1) have "(2::real) powi (f64_exponent x) < 2 powi (- 1022)" by linarith
  then have "f64_exponent x < - 1022" by (rule powi_less_imp_less)
  then have "max (f64_exponent x) (- 1022) = - 1022" by simp
  then show ?thesis by (simp add: f64_quantum_def)
qed

lemma f64_quantum_ge: "2 powi (- 1074) \<le> f64_quantum x"
  unfolding f64_quantum_def by (intro power_int_increasing) simp_all

lemma f64_quantum_le_abs:
  assumes "x \<noteq> 0"
  shows "f64_quantum x / 2 \<le> \<bar>x\<bar> / 2 ^ 53 + 1 / 2 ^ 1075"
proof (cases "2 powi (- 1022) \<le> \<bar>x\<bar>")
  case True
  from f64_quantum_normal [OF True] have "f64_quantum x / 2 \<le> \<bar>x\<bar> * 2 powi (- 52) / 2" by simp
  also have "\<dots> = \<bar>x\<bar> / 2 ^ 53" by (simp add: power_int_minus_divide)
  finally show ?thesis by (simp add: add_increasing2)
next
  case False
  then have "\<bar>x\<bar> < 2 powi (- 1022)" by simp
  from f64_quantum_subnormal [OF assms this] have "f64_quantum x / 2 = 1 / 2 ^ 1075"
    by (simp add: power_int_minus_divide)
  then show ?thesis by simp
qed

lemma f64_round_cases:
  assumes "x \<noteq> 0"
  obtains (finite) "f64_round x = Float (of_int (round_half_even (x / f64_quantum x)) * f64_quantum x)"
      and "\<bar>of_int (round_half_even (x / f64_quantum x)) * f64_quantum x\<bar> < 2 ^ 1024"
    | (pos) "f64_round x = PosInf"
    | (neg) "f64_round x = NegInf"
proof -
  define v where "v = real_of_int (round_half_even (x / f64_quantum x)) * f64_quantum x"
  define h :: real where "h = 2 ^ 1024"
  have r: "f64_round x = (if h \<le> v then PosInf else if v \<le> - h then NegInf else Float v)"
    using assms unfolding f64_round_def Let_def v_def h_def by (simp only: if_False)
  consider "h \<le> v" | "v \<le> - h" | "\<not> h \<le> v" "\<not> v \<le> - h" by blast
  then show ?thesis
  proof cases
    case 1
    then show ?thesis using r pos by simp
  next
    case 2
    have "0 < h" by (simp add: h_def)
    with 2 have "\<not> h \<le> v" by linarith
    then show ?thesis using r 2 neg by simp
  next
    case 3
    then have "\<bar>v\<bar> < h" by linarith
    with 3 r finite show ?thesis unfolding v_def h_def by simp
  qed
qed

lemma f64_round_Float:
  assumes "f64_round x = Float v"
  shows "v = of_int (round_half_even (x / f64_quantum x)) * f64_quantum x"
proof (cases "x = 0")
  case True
  have "round_half_even 0 = 0" using round_half_even_of_int [of 0] by simp
  with True assms show ?thesis by (simp add: f64_round_def)
next
  case False
  then show ?thesis using assms by (cases rule: f64_round_cases) simp_all
qed

lemma f64_round_error:
  assumes "f64_round x = Float v"
  shows "\<bar>v - x\<bar> \<le> f64_quantum x / 2"
proof -
  let ?q = "f64_quantum x"
  let ?k = "round_half_even (x / ?q)"
  have q: "0 < ?q" by (rule f64_quantum_pos)
  have v: "v = of_int ?k * ?q" using assms by (rule f64_round_Float)
  have "v - x = (of_int ?k - x / ?q) * ?q" using q by (simp add: v field_simps)
  then have "\<bar>v - x\<bar> = \<bar>of_int ?k - x / ?q\<bar> * ?q" using q by (simp add: abs_mult)
  also have "\<dots> \<le> 1 / 2 * ?q"
    using round_half_even_error [of "x / ?q"] q by (intro mult_right_mono) simp_all
  finally show ?thesis by simp
qed

lemma f64_round_on_grid:
  assumes "f64_round x = Float v"
  shows "on_grid v"
proof -
  define e where "e = max (f64_exponent x) (- 1022) - 52"
  define k where "k = round_half_even (x / f64_quantum x)"
  define p :: real where "p = 2 powi (- 1074)"
  have v: "v = of_int k * 2 powi e"
    using f64_round_Float [OF assms] by (simp add: f64_quantum_def e_def k_def)
  have e: "0 \<le> e + 1074" by (simp add: e_def)
  have "e = (e + 1074) + (- 1074)" by simp
  then have "(2::real) powi e = 2 powi ((e + 1074) + (- 1074))" by simp
  also have "\<dots> = 2 powi (e + 1074) * p" unfolding p_def by (rule powi_split)
  also have "(2::real) powi (e + 1074) = of_int (2 ^ nat (e + 1074))"
    using e by (simp add: power_int_nonneg_exp)
  finally have "v = of_int (k * 2 ^ nat (e + 1074)) * p"
    by (simp add: v)
  then show ?thesis unfolding on_grid_def p_def by blast
qed

lemma on_grid_add: "on_grid a \<Longrightarrow> on_grid b \<Longrightarrow> on_grid (a + b)"
  unfolding on_grid_def
proof -
  assume "\<exists>k::int. a = of_int k * 2 powi (- 1074)" "\<exists>k::int. b = of_int k * 2 powi (- 1074)"
  then obtain k l :: int where "a = of_int k * 2 powi (- 1074)" "b = of_int l * 2 powi (- 1074)"
    by blast
  then have "a + b = of_int (k + l) * 2 powi (- 1074)" by (simp add: algebra_simps)
  then show "\<exists>k::int. a + b = of_int k * 2 powi (- 1074)" by blast
qed

lemma on_grid_0: "on_grid 0"
  unfolding on_grid_def by (rule exI [of _ 0]) simp

lemma f64_round_finite:
  assumes "\<bar>x\<bar> \<le> 3 * 2 ^ 1022"
  shows "\<exists>v. f64_round x = Float v"
proof (cases "x = 0")
  case True
  then show ?thesis by (simp add: f64_round_def)
next
  case False
  note b = f64_exponent_bounds [OF False]
  have "(2::real) powi (f64_exponent x) < 2 powi 1024"
    using b(1) assms by (simp add: power_int_nonneg_exp) 
  then have e: "f64_exponent x < 1024" by (rule powi_less_imp_less)
  let ?q = "f64_quantum x"
  let ?v = "of_int (round_half_even (x / ?q)) * ?q"
  have q: "0 < ?q" by (rule f64_quantum_pos)
  have "?q \<le> 2 powi 971" unfolding f64_quantum_def
    using e by (intro power_int_increasing) simp_all
  then have q': "?q \<le> 2 ^ 971" by simp
  have "?v - x = (of_int (round_half_even (x / ?q)) - x / ?q) * ?q"
    using q by (simp add: field_simps)
  then have "\<bar>?v - x\<bar> = \<bar>of_int (round_half_even (x / ?q)) - x / ?q\<bar> * ?q"
    using q by (simp add: abs_mult)
  also have "\<dots> \<le> 1 / 2 * ?q"
    using round_half_even_error [of "x / ?q"] q by (intro mult_right_mono) simp_all
  finally have "\<bar>?v\<bar> \<le> \<bar>x\<bar> + ?q / 2" by linarith
  also have "\<dots> \<le> 3 * 2 ^ 1022 + 2 ^ 971 / 2" using assms q' by linarith
  also have "\<dots> < 2 ^ 1024" by simp
  finally have "\<bar>?v\<bar> < 2 ^ 1024" .
  then show ?thesis
    using False unfolding f64_round_def Let_def by (auto simp: abs_less_iff not_le)
qed

lemma f64_round_exactI:
  assumes x: "x \<noteq> 0"
    and r: "real_of_int (round_half_even (x / f64_quantum x)) * f64_quantum x = x"
    and f: "\<bar>x\<bar> < 2 ^ 1024"
  shows "f64_round x = Float x"
proof -
  define h :: real where "h = 2 ^ 1024"
  from f have "\<not> h \<le> x" "\<not> x \<le> - h" unfolding h_def by linarith+
  then have "(if h \<le> x then PosInf else if x \<le> - h then NegInf else Float x) = Float x"
    by simp
  then show ?thesis
    using x unfolding f64_round_def Let_def r h_def by (simp only: if_False)
qed

lemma f64_round_exact_subnormal:
  assumes g: "on_grid x" and s: "\<bar>x\<bar> < 2 powi (- 1022)"
  shows "f64_round x = Float x"
proof (cases "x = 0")
  case True
  then show ?thesis by (simp add: f64_round_def)
next
  case False
  define p :: real where "p = 2 powi (- 1074)"
  have p: "0 < p" by (simp add: p_def)
  from g obtain k :: int where k: "x = of_int k * p" unfolding on_grid_def p_def by blast
  have q: "f64_quantum x = p" unfolding p_def using False s by (rule f64_quantum_subnormal)
  have "x / p = of_int k" using p by (simp add: k)
  then have "round_half_even (x / f64_quantum x) = k"
    unfolding q by (simp only: round_half_even_of_int)
  then have r: "of_int (round_half_even (x / f64_quantum x)) * f64_quantum x = x"
    unfolding q by (simp only: k)
  have "(2::real) powi (- 1022) \<le> 2 powi 1024" by (intro power_int_increasing) simp_all
  then have "\<bar>x\<bar> < 2 ^ 1024" using s by simp
  with False r show ?thesis by (rule f64_round_exactI)
qed

lemma f64_round_rel_error:
  assumes "f64_round x = Float v"
  shows "\<bar>v - x\<bar> \<le> \<bar>x\<bar> / 2 ^ 53 + 1 / 2 ^ 1075"
proof (cases "x = 0")
  case True
  with assms show ?thesis by (simp add: f64_round_def)
next
  case False
  from f64_round_error [OF assms] f64_quantum_le_abs [OF False] show ?thesis by linarith
qed

lemma f64_add_error:
  assumes a: "on_grid a" and b: "on_grid b" and r: "f64_round (a + b) = Float v"
  shows "\<bar>v - (a + b)\<bar> \<le> \<bar>a + b\<bar> / 2 ^ 53"
proof (cases "2 powi (- 1022) \<le> \<bar>a + b\<bar>")
  case True
  from f64_quantum_normal [OF True] have "f64_quantum (a + b) / 2 \<le> \<bar>a + b\<bar> * 2 powi (- 52) / 2"
    by simp
  also have "\<dots> = \<bar>a + b\<bar> / 2 ^ 53" by (simp add: power_int_minus_divide)
  finally show ?thesis using f64_round_error [OF r] by linarith
next
  case False
  then have "\<bar>a + b\<bar> < 2 powi (- 1022)" by simp
  from f64_round_exact_subnormal [OF on_grid_add [OF a b] this] r have "v = a + b" by simp
  then show ?thesis by simp
qed

lemma f64_round_of_nat:
  assumes "n < 2 ^ 53"
  shows "f64_round (real n) = Float (real n)"
proof (cases "n = 0")
  case True
  then show ?thesis by (simp add: f64_round_def)
next
  case False
  define x where "x = real n"
  define e where "e = f64_exponent x"
  have x0: "x \<noteq> 0" and x1: "1 \<le> x" using False by (simp_all add: x_def)
  have xa: "\<bar>x\<bar> = x" using x1 by simp
  note b = f64_exponent_bounds [OF x0, folded e_def, unfolded xa]
  have "(2::real) powi 0 < 2 powi (e + 1)" using x1 b(2) by simp
  then have e0: "0 \<le> e" using powi_less_imp_less [of 0 "e + 1"] by simp
  have "x < 2 ^ 53" using assms unfolding x_def
    by (metis of_nat_less_iff of_nat_numeral of_nat_power)
  then have "(2::real) powi e < 2 powi 53" using b(1) by simp
  then have e53: "e < 53" by (rule powi_less_imp_less)
  have q: "f64_quantum x = 2 powi (e - 52)"
    using e0 by (simp add: f64_quantum_def e_def [symmetric])
  have "2 powi (e - 52) * 2 powi (52 - e) = (2::real) powi 0"
    by (simp flip: powi_split)
  then have inv: "1 / 2 powi (e - 52) = (2::real) powi (52 - e)"
    by (simp add: field_simps)
  have "(2::real) powi (52 - e) = of_int (2 ^ nat (52 - e))"
    using e53 by (simp add: power_int_nonneg_exp)
  then have "1 / f64_quantum x = of_int (2 ^ nat (52 - e))"
    using inv by (simp only: q)
  then have "x * (1 / f64_quantum x) = of_int (int n) * of_int (2 ^ nat (52 - e))"
    by (simp only: x_def of_int_of_nat_eq)
  then have "x / f64_quantum x = of_int (int n * 2 ^ nat (52 - e))"
    by (simp only: of_int_mult times_divide_eq_right mult_1_right)
  then have "round_half_even (x / f64_quantum x) = int n * 2 ^ nat (52 - e)"
    by (simp only: round_half_even_of_int)
  then have r: "of_int (round_half_even (x / f64_quantum x)) * f64_quantum x = x"
    using \<open>x / f64_quantum x = of_int (int n * 2 ^ nat (52 - e))\<close> f64_quantum_pos [of x]
    by (metis nonzero_eq_divide_eq less_irrefl)
  have "\<bar>x\<bar> < 2 ^ 1024"
  proof -
    have "(2::real) ^ 53 \<le> 2 ^ 1024" by (intro power_increasing) simp_all
    with \<open>x < 2 ^ 53\<close> xa show ?thesis by linarith
  qed
  with x0 r have "f64_round x = Float x" by (rule f64_round_exactI)
  then show ?thesis by (simp add: x_def)
qed

lemma err_factor_0 [simp]: "err_factor 0 = 0"
  by (simp add: err_factor_def)

lemma err_factor_nonneg: "0 \<le> err_factor d"
  unfolding err_factor_def by (simp add: one_le_power)

lemma err_factor_mono: "d \<le> d' \<Longrightarrow> err_factor d \<le> err_factor d'"
  unfolding err_factor_def by (simp add: power_increasing)

lemma err_factor_Suc:
  "err_factor (Suc d) = err_factor d + (1 + err_factor d) / 2 ^ 53"
  unfolding err_factor_def by (simp add: field_simps)

lemma err_factor_aux:
  fixes u :: real
  assumes u: "0 \<le> u"
  shows "(1 + u) ^ d * (1 - real d * u) \<le> 1"
proof (induction d)
  case 0
  show ?case by simp
next
  case (Suc d)
  have p: "0 \<le> (1 + u) ^ d" using u by simp
  have "(1 + u) * (1 - real (Suc d) * u) = 1 - real d * u - real (Suc d) * u * u"
    by (simp add: algebra_simps)
  also have "\<dots> \<le> 1 - real d * u" using u by simp
  finally have "(1 + u) ^ d * ((1 + u) * (1 - real (Suc d) * u)) \<le> (1 + u) ^ d * (1 - real d * u)"
    using p by (intro mult_left_mono)
  also have "\<dots> \<le> 1" by (rule Suc.IH)
  finally show ?case by (simp only: power_Suc2 mult.assoc)
qed

lemma err_factor_half:
  assumes "d \<le> 2 ^ 51 + 2"
  shows "err_factor d \<le> 1 / 2"
proof -
  have "real d \<le> 2 ^ 51 + 2" using assms
    by (metis of_nat_le_iff of_nat_numeral of_nat_power of_nat_add)
  then have "real d / 2 ^ 53 \<le> (2 ^ 51 + 2) / 2 ^ 53" by (simp add: divide_right_mono)
  also have "\<dots> \<le> (1::real) / 3" by simp
  finally have c: "2 / 3 \<le> 1 - real d / 2 ^ 53" by simp
  have p: "0 \<le> (1 + 1 / 2 ^ 53 :: real) ^ d" by simp
  have "(1 + 1 / 2 ^ 53) ^ d * (2 / 3) \<le> (1 + 1 / 2 ^ 53) ^ d * (1 - real d / 2 ^ 53)"
    using c p by (rule mult_left_mono)
  also have "\<dots> = (1 + 1 / 2 ^ 53) ^ d * (1 - real d * (1 / 2 ^ 53))" by simp
  also have "\<dots> \<le> 1" by (rule err_factor_aux) simp
  finally show ?thesis unfolding err_factor_def by simp
qed

lemma err_factor_linear:
  assumes "d \<le> 2 ^ 51 + 3"
  shows "err_factor d \<le> real d / 2 ^ 52"
proof -
  define x where "x = real d / 2 ^ 53"
  define P :: real where "P = (1 + 1 / 2 ^ 53) ^ d"
  have "real d \<le> 2 ^ 51 + 3" using assms
    by (metis of_nat_le_iff of_nat_numeral of_nat_power of_nat_add)
  then have "real d / 2 ^ 53 \<le> (2 ^ 51 + 3) / 2 ^ 53" by (simp add: divide_right_mono)
  also have "\<dots> \<le> (1::real) / 2" by simp
  finally have xh: "x \<le> 1 / 2" unfolding x_def .
  have x0: "0 \<le> x" unfolding x_def by simp
  have "P * (1 - real d * (1 / 2 ^ 53)) \<le> 1" unfolding P_def by (rule err_factor_aux) simp
  then have 1: "P * (1 - x) \<le> 1" unfolding x_def by simp
  have "0 \<le> x * (1 - 2 * x)" using x0 xh by (intro mult_nonneg_nonneg) simp_all
  moreover have "(1 + 2 * x) * (1 - x) = 1 + x * (1 - 2 * x)" by (simp add: algebra_simps)
  ultimately have "P * (1 - x) \<le> (1 + 2 * x) * (1 - x)" using 1 by linarith
  moreover have "0 < 1 - x" using xh by simp
  ultimately have "P \<le> 1 + 2 * x" by (simp only: mult_le_cancel_right_pos)
  then have "P - 1 \<le> 2 * x" by simp
  also have "2 * x = real d / 2 ^ 52" unfolding x_def by simp
  finally show ?thesis unfolding err_factor_def P_def .
qed

subsection \<open>The error of a sum\<close>

lemma approx_nonneg: "approx d A B s \<Longrightarrow> 0 \<le> B"
  unfolding approx_def by auto

lemma approx_mono:
  assumes "approx d A B s" and "d \<le> d'"
  shows "approx d' A B s"
proof -
  from assms(1) obtain v where v: "s = Float v" "on_grid v" "\<bar>v - A\<bar> \<le> err_factor d * B" "\<bar>A\<bar> \<le> B"
    unfolding approx_def by blast
  from v(4) have B: "0 \<le> B" by linarith
  have "err_factor d * B \<le> err_factor d' * B"
    using err_factor_mono [OF assms(2)] B by (rule mult_right_mono)
  with v show ?thesis unfolding approx_def by (intro exI [of _ v]) simp
qed

lemma approx_zero: "approx 0 0 0 (Float 0)"
  unfolding approx_def by (simp add: on_grid_0)

lemma approx_leaf:
  assumes "on_grid x"
  shows "approx 0 x \<bar>x\<bar> (Float x)"
  unfolding approx_def using assms by simp

lemma approx_add:
  assumes 1: "approx d A1 B1 s1" and 2: "approx d A2 B2 s2"
    and d: "d \<le> 2 ^ 51 + 2" and B: "B1 + B2 \<le> 2 ^ 1023"
  shows "approx (Suc d) (A1 + A2) (B1 + B2) (f64_add s1 s2)"
proof -
  define E where "E = err_factor d"
  from 1 obtain v1 where v1: "s1 = Float v1" "on_grid v1" "\<bar>v1 - A1\<bar> \<le> E * B1" "\<bar>A1\<bar> \<le> B1"
    unfolding approx_def E_def by blast
  from 2 obtain v2 where v2: "s2 = Float v2" "on_grid v2" "\<bar>v2 - A2\<bar> \<le> E * B2" "\<bar>A2\<bar> \<le> B2"
    unfolding approx_def E_def by blast
  have E0: "0 \<le> E" and Eh: "E \<le> 1 / 2"
    unfolding E_def using err_factor_nonneg err_factor_half [OF d] by simp_all
  have B0: "0 \<le> B1 + B2" using v1(4) v2(4) by linarith
  have "\<bar>v1 + v2\<bar> \<le> (B1 + E * B1) + (B2 + E * B2)" using v1(3,4) v2(3,4) by linarith
  also have "\<dots> = (1 + E) * (B1 + B2)" by (simp add: algebra_simps)
  finally have x: "\<bar>v1 + v2\<bar> \<le> (1 + E) * (B1 + B2)" .
  also have "\<dots> \<le> (1 + 1 / 2) * (B1 + B2)" using Eh B0 by (intro mult_right_mono) simp_all
  also have "\<dots> \<le> (1 + 1 / 2) * 2 ^ 1023" using B by (intro mult_left_mono) simp_all
  also have "\<dots> = 3 * 2 ^ 1022" by simp
  finally obtain v where v: "f64_round (v1 + v2) = Float v" using f64_round_finite by blast
  have g: "on_grid v" using v by (rule f64_round_on_grid)
  have "\<bar>v - (v1 + v2)\<bar> \<le> \<bar>v1 + v2\<bar> / 2 ^ 53" using v1(2) v2(2) v by (rule f64_add_error)
  also have "\<dots> \<le> (1 + E) * (B1 + B2) / 2 ^ 53" using x by (simp add: divide_right_mono)
  finally have "\<bar>v - (A1 + A2)\<bar> \<le> (1 + E) * (B1 + B2) / 2 ^ 53 + E * B1 + E * B2"
    using v1(3) v2(3) by linarith
  also have "\<dots> = (E + (1 + E) / 2 ^ 53) * (B1 + B2)" by (simp add: algebra_simps)
  also have "\<dots> = err_factor (Suc d) * (B1 + B2)" by (simp only: err_factor_Suc E_def)
  finally have e: "\<bar>v - (A1 + A2)\<bar> \<le> err_factor (Suc d) * (B1 + B2)" .
  have "\<bar>A1 + A2\<bar> \<le> B1 + B2" using v1(4) v2(4) by linarith
  with e g v show ?thesis unfolding approx_def v1(1) v2(1) by (intro exI [of _ v]) simp
qed

lemma sum_list_abs_nonneg: "0 \<le> sum_list (map abs (xs::real list))"
  by (rule sum_list_nonneg) auto

lemma approx_foldl:
  assumes "approx d A B s" and "\<forall>x\<in>set xs. on_grid x"
    and "d + length xs \<le> 2 ^ 51 + 2" and "B + sum_list (map abs xs) \<le> 2 ^ 1023"
  shows "approx (d + length xs) (A + sum_list xs) (B + sum_list (map abs xs))
           (foldl f64_add s (map Float xs))"
  using assms
proof (induction xs arbitrary: d A B s)
  case Nil
  then show ?case by simp
next
  case (Cons x xs)
  note n = sum_list_abs_nonneg [of xs]
  have l: "approx d x \<bar>x\<bar> (Float x)"
    using Cons.prems(2) by (intro approx_mono [OF approx_leaf]) simp_all
  have "approx (Suc d) (A + x) (B + \<bar>x\<bar>) (f64_add s (Float x))"
    using Cons.prems(1) l
  proof (rule approx_add)
    show "d \<le> 2 ^ 51 + 2" using Cons.prems(3) by simp
    show "B + \<bar>x\<bar> \<le> 2 ^ 1023" using Cons.prems(4) n by simp
  qed
  then have "approx (Suc d + length xs) (A + x + sum_list xs) (B + \<bar>x\<bar> + sum_list (map abs xs))
           (foldl f64_add (f64_add s (Float x)) (map Float xs))"
  proof (rule Cons.IH)
    show "\<forall>x\<in>set xs. on_grid x" using Cons.prems(2) by simp
    show "Suc d + length xs \<le> 2 ^ 51 + 2" using Cons.prems(3) by simp
    show "B + \<bar>x\<bar> + sum_list (map abs xs) \<le> 2 ^ 1023" using Cons.prems(4) by simp
  qed
  then show ?case by (simp add: add.assoc)
qed

lemma approx_vec_nonneg: "approx_vec d XS rs \<Longrightarrow> 0 \<le> sum_list (map snd XS)"
  unfolding approx_vec_def
  by (induction rule: list_all2_induct) (auto dest: approx_nonneg)

lemma approx_vec_length: "approx_vec d XS rs \<Longrightarrow> length XS = length rs"
  unfolding approx_vec_def by (rule list_all2_lengthD)

lemma feed_sums:
  "length c = length XS \<Longrightarrow>
     sum_list (map fst (feed XS c)) = sum_list (map fst XS) + sum_list c \<and>
     sum_list (map snd (feed XS c)) = sum_list (map snd XS) + sum_list (map abs c)"
  unfolding feed_def
  by (induction XS arbitrary: c) (auto simp: length_Suc_conv)

lemma approx_vec_step:
  assumes "approx_vec d XS rs"
    and "length c = length XS" and "\<forall>x\<in>set c. on_grid x"
    and "d \<le> 2 ^ 51 + 2" and "sum_list (map snd XS) + sum_list (map abs c) \<le> 2 ^ 1023"
  shows "approx_vec (Suc d) (feed XS c) (map2 f64_add rs (map Float c))"
  using assms unfolding approx_vec_def feed_def
proof (induction arbitrary: c rule: list_all2_induct)
  case Nil
  then show ?case by simp
next
  case (Cons X XS s rs)
  from Cons.prems(1) obtain x c' where c: "c = x # c'" and l: "length c' = length XS"
    by (auto simp: length_Suc_conv)
  have n1: "0 \<le> sum_list (map snd XS)"
    using Cons.hyps(2) approx_vec_nonneg unfolding approx_vec_def by blast
  have n2: "0 \<le> sum_list (map abs c')" by (rule sum_list_abs_nonneg)
  have n3: "0 \<le> snd X" using Cons.hyps(1) by (rule approx_nonneg)
  have leaf: "approx d x \<bar>x\<bar> (Float x)"
    using Cons.prems(2) by (intro approx_mono [OF approx_leaf]) (simp_all add: c)
  have h: "approx (Suc d) (fst X + x) (snd X + \<bar>x\<bar>) (f64_add s (Float x))"
    using Cons.hyps(1) leaf
  proof (rule approx_add)
    show "d \<le> 2 ^ 51 + 2" by (rule Cons.prems(3))
    show "snd X + \<bar>x\<bar> \<le> 2 ^ 1023" using Cons.prems(4) n1 n2 by (simp add: c)
  qed
  have t: "list_all2 (\<lambda>X s. approx (Suc d) (fst X) (snd X) s)
      (map2 (\<lambda>X x. (fst X + x, snd X + \<bar>x\<bar>)) XS c') (map2 f64_add rs (map Float c'))"
  proof (rule Cons.IH)
    show "length c' = length XS" by (rule l)
    show "\<forall>x\<in>set c'. on_grid x" using Cons.prems(2) by (simp add: c)
    show "d \<le> 2 ^ 51 + 2" by (rule Cons.prems(3))
    show "sum_list (map snd XS) + sum_list (map abs c') \<le> 2 ^ 1023"
      using Cons.prems(4) n3 by (simp add: c)
  qed
  from h t show ?case by (simp add: c)
qed

lemma accumulate8_approx:
  assumes "approx_vec d XS rs" and "length rs = 8"
    and "\<forall>x\<in>set xs. on_grid x"
    and "d + length xs div 8 \<le> 2 ^ 51 + 2"
    and "sum_list (map snd XS) + sum_list (map abs xs) \<le> 2 ^ 1023"
  shows "\<exists>XS' rs'.
     accumulate8 rs (map Float xs) = (rs', map Float (drop (8 * (length xs div 8)) xs)) \<and>
     approx_vec (d + length xs div 8) XS' rs' \<and> length rs' = 8 \<and>
     sum_list (map fst XS') = sum_list (map fst XS) + sum_list (take (8 * (length xs div 8)) xs) \<and>
     sum_list (map snd XS') =
       sum_list (map snd XS) + sum_list (map abs (take (8 * (length xs div 8)) xs))"
  using assms
proof (induction "length xs" arbitrary: xs d XS rs rule: less_induct)
  case less
  show ?case
  proof (cases "length xs < 8")
    case True
    then have "accumulate8 rs (map Float xs) = (rs, map Float xs)" by simp
    with True less.prems show ?thesis by auto
  next
    case False
    define c where "c = take 8 xs"
    define ys where "ys = drop 8 xs"
    have xs: "xs = c @ ys" by (simp add: c_def ys_def)
    have lc: "length c = 8" using False by (simp add: c_def)
    have ly: "length ys = length xs - 8" by (simp add: ys_def)
    have dv: "length xs div 8 = Suc (length ys div 8)"
      using False ly le_div_geq [of 8 "length xs"] by simp
    have lX: "length XS = 8" using approx_vec_length [OF less.prems(1)] less.prems(2) by simp
    have sa: "sum_list (map abs xs) = sum_list (map abs c) + sum_list (map abs ys)"
      by (simp add: xs)
    note nc = sum_list_abs_nonneg [of c] and ny = sum_list_abs_nonneg [of ys]
    have step: "approx_vec (Suc d) (feed XS c) (map2 f64_add rs (map Float c))"
      using less.prems(1)
    proof (rule approx_vec_step)
      show "length c = length XS" by (simp add: lc lX)
      show "\<forall>x\<in>set c. on_grid x" using less.prems(3) by (simp add: xs)
      show "d \<le> 2 ^ 51 + 2" using less.prems(4) by simp
      show "sum_list (map snd XS) + sum_list (map abs c) \<le> 2 ^ 1023"
        using less.prems(5) ny by (simp add: sa)
    qed
    note fs = feed_sums [of c XS, unfolded lc lX, OF refl]
    have "\<exists>XS' rs'.
       accumulate8 (map2 f64_add rs (map Float c)) (map Float ys) =
         (rs', map Float (drop (8 * (length ys div 8)) ys)) \<and>
       approx_vec (Suc d + length ys div 8) XS' rs' \<and> length rs' = 8 \<and>
       sum_list (map fst XS') =
         sum_list (map fst (feed XS c)) + sum_list (take (8 * (length ys div 8)) ys) \<and>
       sum_list (map snd XS') =
         sum_list (map snd (feed XS c)) + sum_list (map abs (take (8 * (length ys div 8)) ys))"
    proof (rule less.hyps)
      show "length ys < length xs" using False ly by simp
      show "approx_vec (Suc d) (feed XS c) (map2 f64_add rs (map Float c))" by (rule step)
      show "length (map2 f64_add rs (map Float c)) = 8" by (simp add: lc less.prems(2))
      show "\<forall>x\<in>set ys. on_grid x" using less.prems(3) by (simp add: xs)
      show "Suc d + length ys div 8 \<le> 2 ^ 51 + 2" using less.prems(4) by (simp add: dv)
      show "sum_list (map snd (feed XS c)) + sum_list (map abs ys) \<le> 2 ^ 1023"
        using less.prems(5) by (simp add: fs sa)
    qed
    then obtain XS' rs' where r:
      "accumulate8 (map2 f64_add rs (map Float c)) (map Float ys) =
         (rs', map Float (drop (8 * (length ys div 8)) ys))"
      "approx_vec (Suc d + length ys div 8) XS' rs'" "length rs' = 8"
      "sum_list (map fst XS') =
         sum_list (map fst (feed XS c)) + sum_list (take (8 * (length ys div 8)) ys)"
      "sum_list (map snd XS') =
         sum_list (map snd (feed XS c)) + sum_list (map abs (take (8 * (length ys div 8)) ys))"
      by blast
    have a: "accumulate8 rs (map Float xs) = accumulate8 (map2 f64_add rs (map Float c)) (map Float ys)"
      using False by (subst accumulate8.simps) (simp add: c_def ys_def take_map drop_map)
    have t: "take (8 * (length xs div 8)) xs = c @ take (8 * (length ys div 8)) ys"
      by (simp add: dv xs lc)
    have dr: "drop (8 * (length xs div 8)) xs = drop (8 * (length ys div 8)) ys"
      by (simp add: dv xs lc)
    have g1: "accumulate8 rs (map Float xs) = (rs', map Float (drop (8 * (length xs div 8)) xs))"
      by (simp only: a r(1) dr)
    have g2: "approx_vec (d + length xs div 8) XS' rs'"
      using r(2) by (simp add: dv)
    have g3: "sum_list (map fst XS') =
        sum_list (map fst XS) + sum_list (take (8 * (length xs div 8)) xs)"
      by (simp only: r(4) fs t sum_list_append add.assoc)
    have g4: "sum_list (map snd XS') =
        sum_list (map snd XS) + sum_list (map abs (take (8 * (length xs div 8)) xs))"
      by (simp only: r(5) fs t sum_list_append map_append add.assoc)
    from g1 g2 r(3) g3 g4 show ?thesis by blast
  qed
qed

lemma length8_conv:
  "length xs = 8 \<Longrightarrow> \<exists>a b c d e f g h. xs = [a, b, c, d, e, f, g, h]"
  by (auto simp: eval_nat_numeral length_Suc_conv)

lemma approx_tree8:
  assumes v: "approx_vec d XS rs" and l: "length rs = 8"
    and d: "d + 2 \<le> 2 ^ 51 + 2" and T: "sum_list (map snd XS) \<le> 2 ^ 1023"
  shows "approx (d + 3) (sum_list (map fst XS)) (sum_list (map snd XS))
     (f64_add (f64_add (f64_add (rs ! 0) (rs ! 1)) (f64_add (rs ! 2) (rs ! 3)))
              (f64_add (f64_add (rs ! 4) (rs ! 5)) (f64_add (rs ! 6) (rs ! 7))))"
proof -
  from length8_conv [OF l] obtain r0 r1 r2 r3 r4 r5 r6 r7
    where rs: "rs = [r0, r1, r2, r3, r4, r5, r6, r7]" by blast
  from approx_vec_length [OF v] l have "length XS = 8" by simp
  from length8_conv [OF this] obtain X0 X1 X2 X3 X4 X5 X6 X7
    where XS: "XS = [X0, X1, X2, X3, X4, X5, X6, X7]" by blast
  from v have a: "approx d (fst X0) (snd X0) r0" "approx d (fst X1) (snd X1) r1"
    "approx d (fst X2) (snd X2) r2" "approx d (fst X3) (snd X3) r3"
    "approx d (fst X4) (snd X4) r4" "approx d (fst X5) (snd X5) r5"
    "approx d (fst X6) (snd X6) r6" "approx d (fst X7) (snd X7) r7"
    unfolding approx_vec_def rs XS by simp_all
  note n = a [THEN approx_nonneg]
  from T have T': "snd X0 + snd X1 + snd X2 + snd X3 + snd X4 + snd X5 + snd X6 + snd X7 \<le> 2 ^ 1023"
    by (simp add: XS add.assoc)
  have d0: "d \<le> 2 ^ 51 + 2" and d1: "Suc d \<le> 2 ^ 51 + 2" and d2: "Suc (Suc d) \<le> 2 ^ 51 + 2"
    using d by simp_all
  have p01: "approx (Suc d) (fst X0 + fst X1) (snd X0 + snd X1) (f64_add r0 r1)"
    using a(1,2) d0 by (rule approx_add) (use n T' in linarith)
  have p23: "approx (Suc d) (fst X2 + fst X3) (snd X2 + snd X3) (f64_add r2 r3)"
    using a(3,4) d0 by (rule approx_add) (use n T' in linarith)
  have p45: "approx (Suc d) (fst X4 + fst X5) (snd X4 + snd X5) (f64_add r4 r5)"
    using a(5,6) d0 by (rule approx_add) (use n T' in linarith)
  have p67: "approx (Suc d) (fst X6 + fst X7) (snd X6 + snd X7) (f64_add r6 r7)"
    using a(7,8) d0 by (rule approx_add) (use n T' in linarith)
  have p03: "approx (Suc (Suc d)) (fst X0 + fst X1 + (fst X2 + fst X3))
      (snd X0 + snd X1 + (snd X2 + snd X3)) (f64_add (f64_add r0 r1) (f64_add r2 r3))"
    using p01 p23 d1 by (rule approx_add) (use n T' in linarith)
  have p47: "approx (Suc (Suc d)) (fst X4 + fst X5 + (fst X6 + fst X7))
      (snd X4 + snd X5 + (snd X6 + snd X7)) (f64_add (f64_add r4 r5) (f64_add r6 r7))"
    using p45 p67 d1 by (rule approx_add) (use n T' in linarith)
  have "approx (Suc (Suc (Suc d)))
      (fst X0 + fst X1 + (fst X2 + fst X3) + (fst X4 + fst X5 + (fst X6 + fst X7)))
      (snd X0 + snd X1 + (snd X2 + snd X3) + (snd X4 + snd X5 + (snd X6 + snd X7)))
      (f64_add (f64_add (f64_add r0 r1) (f64_add r2 r3))
               (f64_add (f64_add r4 r5) (f64_add r6 r7)))"
    using p03 p47 d2 by (rule approx_add) (use n T' in linarith)
  then show ?thesis by (simp add: rs XS add.assoc eval_nat_numeral)
qed

lemma approx_vec_leaves:
  assumes "\<forall>x\<in>set c. on_grid x"
  shows "approx_vec 0 (map (\<lambda>x. (x, \<bar>x\<bar>)) c) (map Float c)"
  using assms unfolding approx_vec_def
  by (induction c) (simp_all add: approx_leaf)

lemma sum_list_take_drop: "sum_list (take k xs) + sum_list (drop k xs) = sum_list (xs::real list)"
  by (metis append_take_drop_id sum_list_append)

lemma pairwise_sum_approx:
  assumes "\<forall>x\<in>set xs. on_grid x" and "length xs \<le> 2 ^ 51"
    and "sum_list (map abs xs) \<le> 2 ^ 1023"
  shows "approx (length xs) (sum_list xs) (sum_list (map abs xs)) (pairwise_sum (map Float xs))"
  using assms
proof (induction "length xs" arbitrary: xs rule: less_induct)
  case less
  define n where "n = length xs"
  note [simp del] = pairwise_sum.simps accumulate8.simps
  consider (small) "n < 8" | (block) "8 \<le> n" "n \<le> 128" | (split) "128 < n" by linarith
  then show ?case
  proof cases
    case small
    have "approx (0 + length xs) (0 + sum_list xs) (0 + sum_list (map abs xs))
        (foldl f64_add (Float 0) (map Float xs))"
      using approx_zero less.prems(1)
      by (rule approx_foldl) (use less.prems in simp_all)
    moreover have "pairwise_sum (map Float xs) = foldl f64_add (Float 0) (map Float xs)"
      using small by (subst pairwise_sum.simps) (simp add: n_def)
    ultimately show ?thesis by simp
  next
    case block
    define c where "c = take 8 xs"
    define ys where "ys = drop 8 xs"
    define j where "j = length ys div 8"
    define rest where "rest = drop (8 * j) ys"
    have xs: "xs = c @ ys" by (simp add: c_def ys_def)
    have lc: "length c = 8" using block by (simp add: c_def n_def)
    have ly: "length ys = n - 8" by (simp add: ys_def n_def)
    have lr: "length rest = length ys mod 8"
      unfolding rest_def j_def by (simp add: minus_mult_div_eq_mod)
    have nn: "n = 8 + (8 * j + length rest)"
      using block ly unfolding lr j_def by simp
    have sa: "sum_list (map abs xs) = sum_list (map abs c) + sum_list (map abs ys)"
      by (simp add: xs)
    have v0: "approx_vec 0 (map (\<lambda>x. (x, \<bar>x\<bar>)) c) (map Float c)"
      using less.prems(1) by (intro approx_vec_leaves) (simp add: xs)
    have s0: "sum_list (map fst (map (\<lambda>x. (x, \<bar>x\<bar>)) c)) = sum_list c"
      "sum_list (map snd (map (\<lambda>x. (x, \<bar>x\<bar>)) c)) = sum_list (map abs c)"
      by (simp_all add: comp_def)
    have "\<exists>XS' rs'.
       accumulate8 (map Float c) (map Float ys) = (rs', map Float (drop (8 * (length ys div 8)) ys)) \<and>
       approx_vec (0 + length ys div 8) XS' rs' \<and> length rs' = 8 \<and>
       sum_list (map fst XS') = sum_list (map fst (map (\<lambda>x. (x, \<bar>x\<bar>)) c)) +
         sum_list (take (8 * (length ys div 8)) ys) \<and>
       sum_list (map snd XS') = sum_list (map snd (map (\<lambda>x. (x, \<bar>x\<bar>)) c)) +
         sum_list (map abs (take (8 * (length ys div 8)) ys))"
      using v0
    proof (rule accumulate8_approx)
      show "length (map Float c) = 8" by (simp add: lc)
      show "\<forall>x\<in>set ys. on_grid x" using less.prems(1) by (simp add: xs)
      show "0 + length ys div 8 \<le> 2 ^ 51 + 2" using block ly by simp
      show "sum_list (map snd (map (\<lambda>x. (x, \<bar>x\<bar>)) c)) + sum_list (map abs ys) \<le> 2 ^ 1023"
        using less.prems(3) unfolding s0 sa by simp
    qed
    then obtain XS' rs' where r:
      "accumulate8 (map Float c) (map Float ys) = (rs', map Float rest)"
      "approx_vec j XS' rs'" "length rs' = 8"
      "sum_list (map fst XS') = sum_list c + sum_list (take (8 * j) ys)"
      "sum_list (map snd XS') = sum_list (map abs c) + sum_list (map abs (take (8 * j) ys))"
      unfolding s0 j_def [symmetric] rest_def [symmetric] by auto
    have tot: "sum_list (map snd XS') + sum_list (map abs rest) = sum_list (map abs xs)"
      unfolding r(5) rest_def sa
      using sum_list_take_drop [of "8 * j" "map abs ys"] by (simp add: take_map drop_map)
    have tot1: "sum_list (map fst XS') + sum_list rest = sum_list xs"
      unfolding r(4) rest_def xs
      using sum_list_take_drop [of "8 * j" ys] by simp
    note nr = sum_list_abs_nonneg [of rest]
    define res where "res = f64_add (f64_add (f64_add (rs' ! 0) (rs' ! 1)) (f64_add (rs' ! 2) (rs' ! 3)))
              (f64_add (f64_add (rs' ! 4) (rs' ! 5)) (f64_add (rs' ! 6) (rs' ! 7)))"
    have t: "approx (j + 3) (sum_list (map fst XS')) (sum_list (map snd XS')) res"
      unfolding res_def using r(2,3)
    proof (rule approx_tree8)
      show "j + 2 \<le> 2 ^ 51 + 2" using block nn by simp
      show "sum_list (map snd XS') \<le> 2 ^ 1023" using tot nr less.prems(3) by linarith
    qed
    have f: "approx (j + 3 + length rest) (sum_list (map fst XS') + sum_list rest)
        (sum_list (map snd XS') + sum_list (map abs rest)) (foldl f64_add res (map Float rest))"
      using t
    proof (rule approx_foldl)
      show "\<forall>x\<in>set rest. on_grid x"
        using less.prems(1) unfolding xs rest_def by (auto dest: in_set_dropD)
      show "j + 3 + length rest \<le> 2 ^ 51 + 2" using block nn by simp
      show "sum_list (map snd XS') + sum_list (map abs rest) \<le> 2 ^ 1023"
        using tot less.prems(3) by simp
    qed
    have "pairwise_sum (map Float xs) = foldl f64_add res (map Float rest)"
      using block
      by (subst pairwise_sum.simps)
        (simp add: n_def [symmetric] Let_def take_map drop_map c_def [symmetric] ys_def [symmetric]
          r(1) res_def)
    moreover have "j + 3 + length rest \<le> length xs" using nn by (simp add: n_def [symmetric])
    ultimately show ?thesis using approx_mono [OF f] by (simp add: tot tot1)
  next
    case split
    define n2 where "n2 = n div 2 - (n div 2) mod 8"
    define a where "a = take n2 xs"
    define b where "b = drop n2 xs"
    have n2: "0 < n2" "n2 < n" using split unfolding n2_def by (simp_all; linarith)+
    have la: "length a = n2" and lb: "length b = n - n2"
      using n2 by (simp_all add: a_def b_def n_def)
    have xs: "xs = a @ b" by (simp add: a_def b_def)
    have sa: "sum_list (map abs xs) = sum_list (map abs a) + sum_list (map abs b)"
      by (simp add: xs)
    note na = sum_list_abs_nonneg [of a] and nb = sum_list_abs_nonneg [of b]
    have A: "approx (length a) (sum_list a) (sum_list (map abs a)) (pairwise_sum (map Float a))"
    proof (rule less.hyps)
      show "length a < length xs" using n2 la by (simp add: n_def)
      show "\<forall>x\<in>set a. on_grid x" using less.prems(1) by (simp add: xs)
      show "length a \<le> 2 ^ 51" using less.prems(2) n2 la by (simp add: n_def)
      show "sum_list (map abs a) \<le> 2 ^ 1023" using less.prems(3) sa nb by linarith
    qed
    have B: "approx (length b) (sum_list b) (sum_list (map abs b)) (pairwise_sum (map Float b))"
    proof (rule less.hyps)
      show "length b < length xs" using n2 lb by (simp add: n_def)
      show "\<forall>x\<in>set b. on_grid x" using less.prems(1) by (simp add: xs)
      show "length b \<le> 2 ^ 51" using less.prems(2) n2 lb by (simp add: n_def)
      show "sum_list (map abs b) \<le> 2 ^ 1023" using less.prems(3) sa na by linarith
    qed
    have m: "length a \<le> n - 1" "length b \<le> n - 1" using n2 la lb by simp_all
    have "approx (Suc (n - 1)) (sum_list a + sum_list b) (sum_list (map abs a) + sum_list (map abs b))
        (f64_add (pairwise_sum (map Float a)) (pairwise_sum (map Float b)))"
    proof (rule approx_add)
      show "approx (n - 1) (sum_list a) (sum_list (map abs a)) (pairwise_sum (map Float a))"
        using A m(1) by (rule approx_mono)
      show "approx (n - 1) (sum_list b) (sum_list (map abs b)) (pairwise_sum (map Float b))"
        using B m(2) by (rule approx_mono)
      show "n - 1 \<le> 2 ^ 51 + 2" using less.prems(2) by (simp add: n_def)
      show "sum_list (map abs a) + sum_list (map abs b) \<le> 2 ^ 1023"
        using less.prems(3) by (simp add: sa)
    qed
    moreover have "pairwise_sum (map Float xs) =
        f64_add (pairwise_sum (map Float a)) (pairwise_sum (map Float b))"
      using split
      by (subst pairwise_sum.simps)
        (simp add: n_def [symmetric] Let_def take_map drop_map a_def b_def n2_def)
    moreover have "Suc (n - 1) = length xs" using n2 by (simp add: n_def)
    ultimately show ?thesis by (simp add: xs)
  qed
qed

subsection \<open>The error of numpy.mean\<close>

lemma round_inputs:
  fixes u t h :: real
  assumes u: "u = 1 / 2 ^ 53" and t: "t = 1 / 2 ^ 1075" and h: "h = 3 * 2 ^ 1022"
    and b: "sum_list (map abs xs) \<le> h"
  shows "\<exists>ys. map f64_round xs = map Float ys \<and> (\<forall>y\<in>set ys. on_grid y) \<and>
     \<bar>sum_list ys - sum_list xs\<bar> \<le> sum_list (map abs xs) * u + real (length xs) * t \<and>
     sum_list (map abs ys) \<le> sum_list (map abs xs) * (1 + u) + real (length xs) * t"
  using b
proof (induction xs)
  case Nil
  show ?case by (rule exI [of _ "[]"]) simp
next
  case (Cons x xs)
  have r0: "0 \<le> sum_list (map abs xs)" by (rule sum_list_abs_nonneg)
  from Cons.prems have s: "\<bar>x\<bar> + sum_list (map abs xs) \<le> h" by simp
  from s r0 have "sum_list (map abs xs) \<le> h" by linarith
  from Cons.IH [OF this] obtain ys where ys: "map f64_round xs = map Float ys"
    "\<forall>y\<in>set ys. on_grid y"
    "\<bar>sum_list ys - sum_list xs\<bar> \<le> sum_list (map abs xs) * u + real (length xs) * t"
    "sum_list (map abs ys) \<le> sum_list (map abs xs) * (1 + u) + real (length xs) * t"
    by blast
  from s r0 have "\<bar>x\<bar> \<le> 3 * 2 ^ 1022" unfolding h by linarith
  then obtain y where y: "f64_round x = Float y" using f64_round_finite by blast
  have g: "on_grid y" using y by (rule f64_round_on_grid)
  have e: "\<bar>y - x\<bar> \<le> \<bar>x\<bar> * u + t"
    using f64_round_rel_error [OF y] unfolding u t by simp
  have 1: "map f64_round (x # xs) = map Float (y # ys)" using y ys(1) by simp
  have 2: "\<forall>z\<in>set (y # ys). on_grid z" using g ys(2) by simp
  have 3: "\<bar>sum_list (y # ys) - sum_list (x # xs)\<bar>
      \<le> sum_list (map abs (x # xs)) * u + real (length (x # xs)) * t"
    using e ys(3) by (simp add: algebra_simps)
  have 4: "sum_list (map abs (y # ys))
      \<le> sum_list (map abs (x # xs)) * (1 + u) + real (length (x # xs)) * t"
    using e ys(4) by (simp add: algebra_simps)
  from 1 2 3 4 show ?case by blast
qed

lemma np_mean_error:
  assumes ne: "xs \<noteq> []" and len: "length xs \<le> 2 ^ 51"
    and T: "sum_list (map abs xs) \<le> 2 ^ 1022"
  shows "\<exists>v. np_mean xs = Float v \<and>
     \<bar>v - sum_list xs / real (length xs)\<bar> \<le>
       err_factor (length xs + 3) * (sum_list (map abs xs) / real (length xs)) + 3 / 2 ^ 1075"
proof -
  define n where "n = length xs"
  define S where "S = sum_list xs"
  define B where "B = sum_list (map abs xs)"
  define E where "E = err_factor (Suc n)"
  define F where "F = err_factor (Suc (Suc n))"
  define u :: real where "u = 1 / 2 ^ 53"
  define t :: real where "t = 1 / 2 ^ 1075"
  define h :: real where "h = 3 * 2 ^ 1022"
  have u0: "0 \<le> u" and t0: "0 \<le> t" unfolding u_def t_def by simp_all
  have n0: "0 < n" using ne by (simp add: n_def)
  have rn: "1 \<le> real n" using n0 by simp
  have rn0: "0 < real n" using n0 by simp
  have nle: "real n \<le> 2 ^ 51" using len unfolding n_def
    by (metis of_nat_le_iff of_nat_numeral of_nat_power)
  have B0: "0 \<le> B" unfolding B_def by (rule sum_list_abs_nonneg)
  have Bh: "B \<le> 2 ^ 1022" using T by (simp add: B_def)
  then have "sum_list (map abs xs) \<le> h" unfolding h_def B_def by simp
  from round_inputs [OF u_def t_def h_def this]
  obtain ys where ys: "map f64_round xs = map Float ys" "\<forall>y\<in>set ys. on_grid y"
    and dS: "\<bar>sum_list ys - S\<bar> \<le> B * u + real n * t"
    and dB: "sum_list (map abs ys) \<le> B * (1 + u) + real n * t"
    unfolding S_def B_def n_def by blast
  define S' where "S' = sum_list ys"
  define B' where "B' = sum_list (map abs ys)"
  have ln: "length ys = n"
  proof -
    have "length (map Float ys) = length (map f64_round xs)" by (simp only: ys(1))
    then show ?thesis by (simp add: n_def)
  qed
  have c: "(2::real) ^ 1022 * (1 + 1 / 2 ^ 53) + 2 ^ 51 * (1 / 2 ^ 1075) \<le> 2 ^ 1023" by simp
  have "B * (1 + u) + real n * t \<le> 2 ^ 1022 * (1 + u) + 2 ^ 51 * t"
    using Bh nle u0 t0 by (intro add_mono mult_right_mono) simp_all
  also have "\<dots> \<le> 2 ^ 1023" using c unfolding u_def t_def .
  finally have B'h: "B' \<le> 2 ^ 1023" using dB unfolding B'_def by linarith
  have P: "approx n S' B' (pairwise_sum (map Float ys))"
    unfolding S'_def B'_def ln [symmetric]
  proof (rule pairwise_sum_approx)
    show "\<forall>x\<in>set ys. on_grid x" by (rule ys(2))
    show "length ys \<le> 2 ^ 51" using len by (simp add: ln n_def)
    show "sum_list (map abs ys) \<le> 2 ^ 1023" using B'h by (simp add: B'_def)
  qed
  have Z: "approx n 0 0 (Float 0)" using approx_zero by (rule approx_mono) simp
  have "approx (Suc n) (0 + S') (0 + B') (f64_add (Float 0) (pairwise_sum (map Float ys)))"
    using Z P by (rule approx_add) (use len B'h in \<open>simp_all add: n_def\<close>)
  then obtain w where w: "f64_add (Float 0) (pairwise_sum (map Float ys)) = Float w"
    and we: "\<bar>w - S'\<bar> \<le> E * B'" and SB: "\<bar>S'\<bar> \<le> B'"
    unfolding approx_def E_def by auto
  have B'0: "0 \<le> B'" using SB by linarith
  have E0: "0 \<le> E" and Eh: "E \<le> 1 / 2"
    unfolding E_def using err_factor_nonneg err_factor_half [of "Suc n"] len by (simp_all add: n_def)
  have F0: "0 \<le> F" and Fh: "F \<le> 1 / 2"
    unfolding F_def using err_factor_nonneg err_factor_half [of "Suc (Suc n)"] len
    by (simp_all add: n_def)
  have FE: "F = E + (1 + E) * u"
    unfolding u_def E_def F_def
    by (simp only: err_factor_Suc [of "Suc n"] times_divide_eq_right mult_1_right)
  have wb: "\<bar>w\<bar> \<le> (1 + E) * B'" using we SB by (simp add: algebra_simps)
  have cnt: "f64_round (real n) = Float (real n)"
  proof (rule f64_round_of_nat)
    have "n \<le> 2 ^ 51" using len by (simp add: n_def)
    also have "\<dots> < (2::nat) ^ 53" by simp
    finally show "n < 2 ^ 53" .
  qed
  have "np_mean xs = f64_div (f64_add (Float 0) (pairwise_sum (map Float ys))) (f64_round (real n))"
    unfolding np_mean_def ys(1) n_def ..
  also have "\<dots> = f64_div (Float w) (Float (real n))" by (simp only: w cnt)
  also have "\<dots> = f64_round (w / real n)" using n0 by (simp only: f64_div.simps) simp
  finally have mean: "np_mean xs = f64_round (w / real n)" .
  define a where "a = (1 + E) * B'"
  have a0: "0 \<le> a" unfolding a_def using E0 B'0 by simp
  have q: "\<bar>w / real n\<bar> \<le> a / real n"
    unfolding a_def using wb n0 by (simp add: divide_right_mono)
  have "a / real n \<le> a / 1"
    using a0 rn by (intro divide_left_mono) simp_all
  also have "a / 1 \<le> (1 + 1 / 2) * B'"
  proof -
    have "(1 + E) * B' \<le> (1 + 1 / 2) * B'" using Eh B'0 by (intro mult_right_mono) simp_all
    then show ?thesis unfolding a_def by simp
  qed
  also have "\<dots> \<le> (1 + 1 / 2) * 2 ^ 1023" using B'h by (intro mult_left_mono) simp_all
  also have "\<dots> = 3 * 2 ^ 1022" by simp
  finally have "\<bar>w / real n\<bar> \<le> 3 * 2 ^ 1022" using q by linarith
  then obtain v where v: "f64_round (w / real n) = Float v" using f64_round_finite by blast
  have "\<bar>v - w / real n\<bar> \<le> \<bar>w / real n\<bar> * u + t"
    using f64_round_rel_error [OF v] unfolding u_def t_def by simp
  also have "\<dots> \<le> a / real n * u + t"
    using q by (simp add: mult_right_mono u_def)
  finally have 1: "\<bar>v - w / real n\<bar> \<le> a / real n * u + t" .
  have "w / real n - S' / real n = (w - S') / real n" by (simp add: diff_divide_distrib)
  then have "\<bar>w / real n - S' / real n\<bar> = \<bar>w - S'\<bar> / real n" using n0 by simp
  also have "\<dots> \<le> E * B' / real n" using we n0 by (simp add: divide_right_mono)
  finally have 2: "\<bar>w / real n - S' / real n\<bar> \<le> E * B' / real n" .
  have "S' / real n - S / real n = (S' - S) / real n" by (simp add: diff_divide_distrib)
  then have "\<bar>S' / real n - S / real n\<bar> = \<bar>S' - S\<bar> / real n" using n0 by simp
  also have "\<dots> \<le> (B * u + real n * t) / real n"
    using dS n0 unfolding S'_def by (simp add: divide_right_mono)
  also have "\<dots> = B / real n * u + t" using n0 by (simp add: add_divide_distrib)
  finally have 3: "\<bar>S' / real n - S / real n\<bar> \<le> B / real n * u + t" .
  define m where "m = B / real n"
  define m' where "m' = B' / real n"
  have "B' / real n \<le> (B * (1 + u) + real n * t) / real n"
    using dB n0 unfolding B'_def by (simp add: divide_right_mono)
  also have "\<dots> = m * (1 + u) + t" using n0 by (simp add: add_divide_distrib m_def)
  finally have mm: "m' \<le> m * (1 + u) + t" unfolding m'_def .
  have a1: "a / real n * u = (1 + E) * u * m'" unfolding a_def m'_def by simp
  have a2: "E * B' / real n = E * m'" unfolding m'_def by simp
  have "\<bar>v - S / real n\<bar> \<le> (1 + E) * u * m' + t + E * m' + (m * u + t)"
    using 1 2 3 unfolding a1 a2 m_def by linarith
  also have "\<dots> = F * m' + m * u + 2 * t" unfolding FE by (simp add: algebra_simps)
  also have "\<dots> \<le> F * (m * (1 + u) + t) + m * u + 2 * t"
    using mm F0 by (simp add: mult_left_mono)
  also have "\<dots> = (F + (1 + F) * u) * m + (2 + F) * t" by (simp add: algebra_simps)
  also have "\<dots> \<le> (F + (1 + F) * u) * m + 3 * t"
    using Fh t0 by (simp add: mult_right_mono)
  also have "F + (1 + F) * u = err_factor (Suc (Suc (Suc n)))"
    unfolding u_def F_def
    by (simp only: err_factor_Suc [of "Suc (Suc n)"] times_divide_eq_right mult_1_right)
  finally have fin: "\<bar>v - S / real n\<bar> \<le> err_factor (n + 3) * (B / real n) + 3 / 2 ^ 1075"
    unfolding t_def m_def by (simp add: eval_nat_numeral)
  from mean v have mv: "np_mean xs = Float v" by (rule trans)
  show ?thesis
    by (rule exI [of _ v], rule conjI, rule mv, rule fin [unfolded n_def S_def B_def])
qed

lemma np_mean_error_linear:
  assumes ne: "xs \<noteq> []" and len: "length xs \<le> 2 ^ 51"
    and T: "sum_list (map abs xs) \<le> 2 ^ 1022"
  shows "\<exists>v. np_mean xs = Float v \<and>
     \<bar>v - sum_list xs / real (length xs)\<bar> \<le>
       (real (length xs) + 3) / 2 ^ 52 * (sum_list (map abs xs) / real (length xs)) + 3 / 2 ^ 1075"
proof -
  define m where "m = sum_list (map abs xs) / real (length xs)"
  define t :: real where "t = 3 / 2 ^ 1075"
  define c :: real where "c = (real (length xs) + 3) / 2 ^ 52"
  from np_mean_error [OF assms] obtain v where v: "np_mean xs = Float v"
    and e: "\<bar>v - sum_list xs / real (length xs)\<bar> \<le> err_factor (length xs + 3) * m + t"
    unfolding m_def t_def by blast
  have m0: "0 \<le> m" unfolding m_def by (simp add: sum_list_abs_nonneg)
  have "err_factor (length xs + 3) \<le> real (length xs + 3) / 2 ^ 52"
    using len by (intro err_factor_linear) simp
  also have "\<dots> = c" unfolding c_def by simp
  finally have "err_factor (length xs + 3) * m \<le> c * m" using m0 by (rule mult_right_mono)
  with e have "\<bar>v - sum_list xs / real (length xs)\<bar> \<le> c * m + t" by linarith
  then show ?thesis using v unfolding c_def m_def t_def by blast
qed

subsection \<open>numpy.mean on the example folds\<close>

lemma f64_round_0_1: "f64_round (1 / 10) = Float (7205759403792794 / 2 ^ 56)"
proof -
  have "f64_round (1 / 10) = Float (of_int 7205759403792794 * 2 powi (max (- 4) (- 1022) - 52))"
  proof (rule f64_round_eqI)
    show "round_half_even ((1 / 10) / 2 powi (max (- 4) (- 1022) - 52)) = 7205759403792794"
      by (rule round_half_even_near) (simp add: power_int_minus_divide)
  qed (simp_all add: power_int_minus_divide)
  then show ?thesis by (simp add: power_int_minus_divide)
qed

lemma f64_round_0_2: "f64_round (1 / 5) = Float (7205759403792794 / 2 ^ 55)"
proof -
  have "f64_round (1 / 5) = Float (of_int 7205759403792794 * 2 powi (max (- 3) (- 1022) - 52))"
  proof (rule f64_round_eqI)
    show "round_half_even ((1 / 5) / 2 powi (max (- 3) (- 1022) - 52)) = 7205759403792794"
      by (rule round_half_even_near) (simp add: power_int_minus_divide)
  qed (simp_all add: power_int_minus_divide)
  then show ?thesis by (simp add: power_int_minus_divide)
qed

lemma f64_round_0_3: "f64_round (3 / 10) = Float (5404319552844595 / 2 ^ 54)"
proof -
  have "f64_round (3 / 10) = Float (of_int 5404319552844595 * 2 powi (max (- 2) (- 1022) - 52))"
  proof (rule f64_round_eqI)
    show "round_half_even ((3 / 10) / 2 powi (max (- 2) (- 1022) - 52)) = 5404319552844595"
      by (rule round_half_even_near) (simp add: power_int_minus_divide)
  qed (simp_all add: power_int_minus_divide)
  then show ?thesis by (simp add: power_int_minus_divide)
qed

lemma f64_round_0_8: "f64_round (4 / 5) = Float (7205759403792794 / 2 ^ 53)"
proof -
  have "f64_round (4 / 5) = Float (of_int 7205759403792794 * 2 powi (max (- 1) (- 1022) - 52))"
  proof (rule f64_round_eqI)
    show "round_half_even ((4 / 5) / 2 powi (max (- 1) (- 1022) - 52)) = 7205759403792794"
      by (rule round_half_even_near) (simp add: power_int_minus_divide)
  qed (simp_all add: power_int_minus_divide)
  then show ?thesis by (simp add: power_int_minus_divide)
qed

lemma f64_round_0_6: "f64_round (3 / 5) = Float (5404319552844595 / 2 ^ 53)"
proof -
  have "f64_round (3 / 5) = Float (of_int 5404319552844595 * 2 powi (max (- 1) (- 1022) - 52))"
  proof (rule f64_round_eqI)
    show "round_half_even ((3 / 5) / 2 powi (max (- 1) (- 1022) - 52)) = 5404319552844595"
      by (rule round_half_even_near) (simp add: power_int_minus_divide)
  qed (simp_all add: power_int_minus_divide)
  then show ?thesis by (simp add: power_int_minus_divide)
qed

lemma f64_round_0_7: "f64_round (7 / 10) = Float (6305039478318694 / 2 ^ 53)"
proof -
  have "f64_round (7 / 10) = Float (of_int 6305039478318694 * 2 powi (max (- 1) (- 1022) - 52))"
  proof (rule f64_round_eqI)
    show "round_half_even ((7 / 10) / 2 powi (max (- 1) (- 1022) - 52)) = 6305039478318694"
      by (rule round_half_even_near) (simp add: power_int_minus_divide)
  qed (simp_all add: power_int_minus_divide)
  then show ?thesis by (simp add: power_int_minus_divide)
qed

lemma sum_123_a: "f64_round (0 + 7205759403792794 / 2 ^ 56) = Float (7205759403792794 / 2 ^ 56)"
proof -
  have "f64_round (0 + 7205759403792794 / 2 ^ 56) = Float (of_int 7205759403792794 * 2 powi (max (- 4) (- 1022) - 52))"
  proof (rule f64_round_eqI)
    show "round_half_even ((0 + 7205759403792794 / 2 ^ 56) / 2 powi (max (- 4) (- 1022) - 52)) = 7205759403792794"
      by (rule round_half_even_near) (simp add: power_int_minus_divide)
  qed (simp_all add: power_int_minus_divide)
  then show ?thesis by (simp add: power_int_minus_divide)
qed

lemma sum_123_b: "f64_round (7205759403792794 / 2 ^ 56 + 7205759403792794 / 2 ^ 55) = Float (5404319552844596 / 2 ^ 54)"
proof -
  have "f64_round (7205759403792794 / 2 ^ 56 + 7205759403792794 / 2 ^ 55) = Float (of_int 5404319552844596 * 2 powi (max (- 2) (- 1022) - 52))"
  proof (rule f64_round_eqI)
    show "round_half_even ((7205759403792794 / 2 ^ 56 + 7205759403792794 / 2 ^ 55) / 2 powi (max (- 2) (- 1022) - 52)) = 5404319552844596"
      by (rule round_half_even_tie_up) (simp_all add: power_int_minus_divide)
  qed (simp_all add: power_int_minus_divide)
  then show ?thesis by (simp add: power_int_minus_divide)
qed

lemma sum_123_c: "f64_round (5404319552844596 / 2 ^ 54 + 5404319552844595 / 2 ^ 54) = Float (5404319552844596 / 2 ^ 53)"
proof -
  have "f64_round (5404319552844596 / 2 ^ 54 + 5404319552844595 / 2 ^ 54) = Float (of_int 5404319552844596 * 2 powi (max (- 1) (- 1022) - 52))"
  proof (rule f64_round_eqI)
    show "round_half_even ((5404319552844596 / 2 ^ 54 + 5404319552844595 / 2 ^ 54) / 2 powi (max (- 1) (- 1022) - 52)) = 5404319552844596"
      by (rule round_half_even_tie_up) (simp_all add: power_int_minus_divide)
  qed (simp_all add: power_int_minus_divide)
  then show ?thesis by (simp add: power_int_minus_divide)
qed

lemma sum_123_d: "f64_round (0 + 5404319552844596 / 2 ^ 53) = Float (5404319552844596 / 2 ^ 53)"
proof -
  have "f64_round (0 + 5404319552844596 / 2 ^ 53) = Float (of_int 5404319552844596 * 2 powi (max (- 1) (- 1022) - 52))"
  proof (rule f64_round_eqI)
    show "round_half_even ((0 + 5404319552844596 / 2 ^ 53) / 2 powi (max (- 1) (- 1022) - 52)) = 5404319552844596"
      by (rule round_half_even_near) (simp add: power_int_minus_divide)
  qed (simp_all add: power_int_minus_divide)
  then show ?thesis by (simp add: power_int_minus_divide)
qed

lemma mean_123: "f64_round (5404319552844596 / 2 ^ 53 / 3) = Float (7205759403792795 / 2 ^ 55)"
proof -
  have "f64_round (5404319552844596 / 2 ^ 53 / 3) = Float (of_int 7205759403792795 * 2 powi (max (- 3) (- 1022) - 52))"
  proof (rule f64_round_eqI)
    show "round_half_even ((5404319552844596 / 2 ^ 53 / 3) / 2 powi (max (- 3) (- 1022) - 52)) = 7205759403792795"
      by (rule round_half_even_near) (simp add: power_int_minus_divide)
  qed (simp_all add: power_int_minus_divide)
  then show ?thesis by (simp add: power_int_minus_divide)
qed

lemma sum_321_a: "f64_round (0 + 5404319552844595 / 2 ^ 54) = Float (5404319552844595 / 2 ^ 54)"
proof -
  have "f64_round (0 + 5404319552844595 / 2 ^ 54) = Float (of_int 5404319552844595 * 2 powi (max (- 2) (- 1022) - 52))"
  proof (rule f64_round_eqI)
    show "round_half_even ((0 + 5404319552844595 / 2 ^ 54) / 2 powi (max (- 2) (- 1022) - 52)) = 5404319552844595"
      by (rule round_half_even_near) (simp add: power_int_minus_divide)
  qed (simp_all add: power_int_minus_divide)
  then show ?thesis by (simp add: power_int_minus_divide)
qed

lemma sum_321_b: "f64_round (5404319552844595 / 2 ^ 54 + 7205759403792794 / 2 ^ 55) = Float (4503599627370496 / 2 ^ 53)"
proof -
  have "f64_round (5404319552844595 / 2 ^ 54 + 7205759403792794 / 2 ^ 55) = Float (of_int 4503599627370496 * 2 powi (max (- 1) (- 1022) - 52))"
  proof (rule f64_round_eqI)
    show "round_half_even ((5404319552844595 / 2 ^ 54 + 7205759403792794 / 2 ^ 55) / 2 powi (max (- 1) (- 1022) - 52)) = 4503599627370496"
      by (rule round_half_even_near) (simp add: power_int_minus_divide)
  qed (simp_all add: power_int_minus_divide)
  then show ?thesis by (simp add: power_int_minus_divide)
qed

lemma sum_321_c: "f64_round (4503599627370496 / 2 ^ 53 + 7205759403792794 / 2 ^ 56) = Float (5404319552844595 / 2 ^ 53)"
proof -
  have "f64_round (4503599627370496 / 2 ^ 53 + 7205759403792794 / 2 ^ 56) = Float (of_int 5404319552844595 * 2 powi (max (- 1) (- 1022) - 52))"
  proof (rule f64_round_eqI)
    show "round_half_even ((4503599627370496 / 2 ^ 53 + 7205759403792794 / 2 ^ 56) / 2 powi (max (- 1) (- 1022) - 52)) = 5404319552844595"
      by (rule round_half_even_near) (simp add: power_int_minus_divide)
  qed (simp_all add: power_int_minus_divide)
  then show ?thesis by (simp add: power_int_minus_divide)
qed

lemma sum_321_d: "f64_round (0 + 5404319552844595 / 2 ^ 53) = Float (5404319552844595 / 2 ^ 53)"
proof -
  have "f64_round (0 + 5404319552844595 / 2 ^ 53) = Float (of_int 5404319552844595 * 2 powi (max (- 1) (- 1022) - 52))"
  proof (rule f64_round_eqI)
    show "round_half_even ((0 + 5404319552844595 / 2 ^ 53) / 2 powi (max (- 1) (- 1022) - 52)) = 5404319552844595"
      by (rule round_half_even_near) (simp add: power_int_minus_divide)
  qed (simp_all add: power_int_minus_divide)
  then show ?thesis by (simp add: power_int_minus_divide)
qed

lemma mean_321: "f64_round (5404319552844595 / 2 ^ 53 / 3) = Float (7205759403792793 / 2 ^ 55)"
proof -
  have "f64_round (5404319552844595 / 2 ^ 53 / 3) = Float (of_int 7205759403792793 * 2 powi (max (- 3) (- 1022) - 52))"
  proof (rule f64_round_eqI)
    show "round_half_even ((5404319552844595 / 2 ^ 53 / 3) / 2 powi (max (- 3) (- 1022) - 52)) = 7205759403792793"
      by (rule round_half_even_near) (simp add: power_int_minus_divide)
  qed (simp_all add: power_int_minus_divide)
  then show ?thesis by (simp add: power_int_minus_divide)
qed

lemma sum_86_a: "f64_round (0 + 7205759403792794 / 2 ^ 53) = Float (7205759403792794 / 2 ^ 53)"
proof -
  have "f64_round (0 + 7205759403792794 / 2 ^ 53) = Float (of_int 7205759403792794 * 2 powi (max (- 1) (- 1022) - 52))"
  proof (rule f64_round_eqI)
    show "round_half_even ((0 + 7205759403792794 / 2 ^ 53) / 2 powi (max (- 1) (- 1022) - 52)) = 7205759403792794"
      by (rule round_half_even_near) (simp add: power_int_minus_divide)
  qed (simp_all add: power_int_minus_divide)
  then show ?thesis by (simp add: power_int_minus_divide)
qed

lemma sum_86_b: "f64_round (7205759403792794 / 2 ^ 53 + 5404319552844595 / 2 ^ 53) = Float (6305039478318694 / 2 ^ 52)"
proof -
  have "f64_round (7205759403792794 / 2 ^ 53 + 5404319552844595 / 2 ^ 53) = Float (of_int 6305039478318694 * 2 powi (max 0 (- 1022) - 52))"
  proof (rule f64_round_eqI)
    show "round_half_even ((7205759403792794 / 2 ^ 53 + 5404319552844595 / 2 ^ 53) / 2 powi (max 0 (- 1022) - 52)) = 6305039478318694"
      by (rule round_half_even_tie_down) (simp_all add: power_int_minus_divide)
  qed (simp_all add: power_int_minus_divide)
  then show ?thesis by (simp add: power_int_minus_divide)
qed

lemma sum_86_c: "f64_round (0 + 6305039478318694 / 2 ^ 52) = Float (6305039478318694 / 2 ^ 52)"
proof -
  have "f64_round (0 + 6305039478318694 / 2 ^ 52) = Float (of_int 6305039478318694 * 2 powi (max 0 (- 1022) - 52))"
  proof (rule f64_round_eqI)
    show "round_half_even ((0 + 6305039478318694 / 2 ^ 52) / 2 powi (max 0 (- 1022) - 52)) = 6305039478318694"
      by (rule round_half_even_near) (simp add: power_int_minus_divide)
  qed (simp_all add: power_int_minus_divide)
  then show ?thesis by (simp add: power_int_minus_divide)
qed

lemma mean_86: "f64_round (6305039478318694 / 2 ^ 52 / 2) = Float (6305039478318694 / 2 ^ 53)"
proof -
  have "f64_round (6305039478318694 / 2 ^ 52 / 2) = Float (of_int 6305039478318694 * 2 powi (max (- 1) (- 1022) - 52))"
  proof (rule f64_round_eqI)
    show "round_half_even ((6305039478318694 / 2 ^ 52 / 2) / 2 powi (max (- 1) (- 1022) - 52)) = 6305039478318694"
      by (rule round_half_even_near) (simp add: power_int_minus_divide)
  qed (simp_all add: power_int_minus_divide)
  then show ?thesis by (simp add: power_int_minus_divide)
qed

lemma pairwise_sum_small:
  "length a < 8 \<Longrightarrow> pairwise_sum a = foldl f64_add (Float 0) a"
  by (subst pairwise_sum.simps) (simp add: Let_def)

lemma f64_round_count2: "f64_round (real (length [x, y])) = Float 2"
  using f64_round_of_nat [of 2] by simp

lemma f64_round_count3: "f64_round (real (length [x, y, z])) = Float 3"
  using f64_round_of_nat [of 3] by simp

lemma f64_div_by_2: "f64_div (Float s) (Float 2) = f64_round (s / 2)"
  by simp

lemma f64_div_by_3: "f64_div (Float s) (Float 3) = f64_round (s / 3)"
  by simp

lemma np_mean_small:
  "length xs < 8 \<Longrightarrow> np_mean xs =
     f64_div (f64_add (Float 0) (foldl f64_add (Float 0) (map f64_round xs)))
       (f64_round (real (length xs)))"
  by (simp add: np_mean_def pairwise_sum_small)

lemma np_mean_0_1_0_2_0_3:
  "np_mean [1 / 10, 1 / 5, 3 / 10] = Float (7205759403792795 / 2 ^ 55)"
proof -
  have "length [1 / 10, 1 / 5, 3 / 10 :: real] < 8" by simp
  then show ?thesis
    by (simp only: np_mean_small list.map foldl_Cons foldl_Nil f64_round_count3
        f64_round_0_1 f64_round_0_2 f64_round_0_3 f64_add.simps
        sum_123_a sum_123_b sum_123_c sum_123_d f64_div_by_3 mean_123)
qed

lemma np_mean_0_3_0_2_0_1:
  "np_mean [3 / 10, 1 / 5, 1 / 10] = Float (7205759403792793 / 2 ^ 55)"
proof -
  have "length [3 / 10, 1 / 5, 1 / 10 :: real] < 8" by simp
  then show ?thesis
    by (simp only: np_mean_small list.map foldl_Cons foldl_Nil f64_round_count3
        f64_round_0_1 f64_round_0_2 f64_round_0_3 f64_add.simps
        sum_321_a sum_321_b sum_321_c sum_321_d f64_div_by_3 mean_321)
qed

lemma np_mean_0_8_0_6:
  "np_mean [4 / 5, 3 / 5] = f64_round (7 / 10)"
proof -
  have "length [4 / 5, 3 / 5 :: real] < 8" by simp
  then show ?thesis
    by (simp only: np_mean_small list.map foldl_Cons foldl_Nil f64_round_count2
        f64_round_0_8 f64_round_0_6 f64_round_0_7 f64_add.simps
        sum_86_a sum_86_b sum_86_c f64_div_by_2 mean_86)
qed

lemma np_mean_Nil: "np_mean [] = NaN"
  by (simp add: np_mean_def f64_round_def)

text \<open>
  Outside the range of the error bound the sum can overflow: the mean of two values
  \<open>2\<^sup>1\<^sup>0\<^sup>2\<^sup>3\<close> is infinite, although their arithmetic mean is a double.
\<close>

lemma f64_round_2_1023: "f64_round (2 ^ 1023) = Float (2 ^ 1023)"
proof -
  have "f64_round (2 ^ 1023) = Float (of_int (2 ^ 52) * 2 powi (max 1023 (- 1022) - 52))"
  proof (rule f64_round_eqI)
    show "round_half_even (2 ^ 1023 / 2 powi (max 1023 (- 1022) - 52)) = 2 ^ 52"
      by (rule round_half_even_near) (simp add: power_int_def)
  qed (simp_all add: power_int_def)
  then show ?thesis by (simp add: power_int_def)
qed

lemma f64_round_2_1024: "f64_round (2 ^ 1024) = PosInf"
proof -
  define x :: real where "x = 2 ^ 1024"
  have x0: "x \<noteq> 0" unfolding x_def by simp
  have e: "f64_exponent x = 1024"
    by (rule f64_exponent_eqI) (simp_all add: x_def power_int_def)
  have q: "f64_quantum x = 2 powi 972"
    unfolding f64_quantum_def e by simp
  have k: "round_half_even (x / 2 powi 972) = 2 ^ 52"
    by (rule round_half_even_near) (simp add: x_def power_int_def)
  have v: "(2::real) ^ 1024 \<le> real_of_int (2 ^ 52) * 2 powi 972"
    by (simp add: power_int_def)
  have "f64_round x = PosInf"
    unfolding f64_round_def q k Let_def using x0 v by (simp only: if_False if_True)
  then show ?thesis unfolding x_def .
qed

lemma np_mean_overflow: "np_mean [2 ^ 1023, 2 ^ 1023] = PosInf"
proof -
  have s: "(0::real) + 2 ^ 1023 = 2 ^ 1023" "(2::real) ^ 1023 + 2 ^ 1023 = 2 ^ 1024" by simp_all
  have "length [2 ^ 1023, 2 ^ 1023 :: real] < 8" by simp
  then show ?thesis
    by (simp only: np_mean_small list.map foldl_Cons foldl_Nil f64_round_count2
        f64_round_2_1023 f64_add.simps s f64_round_2_1024 f64_div.simps if_False
        numeral_eq_iff)
      simp
qed

section \<open>Properties of results.py\<close>

subsection \<open>Result\<close>

lemma set_values_all_present:
  assumes "cr ''weighted avg'' = Some wa" "wa ''f1-score'' = Some f" "wa ''precision'' = Some p"
    "wa ''recall'' = Some r" "cr ''best_result'' = Some br" "br ''best_acc'' = Some a"
    "br ''best_epoch'' = Some ep"
  shows "set_values_from_classification_report self cr =
     Inr (self\<lparr>f1_score := f, precision := p, recall := r, best_acc := a, best_epoch := ep\<rparr>)"
  using assms by (simp add: set_values_from_classification_report_def getitem2_def getitem_def)

lemma set_values_raises_iff:
  "(\<exists>e s. set_values_from_classification_report self cr = Inl (e, s)) = (\<not> has_required_keys cr)"
  by (auto simp: set_values_from_classification_report_def getitem2_def getitem_def Let_def
      has_required_keys_def split: option.splits sum.splits)

lemma set_values_raises_KeyError:
  "set_values_from_classification_report self cr = Inl (e, s) \<Longrightarrow> \<exists>k. e = KeyError k"
  by (auto simp: set_values_from_classification_report_def getitem2_def getitem_def Let_def
      split: option.splits sum.splits)

text \<open>
  Claim C8. A Result built without a report has all five metrics zero; a Result built from
  the report \<^verbatim>\<open>{"weighted avg": {"precision": 0.8, "recall": 0.7, "f1-score": 0.75},
  "best_result": {"best_acc": 0.9, "best_epoch": 3}}\<close> has precision 0.8, recall 0.7,
  f1_score 0.75, best_acc 0.9 and best_epoch 3.
\<close>

theorem Result_init_values:
  "Result_init None =
     Inr \<lparr>best_acc = 0, best_epoch = 0, precision = 0, recall = 0, f1_score = 0\<rparr> \<and>
   Result_init
     (Some [''weighted avg'' \<mapsto> [''precision'' \<mapsto> 0.8, ''recall'' \<mapsto> 0.7, ''f1-score'' \<mapsto> 0.75],
            ''best_result'' \<mapsto> [''best_acc'' \<mapsto> 0.9, ''best_epoch'' \<mapsto> 3]]) =
     Inr \<lparr>best_acc = 0.9, best_epoch = 3, precision = 0.8, recall = 0.7, f1_score = 0.75\<rparr>"
  by (simp add: Result_init_def set_values_from_classification_report_def getitem2_def
      getitem_def)

text \<open>
  Claim C7. Building a Result from a report raises a KeyError exactly when one of the
  required keys is missing; it raises nothing else, and when the keys are there the five
  values are stored as they are, whatever they are.
\<close>

theorem Result_init_KeyError_iff:
  "((\<exists>k. Result_init (Some cr) = Inl (KeyError k)) = (\<not> has_required_keys cr)) \<and>
   (\<forall>e. Result_init (Some cr) = Inl e \<longrightarrow> (\<exists>k. e = KeyError k)) \<and>
   (\<forall>wa br p r f a ep.
      cr ''weighted avg'' = Some wa \<and> wa ''precision'' = Some p \<and> wa ''recall'' = Some r \<and>
      wa ''f1-score'' = Some f \<and> cr ''best_result'' = Some br \<and> br ''best_acc'' = Some a \<and>
      br ''best_epoch'' = Some ep \<longrightarrow>
      Result_init (Some cr) =
        Inr \<lparr>best_acc = a, best_epoch = ep, precision = p, recall = r, f1_score = f\<rparr>)"
proof (intro conjI allI impI)
  show "(\<exists>k. Result_init (Some cr) = Inl (KeyError k)) = (\<not> has_required_keys cr)"
    using set_values_raises_iff [of _ cr] set_values_raises_KeyError [of _ cr]
    by (fastforce simp: Result_init_def split: sum.splits)
next
  fix e assume "Result_init (Some cr) = Inl e"
  then show "\<exists>k. e = KeyError k"
    using set_values_raises_KeyError [of _ cr]
    by (fastforce simp: Result_init_def split: sum.splits)
next
  fix wa br p r f a ep
  assume "cr ''weighted avg'' = Some wa \<and> wa ''precision'' = Some p \<and> wa ''recall'' = Some r \<and>
      wa ''f1-score'' = Some f \<and> cr ''best_result'' = Some br \<and> br ''best_acc'' = Some a \<and>
      br ''best_epoch'' = Some ep"
  then show "Result_init (Some cr) =
        Inr \<lparr>best_acc = a, best_epoch = ep, precision = p, recall = r, f1_score = f\<rparr>"
    by (simp add: Result_init_def set_values_all_present)
qed

theorem Result_init_KeyError_iff_witness:
  "has_required_keys example_report \<and>
   Result_init (Some example_report) =
     Inr \<lparr>best_acc = 0.9, best_epoch = 3, precision = 0.8, recall = 0.7, f1_score = 0.75\<rparr> \<and>
   \<not> has_required_keys report_without_best \<and>
   (\<exists>k. Result_init (Some report_without_best) = Inl (KeyError k))"
  using Result_init_KeyError_iff [of example_report]
    Result_init_KeyError_iff [of report_without_best]
  by (simp add: example_report_def report_without_best_def has_required_keys_def)

text \<open>
  Claim C10. \<^verbatim>\<open>set_values_from_classification_report\<close> is not atomic: on a report with a
  complete \<^verbatim>\<open>"weighted avg"\<close> entry and no \<^verbatim>\<open>"best_result"\<close> key, the KeyError for
  \<^verbatim>\<open>"best_result"\<close> is raised when f1_score, precision and recall have already been
  overwritten; best_acc and best_epoch keep the values they had.
\<close>

theorem set_values_not_atomic:
  assumes "cr ''weighted avg'' = Some wa"
    and "wa ''f1-score'' = Some f" and "wa ''precision'' = Some p" and "wa ''recall'' = Some r"
    and "cr ''best_result'' = None"
  shows "set_values_from_classification_report self cr =
     Inl (KeyError ''best_result'', self\<lparr>f1_score := f, precision := p, recall := r\<rparr>)"
  using assms by (simp add: set_values_from_classification_report_def getitem2_def getitem_def)

theorem set_values_not_atomic_witness:
  "set_values_from_classification_report fold_b report_without_best =
     Inl (KeyError ''best_result'',
          \<lparr>best_acc = 0.85, best_epoch = 5, precision = 0.8, recall = 0.7, f1_score = 0.75\<rparr>) \<and>
   \<lparr>best_acc = 0.85, best_epoch = 5, precision = 0.8, recall = 0.7, f1_score = 0.75\<rparr> \<noteq> fold_b"
  using set_values_not_atomic [of report_without_best
      "[''precision'' \<mapsto> 0.8, ''recall'' \<mapsto> 0.7, ''f1-score'' \<mapsto> 0.75]" "0.75" "0.8" "0.7" fold_b]
  by (simp add: report_without_best_def fold_b_def)

subsection \<open>IterationResults\<close>

lemma fold_results_foldl:
  "fold_results (foldl add_result it rs) = fold_results it @ rs"
  by (induction rs arbitrary: it) (simp_all add: add_result_def)

lemma fold_results_added:
  "fold_results (foldl add_result IterationResults_init rs) = rs"
  by (simp add: fold_results_foldl IterationResults_init_def)

lemma length_print_folds: "length (print_folds i rs) = 3 * length rs"
  by (induction rs arbitrary: i) simp_all

lemma print_folds_nth:
  "k < length rs \<Longrightarrow>
     print_folds i rs ! (3 * k) = FoldHeader (i + k + 1) \<and>
     print_folds i rs ! (3 * k + 1) =
       FoldMetrics (precision (rs ! k)) (recall (rs ! k)) (f1_score (rs ! k)) \<and>
     print_folds i rs ! (3 * k + 2) = FoldBest (best_epoch (rs ! k)) (best_acc (rs ! k))"
proof (induction rs arbitrary: i k)
  case Nil
  then show ?case by simp
next
  case (Cons r rs)
  show ?case
  proof (cases k)
    case 0
    then show ?thesis by simp
  next
    case (Suc m)
    with Cons.prems have m: "m < length rs" by simp
    have e0: "3 * k = Suc (Suc (Suc (3 * m)))" using Suc by simp
    from Cons.IH [OF m, of "i + 1"] show ?thesis
      by (simp add: e0 Suc)
  qed
qed

lemma print_result_added_dict:
  "snd (print_result (foldl add_result IterationResults_init rs)) =
     [''precision'' \<mapsto> np_mean (map precision rs),
      ''recall'' \<mapsto> np_mean (map recall rs),
      ''f1_score'' \<mapsto> np_mean (map f1_score rs)]"
  by (simp add: print_result_def fold_results_added Let_def)

lemma print_result_added_output:
  "fst (print_result (foldl add_result IterationResults_init rs)) =
     print_folds 0 rs @
       [Separator, AvgHeader,
        AvgMetrics (np_mean (map precision rs)) (np_mean (map recall rs))
          (np_mean (map f1_score rs))]"
  by (simp add: print_result_def fold_results_added Let_def)

lemma np_mean_near:
  assumes "xs \<noteq> []" and "length xs \<le> 2 ^ 51" and "sum_list (map abs xs) \<le> 2 ^ 1022"
  shows "near_mean xs (np_mean xs)"
proof -
  from np_mean_error_linear [OF assms] obtain v where v: "np_mean xs = Float v"
    and e: "\<bar>v - sum_list xs / real (length xs)\<bar> \<le>
       (real (length xs) + 3) / 2 ^ 52 * (sum_list (map abs xs) / real (length xs)) + 3 / 2 ^ 1075"
    by blast
  show ?thesis unfolding near_mean_def mean_error_bound_def v np_float.case by (rule e)
qed

lemma np_mean_metric_near:
  assumes "rs \<noteq> []" and "length rs \<le> 2 ^ 51" and "sum_list (map abs (map f rs)) \<le> 2 ^ 1022"
  shows "near_mean (map f rs) (np_mean (map f rs))"
proof (rule np_mean_near)
  show "map f rs \<noteq> []" using assms(1) by simp
  show "length (map f rs) \<le> 2 ^ 51" using assms(2) by (simp only: length_map)
  show "sum_list (map abs (map f rs)) \<le> 2 ^ 1022" by (rule assms(3))
qed

text \<open>
  Claim C5, as stated, fails: the value that \<^verbatim>\<open>print_result\<close> returns is not the
  arithmetic mean. For three folds of precision 0.1, 0.2 and 0.3 the arithmetic mean is
  0.2, whose nearest double is \<open>7205759403792794 / 2\<^sup>5\<^sup>5\<close>; \<^verbatim>\<open>numpy.mean\<close> rounds after
  each addition and after the division, and returns the next double above it,
  \<open>7205759403792795 / 2\<^sup>5\<^sup>5\<close>, which Python prints as 0.20000000000000004.
\<close>

theorem print_result_average_counterexample:
  "snd (print_result
      (add_result (add_result (add_result IterationResults_init fold_c) fold_d) fold_e))
     ''precision'' = Some (Float (7205759403792795 / 2 ^ 55)) \<and>
   sum_list (map precision [fold_c, fold_d, fold_e]) / real (length [fold_c, fold_d, fold_e]) =
     1 / 5 \<and>
   f64_round (1 / 5) = Float (7205759403792794 / 2 ^ 55) \<and>
   (7205759403792795 / 2 ^ 55 :: real) \<noteq> 1 / 5 \<and>
   (7205759403792795 / 2 ^ 55 :: real) \<noteq> 7205759403792794 / 2 ^ 55"
proof -
  have it: "add_result (add_result (add_result IterationResults_init fold_c) fold_d) fold_e =
      foldl add_result IterationResults_init [fold_c, fold_d, fold_e]" by simp
  have p: "map precision [fold_c, fold_d, fold_e] = [1 / 10, 1 / 5, 3 / 10]"
    by (simp add: fold_c_def fold_d_def fold_e_def)
  have 1: "snd (print_result
      (add_result (add_result (add_result IterationResults_init fold_c) fold_d) fold_e))
     ''precision'' = Some (Float (7205759403792795 / 2 ^ 55))"
    unfolding it print_result_added_dict p np_mean_0_1_0_2_0_3 by simp
  have 2: "sum_list (map precision [fold_c, fold_d, fold_e]) /
      real (length [fold_c, fold_d, fold_e]) = 1 / 5"
    unfolding p by simp
  have 3: "(7205759403792795 / 2 ^ 55 :: real) \<noteq> 1 / 5" by simp
  have 4: "(7205759403792795 / 2 ^ 55 :: real) \<noteq> 7205759403792794 / 2 ^ 55" by simp
  from 1 2 f64_round_0_2 3 4 show ?thesis by blast
qed

text \<open>
  The same three folds added in the opposite order give another average: the value that
  \<^verbatim>\<open>print_result\<close> returns depends on the order of the folds.
\<close>

lemma print_result_depends_on_order:
  "snd (print_result
      (add_result (add_result (add_result IterationResults_init fold_e) fold_d) fold_c))
     ''precision'' = Some (Float (7205759403792793 / 2 ^ 55))"
proof -
  have it: "add_result (add_result (add_result IterationResults_init fold_e) fold_d) fold_c =
      foldl add_result IterationResults_init [fold_e, fold_d, fold_c]" by simp
  have p: "map precision [fold_e, fold_d, fold_c] = [3 / 10, 1 / 5, 1 / 10]"
    by (simp add: fold_c_def fold_d_def fold_e_def)
  show ?thesis
    unfolding it print_result_added_dict p np_mean_0_3_0_2_0_1 by simp
qed

text \<open>
  Claim C5. After a non-empty sequence \<open>rs\<close> of Results has been added to a fresh
  IterationResults, \<^verbatim>\<open>print_result\<close> prints the folds in the order in which they were
  added, numbered from 1, and returns the dict with exactly the keys \<^verbatim>\<open>precision\<close>,
  \<^verbatim>\<open>recall\<close> and \<^verbatim>\<open>f1_score\<close>, each holding \<^verbatim>\<open>numpy.mean\<close> of that metric over all folds.
  That value is computed in binary64 and is in general not the arithmetic mean; for at
  most \<open>2\<^sup>5\<^sup>1\<close> folds whose absolute values of the metric sum to at most \<open>2\<^sup>1\<^sup>0\<^sup>2\<^sup>2\<close>, it is a
  finite double within \<open>mean_error_bound\<close> of the arithmetic mean. With two folds of
  precision 0.8 and 0.6 the returned precision is the double 0.7.
\<close>

theorem print_result_average:
  assumes "rs \<noteq> []"
  shows "fold_results (foldl add_result IterationResults_init rs) = rs \<and>
    snd (print_result (foldl add_result IterationResults_init rs)) =
      [''precision'' \<mapsto> np_mean (map precision rs),
       ''recall'' \<mapsto> np_mean (map recall rs),
       ''f1_score'' \<mapsto> np_mean (map f1_score rs)] \<and>
    dom (snd (print_result (foldl add_result IterationResults_init rs))) =
      {''precision'', ''recall'', ''f1_score''} \<and>
    (\<forall>k < length rs.
       fst (print_result (foldl add_result IterationResults_init rs)) ! (3 * k) =
         FoldHeader (k + 1) \<and>
       fst (print_result (foldl add_result IterationResults_init rs)) ! (3 * k + 1) =
         FoldMetrics (precision (rs ! k)) (recall (rs ! k)) (f1_score (rs ! k)) \<and>
       fst (print_result (foldl add_result IterationResults_init rs)) ! (3 * k + 2) =
         FoldBest (best_epoch (rs ! k)) (best_acc (rs ! k))) \<and>
    (length rs \<le> 2 ^ 51 \<longrightarrow>
       (sum_list (map abs (map precision rs)) \<le> 2 ^ 1022 \<longrightarrow>
          near_mean (map precision rs) (np_mean (map precision rs))) \<and>
       (sum_list (map abs (map recall rs)) \<le> 2 ^ 1022 \<longrightarrow>
          near_mean (map recall rs) (np_mean (map recall rs))) \<and>
       (sum_list (map abs (map f1_score rs)) \<le> 2 ^ 1022 \<longrightarrow>
          near_mean (map f1_score rs) (np_mean (map f1_score rs)))) \<and>
    (\<forall>r1 r2. rs = [r1, r2] \<and> precision r1 = 0.8 \<and> precision r2 = 0.6 \<longrightarrow>
       snd (print_result (foldl add_result IterationResults_init rs)) ''precision'' =
         Some (f64_round 0.7))"
proof -
  let ?it = "foldl add_result IterationResults_init rs"
  have fr: "fold_results ?it = rs" by (rule fold_results_added)
  have m: "snd (print_result ?it) =
      [''precision'' \<mapsto> np_mean (map precision rs),
       ''recall'' \<mapsto> np_mean (map recall rs),
       ''f1_score'' \<mapsto> np_mean (map f1_score rs)]"
    by (rule print_result_added_dict)
  have d: "dom (snd (print_result ?it)) = {''precision'', ''recall'', ''f1_score''}"
    unfolding m by auto
  have out: "fst (print_result ?it) = print_folds 0 rs @
      [Separator, AvgHeader,
       AvgMetrics (np_mean (map precision rs)) (np_mean (map recall rs))
         (np_mean (map f1_score rs))]"
    by (rule print_result_added_output)
  have o: "\<forall>k < length rs.
       fst (print_result ?it) ! (3 * k) = FoldHeader (k + 1) \<and>
       fst (print_result ?it) ! (3 * k + 1) =
         FoldMetrics (precision (rs ! k)) (recall (rs ! k)) (f1_score (rs ! k)) \<and>
       fst (print_result ?it) ! (3 * k + 2) =
         FoldBest (best_epoch (rs ! k)) (best_acc (rs ! k))"
  proof (intro allI impI)
    fix k assume k: "k < length rs"
    then have "3 * k + 2 < length (print_folds 0 rs)" by (simp add: length_print_folds)
    then have "3 * k < length (print_folds 0 rs)" "3 * k + 1 < length (print_folds 0 rs)"
      "3 * k + 2 < length (print_folds 0 rs)" by simp_all
    then show "fst (print_result ?it) ! (3 * k) = FoldHeader (k + 1) \<and>
       fst (print_result ?it) ! (3 * k + 1) =
         FoldMetrics (precision (rs ! k)) (recall (rs ! k)) (f1_score (rs ! k)) \<and>
       fst (print_result ?it) ! (3 * k + 2) =
         FoldBest (best_epoch (rs ! k)) (best_acc (rs ! k))"
      using print_folds_nth [OF k, of 0] by (simp add: out nth_append del: print_folds.simps)
  qed
  have n: "length rs \<le> 2 ^ 51 \<longrightarrow>
       (sum_list (map abs (map precision rs)) \<le> 2 ^ 1022 \<longrightarrow>
          near_mean (map precision rs) (np_mean (map precision rs))) \<and>
       (sum_list (map abs (map recall rs)) \<le> 2 ^ 1022 \<longrightarrow>
          near_mean (map recall rs) (np_mean (map recall rs))) \<and>
       (sum_list (map abs (map f1_score rs)) \<le> 2 ^ 1022 \<longrightarrow>
          near_mean (map f1_score rs) (np_mean (map f1_score rs)))"
    using np_mean_metric_near [OF assms] by blast
  have ex: "\<forall>r1 r2. rs = [r1, r2] \<and> precision r1 = 0.8 \<and> precision r2 = 0.6 \<longrightarrow>
       snd (print_result ?it) ''precision'' = Some (f64_round 0.7)"
  proof (intro allI impI)
    fix r1 r2
    assume a: "rs = [r1, r2] \<and> precision r1 = 0.8 \<and> precision r2 = 0.6"
    then have rs: "rs = [r1, r2]" and q1: "precision r1 = 0.8" and q2: "precision r2 = 0.6"
      by blast+
    have p1: "precision r1 = 4 / 5" using q1 by simp
    have p2: "precision r2 = 3 / 5" using q2 by simp
    have mp: "map precision rs = [4 / 5, 3 / 5]" unfolding rs by (simp only: list.map p1 p2)
    show "snd (print_result ?it) ''precision'' = Some (f64_round 0.7)"
      unfolding m mp np_mean_0_8_0_6 by simp
  qed
  show ?thesis using fr m d o n ex by blast
qed

theorem print_result_average_witness:
  "[fold_a, fold_b] \<noteq> [] \<and>
   length [fold_a, fold_b] \<le> 2 ^ 51 \<and>
   sum_list (map abs (map precision [fold_a, fold_b])) \<le> 2 ^ 1022 \<and>
   sum_list (map abs (map recall [fold_a, fold_b])) \<le> 2 ^ 1022 \<and>
   sum_list (map abs (map f1_score [fold_a, fold_b])) \<le> 2 ^ 1022 \<and>
   near_mean (map precision [fold_a, fold_b]) (np_mean (map precision [fold_a, fold_b])) \<and>
   near_mean (map recall [fold_a, fold_b]) (np_mean (map recall [fold_a, fold_b])) \<and>
   near_mean (map f1_score [fold_a, fold_b]) (np_mean (map f1_score [fold_a, fold_b])) \<and>
   snd (print_result (add_result (add_result IterationResults_init fold_a) fold_b))
     ''precision'' = Some (Float (6305039478318694 / 2 ^ 53)) \<and>
   fst (print_result (add_result (add_result IterationResults_init fold_a) fold_b)) ! 0 =
     FoldHeader 1 \<and>
   fst (print_result (add_result (add_result IterationResults_init fold_a) fold_b)) ! 4 =
     FoldMetrics 0.6 0.5 0.55"
proof -
  let ?rs = "[fold_a, fold_b]"
  have ne: "?rs \<noteq> []" by simp
  note T = print_result_average [OF ne]
  have it: "add_result (add_result IterationResults_init fold_a) fold_b =
      foldl add_result IterationResults_init ?rs" by simp
  have l: "length ?rs \<le> 2 ^ 51" by simp
  have bp: "sum_list (map abs (map precision ?rs)) \<le> 2 ^ 1022"
    by (simp add: fold_a_def fold_b_def)
  have br: "sum_list (map abs (map recall ?rs)) \<le> 2 ^ 1022"
    by (simp add: fold_a_def fold_b_def)
  have bf: "sum_list (map abs (map f1_score ?rs)) \<le> 2 ^ 1022"
    by (simp add: fold_a_def fold_b_def)
  from T l bp br bf have nm: "near_mean (map precision ?rs) (np_mean (map precision ?rs)) \<and>
      near_mean (map recall ?rs) (np_mean (map recall ?rs)) \<and>
      near_mean (map f1_score ?rs) (np_mean (map f1_score ?rs))" by blast
  have pr: "?rs = [fold_a, fold_b] \<and> precision fold_a = 0.8 \<and> precision fold_b = 0.6"
    by (simp add: fold_a_def fold_b_def)
  from T pr have "snd (print_result (foldl add_result IterationResults_init ?rs)) ''precision'' =
      Some (f64_round 0.7)" by blast
  then have v: "snd (print_result (add_result (add_result IterationResults_init fold_a) fold_b))
      ''precision'' = Some (Float (6305039478318694 / 2 ^ 53))"
    by (simp only: it f64_round_0_7)
  have k0: "0 < length ?rs" and k1: "1 < length ?rs" by simp_all
  from T k0 have "fst (print_result (foldl add_result IterationResults_init ?rs)) ! (3 * 0) =
      FoldHeader (0 + 1)" by blast
  then have o0: "fst (print_result (add_result (add_result IterationResults_init fold_a) fold_b)) ! 0 =
      FoldHeader 1" by (simp del: foldl_Cons add: it)
  have e1: "FoldMetrics (precision (?rs ! 1)) (recall (?rs ! 1)) (f1_score (?rs ! 1)) =
      FoldMetrics 0.6 0.5 0.55" by (simp add: fold_b_def)
  have i4: "3 * 1 + 1 = (4::nat)" by simp
  from T k1 have "fst (print_result (foldl add_result IterationResults_init ?rs)) ! (3 * 1 + 1) =
      FoldMetrics (precision (?rs ! 1)) (recall (?rs ! 1)) (f1_score (?rs ! 1))" by blast
  then have o1: "fst (print_result (add_result (add_result IterationResults_init fold_a) fold_b)) ! 4 =
      FoldMetrics 0.6 0.5 0.55" unfolding e1 i4 it [symmetric] .
  from ne l bp br bf nm v o0 o1 show ?thesis by blast
qed

text \<open>
  Claim C6. On an IterationResults without folds, \<^verbatim>\<open>print_result\<close> raises nothing: it
  prints the summary and returns the dict in which precision, recall and f1_score are NaN,
  the mean of an empty list.
\<close>

theorem print_result_empty_nan:
  "print_result IterationResults_init =
     ([Separator, AvgHeader, AvgMetrics NaN NaN NaN],
      [''precision'' \<mapsto> NaN, ''recall'' \<mapsto> NaN, ''f1_score'' \<mapsto> NaN])"
  by (simp add: print_result_def IterationResults_init_def np_mean_Nil)

section \<open>Properties of the layers\<close>

subsection \<open>Shapes\<close>

lemma and_then_simps [simp]:
  "and_then (Inl e) f = Inl e" "and_then (Inr v) f = f v"
  by (simp_all add: and_then_def)

lemma has_shapeD:
  "has_shape t b n \<Longrightarrow> length (rows t) = b \<and> width t = n \<and> (\<forall>r \<in> set (rows t). length r = n)"
  by (simp add: has_shape_def list_all_iff)

lemma has_shape_relu: "has_shape x b n \<Longrightarrow> has_shape (relu x) b n"
  by (simp add: has_shape_def relu_def list_all_iff)

lemma has_shape_mul_scalar: "has_shape x b n \<Longrightarrow> has_shape (mul_scalar x w) b n"
  by (simp add: has_shape_def mul_scalar_def list_all_iff)

lemma has_shape_apply_mask: "has_shape x b n \<Longrightarrow> has_shape (apply_mask p m x) b n"
  by (auto simp: has_shape_def apply_mask_def list_all_iff dest!: set_zip_rightD)

lemma has_shape_Dropout:
  "has_shape x b n \<Longrightarrow> has_shape (fst (Dropout_forward d g x)) b n"
  by (simp add: Dropout_forward_def has_shape_mul_scalar has_shape_apply_mask)

lemma Linear_forward_shape:
  assumes "sized_linear l i o'" and "has_shape x b i"
  shows "\<exists>y. Linear_forward l x = Inr y \<and> has_shape y b o'"
  using assms
  by (simp add: sized_linear_def wf_linear_def Linear_forward_def has_shape_def list_all_iff)

lemma has_shape_join:
  assumes "has_shape a b n1" "has_shape c b n2"
  shows "has_shape \<lparr>width = width a + width c, rows = map2 (@) (rows a) (rows c)\<rparr> b (n1 + n2)"
proof -
  have "length r = n1 + n2" if "r \<in> set (map2 (@) (rows a) (rows c))" for r
  proof -
    from that obtain u v where uv: "(u, v) \<in> set (zip (rows a) (rows c))" and r: "r = u @ v"
      by auto
    from uv have "u \<in> set (rows a)" and "v \<in> set (rows c)"
      by (auto dest: set_zip_leftD set_zip_rightD)
    with assms have "length u = n1" and "length v = n2"
      by (auto dest: has_shapeD)
    with r show ?thesis by simp
  qed
  with assms show ?thesis
    by (simp add: has_shape_def list_all_iff)
qed

lemma torch_cat3_shape:
  assumes "has_shape a b n1" "has_shape c b n2" "has_shape d b n3"
  shows "\<exists>y. torch_cat [a, c, d] = Inr y \<and> has_shape y b (n1 + n2 + n3)"
proof -
  let ?u = "\<lparr>width = width c + width d, rows = map2 (@) (rows c) (rows d)\<rparr>"
  have u: "has_shape ?u b (n2 + n3)" using assms(2,3) by (rule has_shape_join)
  have cu: "torch_cat [c, d] = Inr ?u"
    using assms(2,3) by (simp add: has_shape_def)
  have "has_shape \<lparr>width = width a + width ?u, rows = map2 (@) (rows a) (rows ?u)\<rparr> b (n1 + (n2 + n3))"
    using assms(1) u by (rule has_shape_join)
  moreover have "torch_cat [a, c, d] = Inr \<lparr>width = width a + width ?u, rows = map2 (@) (rows a) (rows ?u)\<rparr>"
    using assms u by (simp add: has_shape_def)
  ultimately show ?thesis by (simp add: add.assoc)
qed

lemma has_shape_normalize: "has_shape x b n \<Longrightarrow> has_shape (normalize x mu var bn) b n"
  by (simp add: has_shape_def normalize_def list_all_iff)

lemma BatchNorm1d_forward_shape:
  assumes "num_features bn = n" and "has_shape x b n" and "0 < b" and "0 < n"
    and "b = 1 \<longrightarrow> \<not> bn_training bn"
  shows "\<exists>y bn'. BatchNorm1d_forward bn x = Inr (y, bn') \<and> has_shape y b n"
  using assms
  by (auto simp: BatchNorm1d_forward_def Let_def has_shape_normalize dest: has_shapeD)

subsection \<open>The forward passes follow the listed order of operations\<close>

lemma and_then_assoc:
  "and_then (and_then m f) h = and_then m (\<lambda>v. and_then (f v) h)"
  by (cases m) simp_all

lemma run_stage_unpaired:
  "run_stage d Dropout_stage xg = Inr (Dropout_forward d (snd xg) (fst xg))"
  "run_stage d (Linear_stage l) xg = and_then (Linear_forward l (fst xg)) (\<lambda>y. Inr (y, snd xg))"
  "run_stage d ReLU_stage xg = Inr (relu (fst xg), snd xg)"
  "run_stage d (Concat_stage a b) xg = and_then (torch_cat [fst xg, a, b]) (\<lambda>y. Inr (y, snd xg))"
  by (cases xg; simp)+

lemma SubNet_forward_eq_spec: "SubNet_forward s g x = SubNet_spec s g x"
  by (simp add: SubNet_forward_def SubNet_spec_def SubNet_stages_def Let_def
      case_prod_beta run_stage_unpaired and_then_assoc del: run_stage.simps)

lemma forward_eq_spec:
  "WeightedMultiModalFusionNetwork_forward self g text_x video_x audio_x speaker_x context_x =
   WeightedMultiModalFusionNetwork_spec self g text_x video_x audio_x speaker_x context_x"
  by (simp add: WeightedMultiModalFusionNetwork_forward_def
      WeightedMultiModalFusionNetwork_spec_def head_stages_def Let_def
      case_prod_beta run_stage_unpaired and_then_assoc SubNet_forward_eq_spec
      del: run_stage.simps torch_cat.simps)

subsection \<open>Shapes through SubNet, ModalityFusion and the network\<close>

lemma SubNet_forward_shape:
  assumes s: "SubNet_sized i h s" and x: "has_shape x b i" and b: "0 < b" and i: "0 < i"
    and m: "b = 1 \<longrightarrow> \<not> bn_training (norm_layer s)"
  shows "\<exists>y s' g'. SubNet_forward s g x = Inr (y, s', g') \<and> has_shape y b h"
proof -
  from s have nf: "num_features (norm_layer s) = i"
    and l1: "sized_linear (linear_1 s) i h" and l2: "sized_linear (linear_2 s) h h"
    and l3: "sized_linear (linear_3 s) h h"
    by (simp_all add: SubNet_sized_def)
  from BatchNorm1d_forward_shape [OF nf x b i m]
  obtain normed bn' where bn: "BatchNorm1d_forward (norm_layer s) x = Inr (normed, bn')"
    and n: "has_shape normed b i" by blast
  obtain dropped g' where d: "Dropout_forward (drop_layer s) g normed = (dropped, g')"
    by (cases "Dropout_forward (drop_layer s) g normed")
  with has_shape_Dropout [OF n, of "drop_layer s" g] have dr: "has_shape dropped b i" by simp
  from Linear_forward_shape [OF l1 dr] obtain z1
    where z1: "Linear_forward (linear_1 s) dropped = Inr z1" and sz1: "has_shape z1 b h" by blast
  from Linear_forward_shape [OF l2 has_shape_relu [OF sz1]] obtain z2
    where z2: "Linear_forward (linear_2 s) (relu z1) = Inr z2" and sz2: "has_shape z2 b h" by blast
  from Linear_forward_shape [OF l3 has_shape_relu [OF sz2]] obtain z3
    where z3: "Linear_forward (linear_3 s) (relu z2) = Inr z3" and sz3: "has_shape z3 b h" by blast
  have "SubNet_forward s g x = Inr (relu z3, s\<lparr>norm_layer := bn'\<rparr>, g')"
    by (simp add: SubNet_forward_def bn d z1 z2 z3 Let_def)
  with has_shape_relu [OF sz3] show ?thesis by blast
qed

lemma ModalityFusion_forward_shape:
  assumes "has_shape t b n1" "has_shape a b n2" "has_shape v b n3"
  shows "\<exists>y. ModalityFusion_forward m t a v = Inr y \<and> has_shape y b (n1 + n2 + n3)"
  unfolding ModalityFusion_forward_def Let_def
  by (intro torch_cat3_shape has_shape_mul_scalar assms)

lemma Dropout_forward_shape:
  assumes "has_shape x b n"
  obtains y g' where "Dropout_forward d g x = (y, g')" and "has_shape y b n"
  using has_shape_Dropout [OF assms, of d g] by (cases "Dropout_forward d g x") simp

lemma forward_shape:
  assumes c: "has_config cfg speaker_num self"
    and tx: "has_shape text_x b (TEXT_DIM cfg)"
    and vx: "has_shape video_x b (VIDEO_DIM cfg)"
    and ax: "has_shape audio_x b (AUDIO_DIM cfg)"
    and sx: "has_shape speaker_x b speaker_num"
    and cx: "has_shape context_x b (TEXT_DIM cfg)"
    and b: "0 < b"
    and dims: "0 < TEXT_DIM cfg" "0 < VIDEO_DIM cfg" "0 < AUDIO_DIM cfg" "0 < speaker_num"
    and m: "b = 1 \<longrightarrow> norms_in_eval self"
  shows "\<exists>out self' g'.
     WeightedMultiModalFusionNetwork_forward self g text_x video_x audio_x speaker_x context_x =
       Inr (out, self', g') \<and>
     has_shape out b 2"
proof -
  from c have vs: "SubNet_sized (VIDEO_DIM cfg) (VIDEO_HIDDEN cfg) (video_subnet self)"
    and as: "SubNet_sized (AUDIO_DIM cfg) (AUDIO_HIDDEN cfg) (audio_subnet self)"
    and ts: "SubNet_sized (TEXT_DIM cfg) (TEXT_HIDDEN cfg) (text_subnet self)"
    and cs: "SubNet_sized (TEXT_DIM cfg) (CONTEXT_HIDDEN cfg) (context_subnet self)"
    and ss: "SubNet_sized speaker_num (SPEAKER_HIDDEN cfg) (speaker_subnet self)"
    and l1: "sized_linear (post_fusion_layer_1 self)
        (TEXT_HIDDEN cfg + VIDEO_HIDDEN cfg + AUDIO_HIDDEN cfg) (POST_FUSION_DIM cfg)"
    and l2: "sized_linear (post_fusion_layer_2 self) (POST_FUSION_DIM cfg) (POST_FUSION_DIM cfg)"
    and l3: "sized_linear (post_fusion_layer_3 self)
        (POST_FUSION_DIM cfg + SPEAKER_HIDDEN cfg + CONTEXT_HIDDEN cfg) (POST_FUSION_DIM cfg)"
    and lf: "sized_linear (fc self) (POST_FUSION_DIM cfg) 2"
    by (simp_all add: has_config_def)
  from m have mv: "b = 1 \<longrightarrow> \<not> bn_training (norm_layer (video_subnet self))"
    and ma: "b = 1 \<longrightarrow> \<not> bn_training (norm_layer (audio_subnet self))"
    and mt: "b = 1 \<longrightarrow> \<not> bn_training (norm_layer (text_subnet self))"
    and ms: "b = 1 \<longrightarrow> \<not> bn_training (norm_layer (speaker_subnet self))"
    and mc: "b = 1 \<longrightarrow> \<not> bn_training (norm_layer (context_subnet self))"
    by (simp_all add: norms_in_eval_def)
  from SubNet_forward_shape [OF vs vx b dims(2) mv] obtain video_h vs' g1
    where e1: "SubNet_forward (video_subnet self) g video_x = Inr (video_h, vs', g1)"
      and h1: "has_shape video_h b (VIDEO_HIDDEN cfg)" by blast
  from SubNet_forward_shape [OF as ax b dims(3) ma] obtain audio_h as' g2
    where e2: "SubNet_forward (audio_subnet self) g1 audio_x = Inr (audio_h, as', g2)"
      and h2: "has_shape audio_h b (AUDIO_HIDDEN cfg)" by blast
  from SubNet_forward_shape [OF ts tx b dims(1) mt] obtain text_h ts' g3
    where e3: "SubNet_forward (text_subnet self) g2 text_x = Inr (text_h, ts', g3)"
      and h3: "has_shape text_h b (TEXT_HIDDEN cfg)" by blast
  from SubNet_forward_shape [OF ss sx b dims(4) ms] obtain speaker_h ss' g4
    where e4: "SubNet_forward (speaker_subnet self) g3 speaker_x = Inr (speaker_h, ss', g4)"
      and h4: "has_shape speaker_h b (SPEAKER_HIDDEN cfg)" by blast
  from SubNet_forward_shape [OF cs cx b dims(1) mc] obtain context_h cs' g5
    where e5: "SubNet_forward (context_subnet self) g4 context_x = Inr (context_h, cs', g5)"
      and h5: "has_shape context_h b (CONTEXT_HIDDEN cfg)" by blast
  from ModalityFusion_forward_shape [OF h3 h2 h1] obtain fusion_h
    where e6: "ModalityFusion_forward (fusion self) text_h audio_h video_h = Inr fusion_h"
      and h6: "has_shape fusion_h b (TEXT_HIDDEN cfg + AUDIO_HIDDEN cfg + VIDEO_HIDDEN cfg)"
    by blast
  have "TEXT_HIDDEN cfg + AUDIO_HIDDEN cfg + VIDEO_HIDDEN cfg =
      TEXT_HIDDEN cfg + VIDEO_HIDDEN cfg + AUDIO_HIDDEN cfg" by simp
  with h6 have h6': "has_shape fusion_h b (TEXT_HIDDEN cfg + VIDEO_HIDDEN cfg + AUDIO_HIDDEN cfg)"
    by simp
  from Dropout_forward_shape [OF h6'] obtain x1 g6
    where e7: "Dropout_forward (post_fusion_dropout self) g5 fusion_h = (x1, g6)"
      and h7: "has_shape x1 b (TEXT_HIDDEN cfg + VIDEO_HIDDEN cfg + AUDIO_HIDDEN cfg)" by blast
  from Linear_forward_shape [OF l1 h7] obtain x2
    where e8: "Linear_forward (post_fusion_layer_1 self) x1 = Inr x2"
      and h8: "has_shape x2 b (POST_FUSION_DIM cfg)" by blast
  from Dropout_forward_shape [OF has_shape_relu [OF h8]] obtain x3 g7
    where e9: "Dropout_forward (post_fusion_dropout self) g6 (relu x2) = (x3, g7)"
      and h9: "has_shape x3 b (POST_FUSION_DIM cfg)" by blast
  from Linear_forward_shape [OF l2 h9] obtain x4
    where e10: "Linear_forward (post_fusion_layer_2 self) x3 = Inr x4"
      and h10: "has_shape x4 b (POST_FUSION_DIM cfg)" by blast
  from torch_cat3_shape [OF has_shape_relu [OF h10] h4 h5] obtain late_fusion
    where e11: "torch_cat [relu x4, speaker_h, context_h] = Inr late_fusion"
      and h11: "has_shape late_fusion b
         (POST_FUSION_DIM cfg + SPEAKER_HIDDEN cfg + CONTEXT_HIDDEN cfg)" by blast
  from Dropout_forward_shape [OF h11] obtain x5 g8
    where e12: "Dropout_forward (post_fusion_dropout self) g7 late_fusion = (x5, g8)"
      and h12: "has_shape x5 b (POST_FUSION_DIM cfg + SPEAKER_HIDDEN cfg + CONTEXT_HIDDEN cfg)"
    by blast
  from Linear_forward_shape [OF l3 h12] obtain x6
    where e13: "Linear_forward (post_fusion_layer_3 self) x5 = Inr x6"
      and h13: "has_shape x6 b (POST_FUSION_DIM cfg)" by blast
  from Dropout_forward_shape [OF has_shape_relu [OF h13]] obtain x7 g9
    where e14: "Dropout_forward (post_fusion_dropout self) g8 (relu x6) = (x7, g9)"
      and h14: "has_shape x7 b (POST_FUSION_DIM cfg)" by blast
  from Linear_forward_shape [OF lf h14] obtain out
    where e15: "Linear_forward (fc self) x7 = Inr out"
      and h15: "has_shape out b 2" by blast
  have "WeightedMultiModalFusionNetwork_forward self g text_x video_x audio_x speaker_x context_x =
      Inr (out,
          self\<lparr>video_subnet := vs', audio_subnet := as', text_subnet := ts',
               speaker_subnet := ss', context_subnet := cs'\<rparr>, g9)"
    by (simp add: WeightedMultiModalFusionNetwork_forward_def e1 e2 e3 e4 e5 e6 e7 e8 e9 e10 e11 e12 e13 e14 e15
        del: torch_cat.simps)
  with h15 show ?thesis by blast
qed

subsection \<open>Evaluation mode\<close>

lemma Dropout_forward_eval: "\<not> drop_training d \<Longrightarrow> Dropout_forward d g x = (x, g)"
  by (simp add: Dropout_forward_def)

lemma BatchNorm1d_forward_eval:
  "\<not> bn_training bn \<Longrightarrow> BatchNorm1d_forward bn x = Inr (y, bn') \<Longrightarrow> bn' = bn"
  by (simp add: BatchNorm1d_forward_def split: if_splits)

lemma SubNet_forward_eval:
  assumes "SubNet_in_eval s"
  shows "\<exists>r. \<forall>g. SubNet_forward s g x = map_sum id (\<lambda>y. (y, s, g)) r"
proof (cases "BatchNorm1d_forward (norm_layer s) x")
  case (Inl e)
  then have "\<forall>g. SubNet_forward s g x = map_sum id (\<lambda>y. (y, s, g)) (Inl e)"
    by (simp add: SubNet_forward_def)
  then show ?thesis ..
next
  case (Inr p)
  then obtain normed bn' where p: "BatchNorm1d_forward (norm_layer s) x = Inr (normed, bn')"
    by (cases p) simp
  with assms have bn': "bn' = norm_layer s"
    by (auto simp: SubNet_in_eval_def dest: BatchNorm1d_forward_eval)
  let ?r = "and_then (Linear_forward (linear_1 s) normed) (\<lambda>z_1.
            and_then (Linear_forward (linear_2 s) (relu z_1)) (\<lambda>z_2.
            and_then (Linear_forward (linear_3 s) (relu z_2)) (\<lambda>z_3. Inr (relu z_3))))"
  from assms have d: "\<And>g t. Dropout_forward (drop_layer s) g t = (t, g)"
    by (simp add: SubNet_in_eval_def Dropout_forward_eval)
  have "\<forall>g. SubNet_forward s g x = map_sum id (\<lambda>y. (y, s, g)) ?r"
    by (simp add: SubNet_forward_def p bn' d Let_def and_then_def split: sum.splits)
  then show ?thesis ..
qed

lemma forward_eval:
  assumes "in_eval_mode self"
  shows "\<exists>r. \<forall>g. WeightedMultiModalFusionNetwork_forward self g text_x video_x audio_x speaker_x context_x =
     map_sum id (\<lambda>y. (y, self, g)) r"
proof -
  from assms have d: "\<And>g t. Dropout_forward (post_fusion_dropout self) g t = (t, g)"
    by (simp add: in_eval_mode_def Dropout_forward_eval)
  from assms SubNet_forward_eval obtain r1 where
    r1: "\<And>g. SubNet_forward (video_subnet self) g video_x = map_sum id (\<lambda>y. (y, video_subnet self, g)) r1"
    unfolding in_eval_mode_def by blast
  from assms SubNet_forward_eval obtain r2 where
    r2: "\<And>g. SubNet_forward (audio_subnet self) g audio_x = map_sum id (\<lambda>y. (y, audio_subnet self, g)) r2"
    unfolding in_eval_mode_def by blast
  from assms SubNet_forward_eval obtain r3 where
    r3: "\<And>g. SubNet_forward (text_subnet self) g text_x = map_sum id (\<lambda>y. (y, text_subnet self, g)) r3"
    unfolding in_eval_mode_def by blast
  from assms SubNet_forward_eval obtain r4 where
    r4: "\<And>g. SubNet_forward (speaker_subnet self) g speaker_x = map_sum id (\<lambda>y. (y, speaker_subnet self, g)) r4"
    unfolding in_eval_mode_def by blast
  from assms SubNet_forward_eval obtain r5 where
    r5: "\<And>g. SubNet_forward (context_subnet self) g context_x = map_sum id (\<lambda>y. (y, context_subnet self, g)) r5"
    unfolding in_eval_mode_def by blast
  let ?r = "and_then r1 (\<lambda>video_h. and_then r2 (\<lambda>audio_h. and_then r3 (\<lambda>text_h.
            and_then r4 (\<lambda>speaker_h. and_then r5 (\<lambda>context_h.
            and_then (ModalityFusion_forward (fusion self) text_h audio_h video_h) (\<lambda>fusion_h.
            and_then (Linear_forward (post_fusion_layer_1 self) fusion_h) (\<lambda>x.
            and_then (Linear_forward (post_fusion_layer_2 self) (relu x)) (\<lambda>x.
            and_then (torch_cat [relu x, speaker_h, context_h]) (\<lambda>late_fusion.
            and_then (Linear_forward (post_fusion_layer_3 self) late_fusion) (\<lambda>x.
            Linear_forward (fc self) (relu x)))))))))))"
  have "\<forall>g. WeightedMultiModalFusionNetwork_forward self g text_x video_x audio_x speaker_x context_x =
     map_sum id (\<lambda>y. (y, self, g)) ?r"
    by (simp add: WeightedMultiModalFusionNetwork_forward_def r1 r2 r3 r4 r5 d Let_def and_then_def split: sum.splits
        del: torch_cat.simps)
  then show ?thesis ..
qed

subsection \<open>Constructors and the example network\<close>

lemma sized_Linear_init: "sized_linear (Linear_init i o' d) i o'"
  by (simp add: sized_linear_def wf_linear_def Linear_init_def list_all_iff)

lemma wf_BatchNorm1d_init: "wf_batchnorm (BatchNorm1d_init n)"
  by (simp add: wf_batchnorm_def BatchNorm1d_init_def)

lemma SubNet_init_sized:
  "SubNet_init i h p draws = Inr s \<Longrightarrow>
     SubNet_sized i h s \<and> bn_training (norm_layer s) \<and> drop_training (drop_layer s)"
  by (auto simp: SubNet_init_def Dropout_init_def SubNet_sized_def sized_Linear_init
      wf_batchnorm_def BatchNorm1d_init_def split: if_splits)

lemma SubNet_init_defined:
  "0 \<le> p \<Longrightarrow> p \<le> 1 \<Longrightarrow> \<exists>s. SubNet_init i h p draws = Inr s"
  by (simp add: SubNet_init_def Dropout_init_def)

lemma and_then_Inr_iff:
  "and_then m f = Inr y \<longleftrightarrow> (\<exists>v. m = Inr v \<and> f v = Inr y)"
  by (cases m) simp_all

lemma network_init_has_config:
  assumes "WeightedMultiModalFusionNetwork_init cfg speaker_num draws = Inr self"
  shows "has_config cfg speaker_num self"
  using assms
  by (auto simp: WeightedMultiModalFusionNetwork_init_def and_then_Inr_iff has_config_def sized_Linear_init
      dest: SubNet_init_sized)

lemma example_subnet_init: "SubNet_init 3 2 (1 / 2) (example_draws 0) = Inr example_subnet"
proof -
  obtain s where "SubNet_init 3 2 (1 / 2) (example_draws 0) = Inr s"
    using SubNet_init_defined [of "1 / 2" 3 2 "example_draws 0"] by auto
  then show ?thesis by (simp add: example_subnet_def)
qed

lemma example_net_init: "WeightedMultiModalFusionNetwork_init example_config 2 example_draws = Inr example_net"
proof -
  have "\<exists>n. WeightedMultiModalFusionNetwork_init example_config 2 example_draws = Inr n"
    by (simp add: WeightedMultiModalFusionNetwork_init_def SubNet_init_def Dropout_init_def example_config_def)
  then show ?thesis by (auto simp: example_net_def)
qed

lemma example_net_has_config: "has_config example_config 2 example_net"
  using example_net_init by (rule network_init_has_config)

lemma in_eval_mode_network_eval: "in_eval_mode (network_eval self)"
  by (simp add: in_eval_mode_def network_eval_def SubNet_in_eval_def SubNet_eval_def)

lemma in_eval_mode_norms: "in_eval_mode self \<Longrightarrow> norms_in_eval self"
  by (simp add: in_eval_mode_def norms_in_eval_def SubNet_in_eval_def)

lemma has_config_network_eval:
  "has_config cfg speaker_num self \<Longrightarrow> has_config cfg speaker_num (network_eval self)"
  by (simp add: has_config_def network_eval_def SubNet_sized_def SubNet_eval_def
      wf_batchnorm_def)

lemma has_shape_ones: "has_shape (ones b n) b n"
  by (simp add: has_shape_def ones_def list_all_iff)

lemma example_subnet_training: "bn_training (norm_layer example_subnet)"
  using SubNet_init_sized [OF example_subnet_init] by simp

lemma network_init_video_subnet:
  assumes "WeightedMultiModalFusionNetwork_init cfg speaker_num draws = Inr self"
  shows "SubNet_init (VIDEO_DIM cfg) (VIDEO_HIDDEN cfg) (VIDEO_DROPOUT cfg) (draws 0) =
     Inr (video_subnet self)"
  using assms by (auto simp: WeightedMultiModalFusionNetwork_init_def and_then_Inr_iff)

lemma video_subnet_example_training: "bn_training (norm_layer (video_subnet example_net))"
  using SubNet_init_sized [OF network_init_video_subnet [OF example_net_init]] by simp

subsection \<open>What a forward pass leaves of the modules\<close>

text \<open>
  A forward pass changes nothing but the running statistics and the batch counter of the
  batch-norm layers: layout, mode and all other parameters stay.
\<close>

lemma BatchNorm1d_forward_preserves:
  assumes "BatchNorm1d_forward bn x = Inr (y, bn')" and "wf_batchnorm bn"
  shows "num_features bn' = num_features bn \<and> wf_batchnorm bn' \<and>
     bn_training bn' = bn_training bn \<and> bn_weight bn' = bn_weight bn \<and>
     bn_bias bn' = bn_bias bn"
  using assms
  by (auto simp: BatchNorm1d_forward_def wf_batchnorm_def Let_def split: if_splits)

lemma SubNet_forward_preserves:
  assumes "SubNet_forward s g x = Inr (y, s', g')" and "SubNet_sized i h s"
  shows "SubNet_sized i h s' \<and> linear_1 s' = linear_1 s \<and> linear_2 s' = linear_2 s \<and>
     linear_3 s' = linear_3 s \<and> drop_layer s' = drop_layer s \<and>
     bn_training (norm_layer s') = bn_training (norm_layer s)"
proof -
  from assms(1) obtain normed bn' where
    bn: "BatchNorm1d_forward (norm_layer s) x = Inr (normed, bn')" and s': "s' = s\<lparr>norm_layer := bn'\<rparr>"
    by (auto simp: SubNet_forward_def and_then_Inr_iff Let_def case_prod_beta)
  from assms(2) have "wf_batchnorm (norm_layer s)" by (simp add: SubNet_sized_def)
  from BatchNorm1d_forward_preserves [OF bn this] assms(2) show ?thesis
    by (simp add: s' SubNet_sized_def)
qed

lemma forward_preserves_config:
  assumes "WeightedMultiModalFusionNetwork_forward self g text_x video_x audio_x speaker_x context_x = Inr (out, self', g')"
    and "has_config cfg speaker_num self"
  shows "has_config cfg speaker_num self'"
proof -
  from assms(1) obtain video_h vs g1 audio_h as g2 text_h ts g3 speaker_h ss g4 context_h cs g5
    where e: "SubNet_forward (video_subnet self) g video_x = Inr (video_h, vs, g1)"
      "SubNet_forward (audio_subnet self) g1 audio_x = Inr (audio_h, as, g2)"
      "SubNet_forward (text_subnet self) g2 text_x = Inr (text_h, ts, g3)"
      "SubNet_forward (speaker_subnet self) g3 speaker_x = Inr (speaker_h, ss, g4)"
      "SubNet_forward (context_subnet self) g4 context_x = Inr (context_h, cs, g5)"
    and s': "self' = self\<lparr>video_subnet := vs, audio_subnet := as, text_subnet := ts,
               speaker_subnet := ss, context_subnet := cs\<rparr>"
    by (auto simp: WeightedMultiModalFusionNetwork_forward_def and_then_Inr_iff Let_def case_prod_beta simp del: torch_cat.simps)
  from assms(2) e show ?thesis
    by (auto simp: s' has_config_def dest: SubNet_forward_preserves)
qed

subsection \<open>ModalityFusion row by row\<close>

lemma mul_scalar_one: "mul_scalar x 1 = x"
  by (simp add: mul_scalar_def)

lemma ModalityFusion_forward_rows:
  assumes t: "has_shape t b n1" and a: "has_shape a b n2" and v: "has_shape v b n3"
  shows "\<exists>y. ModalityFusion_forward m t a v = Inr y \<and> has_shape y b (n1 + n2 + n3) \<and>
      (\<forall>i<b. rows y ! i =
         map (\<lambda>x. x * weight_1 m) (rows t ! i) @ map (\<lambda>x. x * weight_2 m) (rows a ! i)
           @ map (\<lambda>x. x * weight_3 m) (rows v ! i))"
proof -
  from ModalityFusion_forward_shape [OF t a v, of m] obtain y
    where y: "ModalityFusion_forward m t a v = Inr y" and s: "has_shape y b (n1 + n2 + n3)"
    by blast
  from t a v have len: "length (rows t) = b" "length (rows a) = b" "length (rows v) = b"
    by (simp_all add: has_shape_def)
  from y len have "rows y = map2 (@) (map (map (\<lambda>x. x * weight_1 m)) (rows t))
      (map2 (@) (map (map (\<lambda>x. x * weight_2 m)) (rows a))
                (map (map (\<lambda>x. x * weight_3 m)) (rows v)))"
    by (auto simp: ModalityFusion_forward_def mul_scalar_def Let_def)
  with len have "\<forall>i<b. rows y ! i =
         map (\<lambda>x. x * weight_1 m) (rows t ! i) @ map (\<lambda>x. x * weight_2 m) (rows a ! i)
           @ map (\<lambda>x. x * weight_3 m) (rows v ! i)"
    by simp
  with y s show ?thesis by blast
qed

lemma ModalityFusion_forward_ones:
  "ModalityFusion_forward \<lparr>weight_1 = 2, weight_2 = 3, weight_3 = 5\<rparr>
       (ones b n1) (ones b n2) (ones b n3) =
     Inr \<lparr>width = n1 + n2 + n3,
          rows = replicate b (replicate n1 2 @ replicate n2 3 @ replicate n3 5)\<rparr>"
  by (simp add: ModalityFusion_forward_def mul_scalar_def ones_def zip_replicate add.assoc)

section \<open>Properties of network.py\<close>

subsection \<open>ModalityFusion\<close>

text \<open>
  Claim C2. On three tensors of the same batch size \<open>b\<close> and of widths \<open>n1\<close>, \<open>n2\<close>, \<open>n3\<close>,
  \<^verbatim>\<open>ModalityFusion.forward\<close> returns a tensor of shape \<open>(b, n1 + n2 + n3)\<close> whose \<open>i\<close>-th
  row is the \<open>i\<close>-th text row times weight_1, followed by the \<open>i\<close>-th audio row times
  weight_2, followed by the \<open>i\<close>-th video row times weight_3. With the weights 2, 3 and 5
  and inputs of ones, every row is 2 on the text segment, 3 on the audio segment and 5 on
  the video segment.
\<close>

theorem ModalityFusion_forward_weighted:
  assumes "has_shape t b n1" and "has_shape a b n2" and "has_shape v b n3"
  shows "(\<exists>y. ModalityFusion_forward m t a v = Inr y \<and> has_shape y b (n1 + n2 + n3) \<and>
      (\<forall>i<b. rows y ! i =
         map (\<lambda>x. x * weight_1 m) (rows t ! i) @ map (\<lambda>x. x * weight_2 m) (rows a ! i)
           @ map (\<lambda>x. x * weight_3 m) (rows v ! i))) \<and>
    ModalityFusion_forward \<lparr>weight_1 = 2, weight_2 = 3, weight_3 = 5\<rparr>
       (ones b n1) (ones b n2) (ones b n3) =
     Inr \<lparr>width = n1 + n2 + n3,
          rows = replicate b (replicate n1 2 @ replicate n2 3 @ replicate n3 5)\<rparr>"
  using ModalityFusion_forward_rows [OF assms, of m] ModalityFusion_forward_ones [of b n1 n2 n3]
  by blast

theorem ModalityFusion_forward_weighted_witness:
  "has_shape text_ex 2 2 \<and> has_shape audio_ex 2 1 \<and> has_shape video_ex 2 3 \<and>
   ModalityFusion_forward \<lparr>weight_1 = 2, weight_2 = 3, weight_3 = 5\<rparr> text_ex audio_ex video_ex =
     Inr \<lparr>width = 6, rows = [[2, 4, 15, 35, 40, 45], [6, 8, 18, 50, 55, 60]]\<rparr>"
  using ModalityFusion_forward_weighted [of text_ex 2 2 audio_ex 1 video_ex 3
      "\<lparr>weight_1 = 2, weight_2 = 3, weight_3 = 5\<rparr>"]
  by (simp add: has_shape_def text_ex_def audio_ex_def video_ex_def ModalityFusion_forward_def
      mul_scalar_def)

text \<open>
  Claim C9. A new ModalityFusion has the three weights 1, and its forward pass is the plain
  concatenation: on every three tensors it returns what \<^verbatim>\<open>torch.cat\<close> returns on them, and
  on tensors of the same batch size that is the tensor whose \<open>i\<close>-th row is the \<open>i\<close>-th text
  row followed by the \<open>i\<close>-th audio row and the \<open>i\<close>-th video row.
\<close>

theorem ModalityFusion_init_identity:
  "weight_1 ModalityFusion_init = 1 \<and> weight_2 ModalityFusion_init = 1 \<and>
   weight_3 ModalityFusion_init = 1 \<and>
   ModalityFusion_forward ModalityFusion_init t a v = torch_cat [t, a, v] \<and>
   (has_shape t b n1 \<and> has_shape a b n2 \<and> has_shape v b n3 \<longrightarrow>
      (\<exists>y. ModalityFusion_forward ModalityFusion_init t a v = Inr y \<and>
           has_shape y b (n1 + n2 + n3) \<and>
           (\<forall>i<b. rows y ! i = rows t ! i @ rows a ! i @ rows v ! i)))"
proof -
  have w: "weight_1 ModalityFusion_init = 1" "weight_2 ModalityFusion_init = 1"
    "weight_3 ModalityFusion_init = 1"
    by (simp_all add: ModalityFusion_init_def)
  have c: "ModalityFusion_forward ModalityFusion_init t a v = torch_cat [t, a, v]"
    by (simp add: ModalityFusion_forward_def w mul_scalar_one del: torch_cat.simps)
  have "\<exists>y. ModalityFusion_forward ModalityFusion_init t a v = Inr y \<and>
           has_shape y b (n1 + n2 + n3) \<and>
           (\<forall>i<b. rows y ! i = rows t ! i @ rows a ! i @ rows v ! i)"
    if "has_shape t b n1 \<and> has_shape a b n2 \<and> has_shape v b n3"
    using ModalityFusion_forward_rows [of t b n1 a n2 v n3 ModalityFusion_init] that
    by (simp add: w)
  with w c show ?thesis by blast
qed

theorem ModalityFusion_init_identity_witness:
  "has_shape text_ex 2 2 \<and> has_shape audio_ex 2 1 \<and> has_shape video_ex 2 3 \<and>
   ModalityFusion_forward ModalityFusion_init text_ex audio_ex video_ex =
     Inr \<lparr>width = 6, rows = [[1, 2, 5, 7, 8, 9], [3, 4, 6, 10, 11, 12]]\<rparr>"
  using ModalityFusion_init_identity [of text_ex audio_ex video_ex 2 2 1 3]
  by (simp add: has_shape_def text_ex_def audio_ex_def video_ex_def)

subsection \<open>SubNet\<close>

text \<open>
  Claim C3, as stated, fails: a SubNet in training mode, which is the mode of a new module,
  refuses a batch of one row, because batch normalisation cannot take the variance of a
  single value per feature.
\<close>

theorem SubNet_forward_batch_one_counterexample:
  "SubNet_sized 3 2 example_subnet \<and> has_shape (ones 1 3) 1 3 \<and>
   SubNet_forward example_subnet keep_all (ones 1 3) = Inl ValueError"
proof -
  have "BatchNorm1d_forward (norm_layer example_subnet) (ones 1 3) = Inl ValueError"
    using example_subnet_training by (simp add: BatchNorm1d_forward_def ones_def)
  then have "SubNet_forward example_subnet keep_all (ones 1 3) = Inl ValueError"
    by (simp add: SubNet_forward_def)
  with SubNet_init_sized [OF example_subnet_init] has_shape_ones [of 1 3]
  show ?thesis by simp
qed

text \<open>
  Claim C3, amended. On every input of shape \<open>(batch, in_size)\<close> with \<open>in_size \<ge> 1\<close> and
  either \<open>batch \<ge> 2\<close>, or \<open>batch = 1\<close> and the batch-norm layer in evaluation mode,
  \<^verbatim>\<open>SubNet.forward\<close> applies batch normalisation, then dropout, then three linear
  projections with a rectified-linear activation after each, and returns a tensor of
  shape \<open>(batch, hidden_size)\<close>.
\<close>

theorem SubNet_forward_returns_hidden:
  assumes "SubNet_sized in_size hidden_size s" and "has_shape x b in_size"
    and "1 \<le> b" and "1 \<le> in_size"
    and "b = 1 \<longrightarrow> \<not> bn_training (norm_layer s)"
  shows "SubNet_forward s g x = SubNet_spec s g x \<and>
     (\<exists>y s' g'. SubNet_forward s g x = Inr (y, s', g') \<and> has_shape y b hidden_size)"
proof -
  from assms(3,4) have "0 < b" and "0 < in_size" by simp_all
  from SubNet_forward_shape [OF assms(1,2) this assms(5)] SubNet_forward_eq_spec
  show ?thesis by blast
qed

theorem SubNet_forward_returns_hidden_witness:
  "SubNet_sized 3 2 example_subnet \<and> has_shape (ones 2 3) 2 3 \<and>
   (\<exists>y s' g'. SubNet_forward example_subnet keep_all (ones 2 3) = Inr (y, s', g') \<and>
      has_shape y 2 2) \<and>
   SubNet_sized 3 2 (SubNet_eval example_subnet) \<and> has_shape (ones 1 3) 1 3 \<and>
   \<not> bn_training (norm_layer (SubNet_eval example_subnet)) \<and>
   (\<exists>y s' g'. SubNet_forward (SubNet_eval example_subnet) keep_all (ones 1 3) = Inr (y, s', g') \<and>
      has_shape y 1 2)"
proof -
  have s: "SubNet_sized 3 2 example_subnet"
    using SubNet_init_sized [OF example_subnet_init] by simp
  then have e: "SubNet_sized 3 2 (SubNet_eval example_subnet)"
    by (simp add: SubNet_sized_def SubNet_eval_def wf_batchnorm_def)
  have m: "\<not> bn_training (norm_layer (SubNet_eval example_subnet))"
    by (simp add: SubNet_eval_def)
  have w1: "\<exists>y s' g'. SubNet_forward example_subnet keep_all (ones 2 3) = Inr (y, s', g') \<and>
      has_shape y 2 2"
    using SubNet_forward_returns_hidden [OF s has_shape_ones [of 2 3], of keep_all,
        THEN conjunct2] by simp
  have w2: "\<exists>y s' g'. SubNet_forward (SubNet_eval example_subnet) keep_all (ones 1 3) =
      Inr (y, s', g') \<and> has_shape y 1 2"
    using SubNet_forward_returns_hidden [OF e has_shape_ones [of 1 3], of keep_all,
        THEN conjunct2] m by simp
  from w1 w2 s e m has_shape_ones [of 2 3] has_shape_ones [of 1 3]
  show ?thesis by blast
qed

subsection \<open>WeightedMultiModalFusionNetwork\<close>

text \<open>
  Claim C1, as stated, fails for the same reason as C3: a network in training mode refuses
  correctly dimensioned inputs of batch size one.
\<close>

theorem forward_batch_one_counterexample:
  "has_config example_config 2 example_net \<and>
   has_shape (ones 1 3) 1 (TEXT_DIM example_config) \<and>
   has_shape (ones 1 2) 1 (VIDEO_DIM example_config) \<and>
   has_shape (ones 1 1) 1 (AUDIO_DIM example_config) \<and>
   has_shape (ones 1 2) 1 2 \<and>
   WeightedMultiModalFusionNetwork_forward example_net keep_all
        (ones 1 3) (ones 1 2) (ones 1 1) (ones 1 2) (ones 1 3) =
     Inl ValueError"
proof -
  have "BatchNorm1d_forward (norm_layer (video_subnet example_net)) (ones 1 2) = Inl ValueError"
    using video_subnet_example_training by (simp add: BatchNorm1d_forward_def ones_def)
  then have "SubNet_forward (video_subnet example_net) keep_all (ones 1 2) = Inl ValueError"
    by (simp add: SubNet_forward_def)
  then have "WeightedMultiModalFusionNetwork_forward example_net keep_all
       (ones 1 3) (ones 1 2) (ones 1 1) (ones 1 2) (ones 1 3) =
     Inl ValueError"
    by (simp add: WeightedMultiModalFusionNetwork_forward_def)
  with example_net_has_config has_shape_ones show ?thesis
    by (simp add: example_config_def)
qed

text \<open>
  Claim C1, amended. Let the network be laid out by its constructor under a configuration
  with input dimensions of at least 1, and let the five inputs have the configured widths
  and the same batch size, which is at least 2, or 1 with no batch-norm layer in training
  mode (as in evaluation mode).
  Then \<^verbatim>\<open>forward\<close> encodes each input through its own SubNet, fuses the text, audio and
  video encodings, applies dropout, linear, ReLU, dropout, linear, ReLU, the concatenation
  with the speaker and context encodings, dropout, linear, ReLU, dropout and the final
  linear layer, and returns a tensor of shape \<open>(batch, 2)\<close>.
\<close>

theorem forward_returns_logits:
  assumes "has_config cfg speaker_num self"
    and "has_shape text_x b (TEXT_DIM cfg)"
    and "has_shape video_x b (VIDEO_DIM cfg)"
    and "has_shape audio_x b (AUDIO_DIM cfg)"
    and "has_shape speaker_x b speaker_num"
    and "has_shape context_x b (TEXT_DIM cfg)"
    and "1 \<le> b"
    and "1 \<le> TEXT_DIM cfg" and "1 \<le> VIDEO_DIM cfg" and "1 \<le> AUDIO_DIM cfg"
    and "1 \<le> speaker_num"
    and "b = 1 \<longrightarrow> norms_in_eval self"
  shows "WeightedMultiModalFusionNetwork_forward self g text_x video_x audio_x speaker_x context_x =
       WeightedMultiModalFusionNetwork_spec self g text_x video_x audio_x speaker_x context_x \<and>
     (\<exists>out self' g'.
        WeightedMultiModalFusionNetwork_forward self g text_x video_x audio_x speaker_x context_x =
          Inr (out, self', g') \<and>
        has_shape out b 2)"
proof -
  from assms(7-11) have pos: "0 < b" "0 < TEXT_DIM cfg" "0 < VIDEO_DIM cfg" "0 < AUDIO_DIM cfg"
    "0 < speaker_num" by simp_all
  from forward_shape [OF assms(1-6) pos assms(12)] forward_eq_spec
  show ?thesis by blast
qed

theorem forward_returns_logits_witness:
  "has_config example_config 2 example_net \<and>
   (\<exists>out self' g'.
      WeightedMultiModalFusionNetwork_forward example_net keep_all
           (ones 2 3) (ones 2 2) (ones 2 1) (ones 2 2) (ones 2 3) =
        Inr (out, self', g') \<and> has_shape out 2 2) \<and>
   has_config example_config 2 (network_eval example_net) \<and>
   in_eval_mode (network_eval example_net) \<and>
   (\<exists>out self' g'.
      WeightedMultiModalFusionNetwork_forward (network_eval example_net) keep_all
          (ones 1 3) (ones 1 2) (ones 1 1) (ones 1 2) (ones 1 3) =
        Inr (out, self', g') \<and> has_shape out 1 2)"
proof -
  note c = example_net_has_config
  note e = has_config_network_eval [OF c]
  have d: "TEXT_DIM example_config = 3" "VIDEO_DIM example_config = 2"
    "AUDIO_DIM example_config = 1"
    by (simp_all add: example_config_def)
  note m = in_eval_mode_network_eval [of example_net]
  have w1: "\<exists>out self' g'.
      WeightedMultiModalFusionNetwork_forward example_net keep_all
           (ones 2 3) (ones 2 2) (ones 2 1) (ones 2 2) (ones 2 3) =
        Inr (out, self', g') \<and> has_shape out 2 2"
    by (rule forward_returns_logits [OF c, of "ones 2 3" 2 "ones 2 2" "ones 2 1" "ones 2 2"
          "ones 2 3" keep_all, THEN conjunct2])
      (simp_all add: d has_shape_ones)
  have w2: "\<exists>out self' g'.
      WeightedMultiModalFusionNetwork_forward (network_eval example_net) keep_all
          (ones 1 3) (ones 1 2) (ones 1 1) (ones 1 2) (ones 1 3) =
        Inr (out, self', g') \<and> has_shape out 1 2"
    by (rule forward_returns_logits [OF e, of "ones 1 3" 1 "ones 1 2" "ones 1 1" "ones 1 2"
          "ones 1 3" keep_all, THEN conjunct2])
      (simp_all add: d has_shape_ones in_eval_mode_norms [OF m])
  from w1 w2 c e m show ?thesis by blast
qed

text \<open>
  Claim C4. In evaluation mode the forward pass is deterministic: its result, output or
  exception, does not depend on the state of the random generator, and a call that returns
  leaves the network and the generator as they were, so that the same call made again
  returns the same output.
\<close>

theorem forward_deterministic_in_eval:
  assumes "in_eval_mode self"
  shows "map_sum id fst
       (WeightedMultiModalFusionNetwork_forward self g1 text_x video_x audio_x speaker_x context_x) =
     map_sum id fst
       (WeightedMultiModalFusionNetwork_forward self g2 text_x video_x audio_x speaker_x context_x) \<and>
     (\<forall>out self' g'.
        WeightedMultiModalFusionNetwork_forward self g1 text_x video_x audio_x speaker_x context_x =
          Inr (out, self', g') \<longrightarrow>
        self' = self \<and> g' = g1 \<and>
        WeightedMultiModalFusionNetwork_forward self' g' text_x video_x audio_x speaker_x context_x =
          Inr (out, self', g'))"
proof -
  from forward_eval [OF assms] obtain r where
    r: "\<And>g. WeightedMultiModalFusionNetwork_forward self g text_x video_x audio_x speaker_x context_x =
       map_sum id (\<lambda>y. (y, self, g)) r" by blast
  show ?thesis by (cases r) (auto simp: r)
qed

theorem forward_deterministic_in_eval_witness:
  "in_eval_mode (network_eval example_net) \<and>
   (\<exists>out.
      WeightedMultiModalFusionNetwork_forward (network_eval example_net) keep_all
          (ones 1 3) (ones 1 2) (ones 1 1) (ones 1 2) (ones 1 3) =
        Inr (out, network_eval example_net, keep_all) \<and>
      WeightedMultiModalFusionNetwork_forward (network_eval example_net) drop_all
          (ones 1 3) (ones 1 2) (ones 1 1) (ones 1 2) (ones 1 3) =
        Inr (out, network_eval example_net, drop_all))"
proof -
  let ?n = "network_eval example_net"
  let ?f = "\<lambda>g. WeightedMultiModalFusionNetwork_forward ?n g (ones 1 3) (ones 1 2) (ones 1 1) (ones 1 2) (ones 1 3)"
  note m = in_eval_mode_network_eval [of example_net]
  have d: "TEXT_DIM example_config = 3" "VIDEO_DIM example_config = 2"
    "AUDIO_DIM example_config = 1"
    by (simp_all add: example_config_def)
  have "\<exists>out self' g'. ?f keep_all = Inr (out, self', g') \<and> has_shape out 1 2"
    by (rule forward_shape [OF has_config_network_eval [OF example_net_has_config]])
      (simp_all add: d has_shape_ones in_eval_mode_norms [OF m])
  then obtain out self' g' where k: "?f keep_all = Inr (out, self', g')" by blast
  note t1 = forward_deterministic_in_eval [OF m, of keep_all "ones 1 3" "ones 1 2" "ones 1 1"
      "ones 1 2" "ones 1 3" drop_all]
  from t1 [THEN conjunct2, rule_format, OF k] have k': "self' = ?n" "g' = keep_all"
    by blast+
  from t1 [THEN conjunct1] have "map_sum id fst (?f drop_all) = Inr out"
    unfolding k by simp
  then obtain self'' g'' where dr: "?f drop_all = Inr (out, self'', g'')"
    by (cases "?f drop_all") auto
  note t2 = forward_deterministic_in_eval [OF m, of drop_all "ones 1 3" "ones 1 2" "ones 1 1"
      "ones 1 2" "ones 1 3" keep_all]
  from t2 [THEN conjunct2, rule_format, OF dr] have dr': "self'' = ?n" "g'' = drop_all"
    by blast+
  from k dr have "?f keep_all = Inr (out, ?n, keep_all)" "?f drop_all = Inr (out, ?n, drop_all)"
    unfolding k' dr' by blast+
  with m show ?thesis by blast
qed

end
